(* ===== verification/Prelude.thy ===== *)
theory Prelude
  imports Main "HOL-Library.State_Monad" "HOL-Library.Word" "HOL-Library.Sublist"
    "HOL-Library.Multiset"
begin

text \<open>
  Shared material of the development: the collections of simplification rules the
  components add to, the state-passing primitives that stand for Go's statements with
  effects, and general facts on lists used by more than one component.

  A Go function that touches the outside world is a value of type
  \<open>('s, 'a) state\<close>: from the state of the outside world to its result and the new
  state. \<open>do\<close> blocks follow the statements of the source line by line.
\<close>

named_theorems model_defs \<open>definitions of the operations, unfolded to run them\<close>
named_theorems frame \<open>what an operation leaves alone\<close>

section \<open>Reading and writing one field of the state\<close>

definition gets :: "('s \<Rightarrow> 'a) \<Rightarrow> ('s, 'a) state" where
  "gets f = State (\<lambda>s. (f s, s))"

definition modify :: "('s \<Rightarrow> 's) \<Rightarrow> ('s, unit) state" where
  "modify f = State (\<lambda>s. ((), f s))"

lemma run_state_gets [simp]: "run_state (gets f) s = (f s, s)"
  by (simp add: gets_def)

lemma run_state_modify [simp]: "run_state (modify f) s = ((), f s)"
  by (simp add: modify_def)

abbreviation return :: "'a \<Rightarrow> ('s, 'a) state" where
  "return \<equiv> State_Monad.return"

text \<open>The result and the final state of a run, for statements about a whole call.\<close>

abbreviation run_result :: "('s, 'a) state \<Rightarrow> 's \<Rightarrow> 'a" where
  "run_result m s \<equiv> fst (run_state m s)"

abbreviation run_final :: "('s, 'a) state \<Rightarrow> 's \<Rightarrow> 's" where
  "run_final m s \<equiv> snd (run_state m s)"

lemma run_state_if [simp]:
  "run_state (if b then m else n) s = (if b then run_state m s else run_state n s)"
  by simp

lemma run_state_split:
  "(\<And>r s'. run_state m s = (r, s') \<Longrightarrow> P r s') \<Longrightarrow> P (run_result m s) (run_final m s)"
  by (metis prod.collapse)

section \<open>Keeping a part of the state\<close>

text \<open>
  \<open>keeps f m\<close>: running \<open>m\<close> leaves the part \<open>f\<close> of the state as it was. The
  components prove it once per operation, and the rules below carry it through
  sequencing and branching.
\<close>

definition keeps :: "('s \<Rightarrow> 'v) \<Rightarrow> ('s, 'a) state \<Rightarrow> bool" where
  "keeps f m \<longleftrightarrow> (\<forall>s. f (run_final m s) = f s)"

lemma keepsI [intro?]: "(\<And>s. f (run_final m s) = f s) \<Longrightarrow> keeps f m"
  by (simp add: keeps_def)

lemma keepsD: "keeps f m \<Longrightarrow> f (run_final m s) = f s"
  by (simp add: keeps_def)

lemma keepsE: "keeps f m \<Longrightarrow> run_state m s = (r, s') \<Longrightarrow> f s' = f s"
  by (metis keeps_def snd_conv)

lemma keeps_return [frame, intro]: "keeps f (return x)"
  by (simp add: keeps_def)

lemma keeps_gets [frame, intro]: "keeps f (gets g)"
  by (simp add: keeps_def)

lemma keeps_bind [frame, intro]:
  "keeps f m \<Longrightarrow> (\<And>x. keeps f (k x)) \<Longrightarrow> keeps f (State_Monad.bind m k)"
  by (simp add: keeps_def split: prod.split) (metis snd_conv)

lemma keeps_if [frame, intro]:
  "(b \<Longrightarrow> keeps f m) \<Longrightarrow> (\<not> b \<Longrightarrow> keeps f n) \<Longrightarrow> keeps f (if b then m else n)"
  by simp

lemma keeps_case_bool [frame, intro]:
  "keeps f m \<Longrightarrow> keeps f n \<Longrightarrow> keeps f (case b of True \<Rightarrow> m | False \<Rightarrow> n)"
  by (cases b) simp_all

lemma keeps_case_option [frame, intro]:
  "keeps f m \<Longrightarrow> (\<And>x. keeps f (k x)) \<Longrightarrow> keeps f (case v of None \<Rightarrow> m | Some x \<Rightarrow> k x)"
  by (cases v) simp_all

lemma keeps_case_sum [frame, intro]:
  "(\<And>x. keeps f (h x)) \<Longrightarrow> (\<And>x. keeps f (k x)) \<Longrightarrow>
    keeps f (case v of Inl x \<Rightarrow> h x | Inr x \<Rightarrow> k x)"
  by (cases v) simp_all

lemma keeps_case_prod [frame, intro]:
  "(\<And>x y. keeps f (k x y)) \<Longrightarrow> keeps f (case p of (x, y) \<Rightarrow> k x y)"
  by (cases p) simp

section \<open>Lists\<close>

lemma take_drop_append_pages: "take k xs @ take m (drop k xs) = take (k + m) xs"
  by (simp add: take_add)

lemma distinct_map_filter_unique:
  assumes "distinct (map f xs)" "x \<in> set xs" "y \<in> set xs" "f x = f y"
  shows "x = y"
  using assms by (meson distinct_map inj_on_def)

text \<open>Two lists sorted by the same key with the same elements agree when no key is shared.\<close>

lemma sort_key_mset_unique:
  assumes "mset xs = mset ys" "inj_on k (set xs)"
  shows "sort_key k xs = sort_key k ys"
proof (rule map_inj_on)
  show "map k (sort_key k xs) = map k (sort_key k ys)"
  proof -
    have "mset (map k (sort_key k xs)) = mset (map k (sort_key k ys))"
      using assms(1) by simp
    moreover have "sorted (map k (sort_key k xs))" "sorted (map k (sort_key k ys))"
      by simp_all
    ultimately show ?thesis
      by (metis sorted_sort_id properties_for_sort)
  qed
  show "inj_on k (set (sort_key k xs) \<union> set (sort_key k ys))"
    using assms by (metis Un_absorb set_mset_mset set_sort)
qed

end
