(* ===== verification/Go_Base.thy ===== *)
theory Go_Base
  imports Prelude
begin

text \<open>
  What the program uses of the Go language and its standard library: 64-bit integers,
  byte strings, \<open>strconv.Atoi\<close> and \<open>%d\<close>, \<open>strings.ReplaceAll\<close> and
  \<open>utf8.RuneCountInString\<close>. A Go string is a list of bytes, and an Isabelle
  \<open>char\<close> is a byte, so strings are \<open>string\<close>.
\<close>

section \<open>Times, durations, identifiers\<close>

text \<open>
  \<open>time.Time\<close> is the number of nanoseconds since the epoch, \<open>time.Duration\<close> a
  number of nanoseconds, \<open>uuid.UUID\<close> sixteen bytes. The zero \<open>Time\<close> is the first instant
  of the year 1.
\<close>

type_synonym time = int
type_synonym duration = int
type_synonym uuid = "128 word"

definition zero_Time :: time where "zero_Time = - 62135596800000000000"

abbreviation time_Second :: duration where "time_Second \<equiv> 1000000000"

section \<open>64-bit integers\<close>

text \<open>Go's \<open>int\<close> wraps around at 64 bits.\<close>

definition wrap64 :: "int \<Rightarrow> int" where
  "wrap64 x = (x + 2 ^ 63) mod 2 ^ 64 - 2 ^ 63"

definition in_int64 :: "int \<Rightarrow> bool" where
  "in_int64 x \<longleftrightarrow> - (2 ^ 63) \<le> x \<and> x < 2 ^ 63"

lemma wrap64_in_int64: "in_int64 (wrap64 x)"
  by (simp add: wrap64_def in_int64_def)

lemma wrap64_id [simp]: "in_int64 x \<Longrightarrow> wrap64 x = x"
  by (simp add: wrap64_def in_int64_def)

lemma wrap64_nonneg: "0 \<le> x \<Longrightarrow> x < 9223372036854775808 \<Longrightarrow> wrap64 x = x"
  by (rule wrap64_id) (simp add: in_int64_def)

section \<open>Decimal numerals\<close>

definition digit_char :: "nat \<Rightarrow> char" where
  "digit_char d = char_of (48 + d)"

definition is_digit :: "char \<Rightarrow> bool" where
  "is_digit c \<longleftrightarrow> 48 \<le> (of_char c :: nat) \<and> (of_char c :: nat) \<le> 57"

fun nat_digits :: "nat \<Rightarrow> string" where
  "nat_digits n = (if n < 10 then [digit_char n] else nat_digits (n div 10) @ [digit_char (n mod 10)])"

declare nat_digits.simps [simp del]

text \<open>The verb \<open>%d\<close> of \<open>fmt\<close>.\<close>

definition itoa :: "int \<Rightarrow> string" where
  "itoa i = (if i < 0 then ''-'' @ nat_digits (nat (- i)) else nat_digits (nat i))"

fun digits_value :: "nat \<Rightarrow> string \<Rightarrow> nat" where
  "digits_value acc [] = acc"
| "digits_value acc (c # cs) = digits_value (acc * 10 + (of_char c - 48)) cs"

text \<open>
  \<open>strconv.Atoi\<close>: an optional sign, then at least one digit and nothing else, and the
  value in the range of \<open>int\<close>; \<open>None\<close> is its error.
\<close>

definition atoi_digits :: "bool \<Rightarrow> string \<Rightarrow> int option" where
  "atoi_digits neg ds =
     (if ds = [] \<or> \<not> list_all is_digit ds then None
      else let v = (if neg then - int (digits_value 0 ds) else int (digits_value 0 ds))
           in if in_int64 v then Some v else None)"

definition atoi :: "string \<Rightarrow> int option" where
  "atoi s =
     (case s of
        [] \<Rightarrow> None
      | c # cs \<Rightarrow>
          if c = CHR ''-'' then atoi_digits True cs
          else if c = CHR ''+'' then atoi_digits False cs
          else atoi_digits False s)"

lemma of_char_digit_char: "d < 10 \<Longrightarrow> of_char (digit_char d) = 48 + d"
  by (simp add: digit_char_def)

lemma is_digit_digit_char: "d < 10 \<Longrightarrow> is_digit (digit_char d)"
  by (simp add: is_digit_def of_char_digit_char)

lemma nat_digits_nonempty: "nat_digits n \<noteq> []"
  by (subst nat_digits.simps) simp

lemma nat_digits_all_digits: "list_all is_digit (nat_digits n)"
proof (induction n rule: nat_digits.induct)
  case (1 n)
  then show ?case
    by (subst nat_digits.simps) (simp add: is_digit_digit_char)
qed

lemma digits_value_append: "digits_value acc (xs @ ys) = digits_value (digits_value acc xs) ys"
  by (induction xs arbitrary: acc) simp_all

lemma digits_value_nat_digits: "digits_value 0 (nat_digits n) = n"
proof (induction n rule: nat_digits.induct)
  case (1 n)
  then show ?case
    by (subst nat_digits.simps) (simp add: digits_value_append of_char_digit_char)
qed

lemma nat_digits_inject: "nat_digits m = nat_digits n \<longleftrightarrow> m = n"
  by (metis digits_value_nat_digits)

lemma nat_digits_hd: "is_digit (hd (nat_digits n))"
  using nat_digits_all_digits [of n] nat_digits_nonempty [of n] by (cases "nat_digits n") simp_all

lemma sign_not_digit: "\<not> is_digit (CHR ''-'')" "\<not> is_digit (CHR ''+'')"
  by (simp_all add: is_digit_def)

lemma atoi_itoa: "in_int64 i \<Longrightarrow> atoi (itoa i) = Some i"
proof (cases "i < 0")
  case True
  then show "in_int64 i \<Longrightarrow> ?thesis"
    by (simp add: atoi_def itoa_def atoi_digits_def nat_digits_nonempty nat_digits_all_digits
        digits_value_nat_digits)
next
  case False
  obtain c cs where n: "nat_digits (nat i) = c # cs"
    by (meson neq_Nil_conv nat_digits_nonempty)
  with nat_digits_hd [of "nat i"] have "c \<noteq> CHR ''-''" "c \<noteq> CHR ''+''"
    using sign_not_digit by auto
  with False n show "in_int64 i \<Longrightarrow> ?thesis"
    using nat_digits_all_digits [of "nat i"] digits_value_nat_digits [of "nat i"]
    by (simp add: atoi_def itoa_def atoi_digits_def)
qed

section \<open>strings.ReplaceAll\<close>

text \<open>
  \<open>strings.ReplaceAll(s, old, new)\<close> for a non-empty \<open>old\<close>: the leftmost
  non-overlapping occurrences. (The program never calls it with an empty \<open>old\<close>.)
\<close>

function replace_all :: "string \<Rightarrow> string \<Rightarrow> string \<Rightarrow> string" where
  "replace_all old new [] = []"
| "replace_all old new (c # cs) =
     (if old \<noteq> [] \<and> prefix old (c # cs)
      then new @ replace_all old new (drop (length old) (c # cs))
      else c # replace_all old new cs)"
  by pat_completeness auto
termination
  by (relation "measure (\<lambda>(old, new, s). length s)") (auto simp: neq_Nil_conv)

declare replace_all.simps(2) [simp del]

lemma replace_all_match:
  "old \<noteq> [] \<Longrightarrow> replace_all old new (old @ s) = new @ replace_all old new s"
  by (cases old) (simp_all add: replace_all.simps(2))

text \<open>Text that does not hold the first character of the pattern is copied.\<close>

lemma replace_all_skip:
  assumes "p \<notin> set t"
  shows "replace_all (p # ps) new (t @ s) = t @ replace_all (p # ps) new s"
  using assms by (induction t) (simp_all add: replace_all.simps(2))

lemma replace_all_step:
  "\<not> prefix old (c # cs) \<Longrightarrow> replace_all old new (c # cs) = c # replace_all old new cs"
  by (simp add: replace_all.simps(2))

lemma replace_all_absent: "\<not> sublist old s \<Longrightarrow> replace_all old new s = s"
proof (induction s)
  case (Cons c cs)
  then have "\<not> prefix old (c # cs)" "\<not> sublist old cs"
    by (auto intro: prefix_imp_sublist simp: sublist_Cons_right)
  with Cons.IH show ?case by (simp add: replace_all_step)
qed simp

end
