(* ===== verification/Go_Utf8.thy ===== *)
theory Go_Utf8
  imports Go_Base
begin

text \<open>
  \<open>unicode/utf8\<close>: how many bytes the first character of a string takes and
  \<open>RuneCountInString\<close>. A byte that starts no valid encoding counts as one rune.
  \<open>utf8_encode\<close> is the reference: the encoding of a code point by the UTF-8 standard.
\<close>

abbreviation byte :: "char \<Rightarrow> nat" where "byte \<equiv> of_char"

definition cont_byte :: "char \<Rightarrow> bool" where
  "cont_byte c \<longleftrightarrow> 128 \<le> byte c \<and> byte c \<le> 191"

definition in_range :: "nat \<Rightarrow> nat \<Rightarrow> char \<Rightarrow> bool" where
  "in_range lo hi c \<longleftrightarrow> lo \<le> byte c \<and> byte c \<le> hi"

text \<open>
  The number of bytes of the first rune of \<open>c # cs\<close>: the lead byte gives the length
  and the range of the second byte, the bytes after it lie in 80..BF.
\<close>

definition rune_size :: "char \<Rightarrow> string \<Rightarrow> nat" where
  "rune_size c cs =
     (let b = byte c;
          second = (\<lambda>lo hi. case cs of x # _ \<Rightarrow> in_range lo hi x | [] \<Rightarrow> False);
          third = (case cs of _ # y # _ \<Rightarrow> cont_byte y | _ \<Rightarrow> False);
          fourth = (case cs of _ # _ # z # _ \<Rightarrow> cont_byte z | _ \<Rightarrow> False)
      in if b < 128 then 1
         else if 194 \<le> b \<and> b \<le> 223 then (if second 128 191 then 2 else 1)
         else if b = 224 then (if second 160 191 \<and> third then 3 else 1)
         else if b = 237 then (if second 128 159 \<and> third then 3 else 1)
         else if 225 \<le> b \<and> b \<le> 239 then (if second 128 191 \<and> third then 3 else 1)
         else if b = 240 then (if second 144 191 \<and> third \<and> fourth then 4 else 1)
         else if 241 \<le> b \<and> b \<le> 243 then (if second 128 191 \<and> third \<and> fourth then 4 else 1)
         else if b = 244 then (if second 128 143 \<and> third \<and> fourth then 4 else 1)
         else 1)"

lemma rune_size_pos: "1 \<le> rune_size c cs"
  by (simp add: rune_size_def Let_def)

function rune_count :: "string \<Rightarrow> nat" where
  "rune_count [] = 0"
| "rune_count (c # cs) = Suc (rune_count (drop (rune_size c cs - 1) cs))"
  by pat_completeness auto
termination
  by (relation "measure length") auto

lemma rune_count_le_length: "rune_count s \<le> length s"
proof (induction s rule: rune_count.induct)
  case (2 c cs)
  have "rune_count (drop (rune_size c cs - 1) cs) \<le> length cs"
    using "2.IH" by simp
  then show ?case by simp
qed simp

lemma rune_count_eq_0: "rune_count s = 0 \<longleftrightarrow> s = []"
  by (cases s) simp_all

lemma rune_size_ascii: "byte c < 128 \<Longrightarrow> rune_size c cs = 1"
  by (simp add: rune_size_def)

lemma rune_count_ascii: "list_all (\<lambda>c. byte c < 128) s \<Longrightarrow> rune_count s = length s"
  by (induction s) (simp_all add: rune_size_ascii)

section \<open>The standard's encoding\<close>

definition code_point :: "nat \<Rightarrow> bool" where
  "code_point p \<longleftrightarrow> p < 55296 \<or> 57344 \<le> p \<and> p \<le> 1114111"

definition utf8_encode :: "nat \<Rightarrow> string" where
  "utf8_encode p =
     (if p < 128 then [char_of p]
      else if p < 2048 then [char_of (192 + p div 64), char_of (128 + p mod 64)]
      else if p < 65536 then
        [char_of (224 + p div 4096), char_of (128 + p div 64 mod 64), char_of (128 + p mod 64)]
      else
        [char_of (240 + p div 262144), char_of (128 + p div 4096 mod 64),
         char_of (128 + p div 64 mod 64), char_of (128 + p mod 64)])"

lemma byte_char_of: "n < 256 \<Longrightarrow> byte (char_of n) = n"
  by simp

lemma byte_cont: "byte (char_of (128 + n mod 64)) = 128 + n mod 64" for n :: nat
proof -
  have "n mod 64 < (64::nat)" by simp
  then have "128 + n mod 64 < 256" by linarith
  then show ?thesis by (rule byte_char_of)
qed

lemma cont_byte_char_of: "cont_byte (char_of (128 + n mod 64))" for n :: nat
proof -
  have "n mod 64 < (64::nat)" by simp
  then have "128 + n mod 64 \<le> 191" by linarith
  then show ?thesis by (simp add: cont_byte_def byte_cont)
qed

text \<open>The digits of a code point in base 64, as linear facts.\<close>

lemma split_4096: "p = 4096 * (p div 4096) + 64 * (p div 64 mod 64) + p mod 64" for p :: nat
proof -
  have "p mod 4096 = 64 * (p div 64 mod 64) + p mod 64"
    using mod_mult2_eq [of p 64 64] by simp
  then show ?thesis using div_mult_mod_eq [of p 4096] by simp
qed

lemma split_262144:
  "p = 262144 * (p div 262144) + 4096 * (p div 4096 mod 64) + p mod 4096" for p :: nat
proof -
  have "p mod 262144 = 4096 * (p div 4096 mod 64) + p mod 4096"
    using mod_mult2_eq [of p 4096 64] by simp
  then show ?thesis using div_mult_mod_eq [of p 262144] by simp
qed

text \<open>
  \<open>RuneCountInString\<close> counts characters: every code point of valid UTF-8 counts once.
\<close>

lemma rune_size_encode:
  assumes "code_point p" "utf8_encode p = c # cs"
  shows "rune_size c (cs @ s) = Suc (length cs)"
proof -
  consider "p < 128" | "128 \<le> p" "p < 2048" | "2048 \<le> p" "p < 65536" | "65536 \<le> p"
    by linarith
  then show ?thesis
  proof cases
    case 1
    with assms(2) show ?thesis by (auto simp: utf8_encode_def rune_size_def)
  next
    case 2
    then have *: "2 \<le> p div 64" "p div 64 < 32" "p mod 64 < 64" by auto
    then have b: "byte c = 192 + p div 64" using 2 assms(2) by (auto simp: utf8_encode_def)
    have cs: "cs = [char_of (128 + p mod 64)]" using 2 assms(2) by (auto simp: utf8_encode_def)
    show ?thesis
      using * by (simp add: rune_size_def Let_def b cs in_range_def byte_cont)
  next
    case 3
    have *: "p div 4096 < 16" "p div 64 mod 64 < 64" "p mod 64 < 64" using 3 by simp_all
    have "p mod 64 < 64" by simp
    then have lo: "p div 4096 = 0 \<Longrightarrow> 32 \<le> p div 64 mod 64"
      using 3 split_4096 [of p] by linarith
    have hi: "p div 4096 = 13 \<Longrightarrow> p div 64 mod 64 < 32"
      using 3 assms(1) split_4096 [of p] * unfolding code_point_def by linarith
    have b: "byte c = 224 + p div 4096" using 3 assms(2) * by (auto simp: utf8_encode_def)
    have cs: "cs = [char_of (128 + p div 64 mod 64), char_of (128 + p mod 64)]"
      using 3 assms(2) by (auto simp: utf8_encode_def)
    show ?thesis
      using * lo hi
      by (auto simp: rune_size_def Let_def b cs in_range_def byte_cont cont_byte_char_of)
  next
    case 4
    have *: "p div 262144 \<le> 4" "p div 4096 mod 64 < 64" using 4 assms(1)
      unfolding code_point_def by linarith simp
    have "p mod 4096 < 4096" by simp
    then have lo: "p div 262144 = 0 \<Longrightarrow> 16 \<le> p div 4096 mod 64"
      using 4 split_262144 [of p] by linarith
    have hi: "p div 262144 = 4 \<Longrightarrow> p div 4096 mod 64 < 16"
      using 4 assms(1) split_262144 [of p] unfolding code_point_def by linarith
    have b: "byte c = 240 + p div 262144" using 4 assms(2) * by (auto simp: utf8_encode_def)
    have cs: "cs = [char_of (128 + p div 4096 mod 64), char_of (128 + p div 64 mod 64),
        char_of (128 + p mod 64)]"
      using 4 assms(2) by (auto simp: utf8_encode_def)
    show ?thesis
      using * lo hi
      by (cases "p div 262144 = 4")
        (auto simp: rune_size_def Let_def b cs in_range_def byte_cont cont_byte_char_of)
  qed
qed

lemma utf8_encode_nonempty: "utf8_encode p \<noteq> []"
  by (simp add: utf8_encode_def)

lemma rune_count_encode:
  assumes "code_point p"
  shows "rune_count (utf8_encode p @ s) = Suc (rune_count s)"
proof -
  obtain c cs where e: "utf8_encode p = c # cs"
    by (meson neq_Nil_conv utf8_encode_nonempty)
  then have "rune_size c (cs @ s) = Suc (length cs)"
    using assms by (rule rune_size_encode [rotated])
  then show ?thesis by (simp add: e)
qed

lemma rune_count_utf8:
  "list_all code_point ps \<Longrightarrow> rune_count (concat (map utf8_encode ps)) = length ps"
  by (induction ps) (simp_all add: rune_count_encode)

end
