(* ===== verification/Model_Notification.thy ===== *)
theory Model_Notification
  imports Go_Utf8
begin

text \<open>
  \<open>internal/model/notification.go\<close>: channels, statuses and priorities, which are Go
  strings with named constants, and the \<open>Notification\<close> entity. A pointer field of
  the struct is an \<open>option\<close>.
\<close>

section \<open>Channels, statuses, priorities\<close>

type_synonym channel = string
type_synonym status = string
type_synonym priority = string

definition ChannelSMS :: channel where "ChannelSMS = ''sms''"
definition ChannelEmail :: channel where "ChannelEmail = ''email''"
definition ChannelPush :: channel where "ChannelPush = ''push''"

definition StatusPending :: status where "StatusPending = ''pending''"
definition StatusQueued :: status where "StatusQueued = ''queued''"
definition StatusSending :: status where "StatusSending = ''sending''"
definition StatusSent :: status where "StatusSent = ''sent''"
definition StatusFailed :: status where "StatusFailed = ''failed''"
definition StatusCancelled :: status where "StatusCancelled = ''cancelled''"

definition PriorityHigh :: priority where "PriorityHigh = ''high''"
definition PriorityNormal :: priority where "PriorityNormal = ''normal''"
definition PriorityLow :: priority where "PriorityLow = ''low''"

lemmas channel_defs = ChannelSMS_def ChannelEmail_def ChannelPush_def
lemmas status_defs = StatusPending_def StatusQueued_def StatusSending_def StatusSent_def
  StatusFailed_def StatusCancelled_def
lemmas priority_defs = PriorityHigh_def PriorityNormal_def PriorityLow_def

lemma channels_distinct [simp]:
  "ChannelSMS \<noteq> ChannelEmail" "ChannelSMS \<noteq> ChannelPush" "ChannelEmail \<noteq> ChannelPush"
  "ChannelEmail \<noteq> ChannelSMS" "ChannelPush \<noteq> ChannelSMS" "ChannelPush \<noteq> ChannelEmail"
  by (simp_all add: channel_defs)

lemma status_neq [simp]:
  "StatusPending \<noteq> StatusQueued" "StatusPending \<noteq> StatusSending" "StatusPending \<noteq> StatusSent"
  "StatusPending \<noteq> StatusFailed" "StatusPending \<noteq> StatusCancelled" "StatusQueued \<noteq> StatusPending"
  "StatusQueued \<noteq> StatusSending" "StatusQueued \<noteq> StatusSent" "StatusQueued \<noteq> StatusFailed"
  "StatusQueued \<noteq> StatusCancelled" "StatusSending \<noteq> StatusPending" "StatusSending \<noteq> StatusQueued"
  "StatusSending \<noteq> StatusSent" "StatusSending \<noteq> StatusFailed" "StatusSending \<noteq> StatusCancelled"
  "StatusSent \<noteq> StatusPending" "StatusSent \<noteq> StatusQueued" "StatusSent \<noteq> StatusSending"
  "StatusSent \<noteq> StatusFailed" "StatusSent \<noteq> StatusCancelled" "StatusFailed \<noteq> StatusPending"
  "StatusFailed \<noteq> StatusQueued" "StatusFailed \<noteq> StatusSending" "StatusFailed \<noteq> StatusSent"
  "StatusFailed \<noteq> StatusCancelled" "StatusCancelled \<noteq> StatusPending" "StatusCancelled \<noteq> StatusQueued"
  "StatusCancelled \<noteq> StatusSending" "StatusCancelled \<noteq> StatusSent" "StatusCancelled \<noteq> StatusFailed"
  by (simp_all add: status_defs)

definition Priority_Int :: "priority \<Rightarrow> int" where
  "Priority_Int p =
     (if p = PriorityHigh then 3
      else if p = PriorityNormal then 2
      else if p = PriorityLow then 1
      else 2)"

lemma Priority_Int_range: "1 \<le> Priority_Int p" "Priority_Int p \<le> 3"
  by (simp_all add: Priority_Int_def)

section \<open>The entity\<close>

record notification =
  n_ID :: uuid
  n_BatchID :: "uuid option"
  n_IdempotencyKey :: "string option"
  n_Recipient :: string
  n_Channel :: channel
  n_Content :: string
  n_Subject :: "string option"
  n_Priority :: priority
  n_Status :: status
  n_ProviderMsgID :: "string option"
  n_RetryCount :: int
  n_MaxRetries :: int
  n_LastError :: "string option"
  n_ScheduledAt :: "time option"
  n_SentAt :: "time option"
  n_CreatedAt :: time
  n_UpdatedAt :: time

text \<open>A Go struct literal leaves the fields it does not name at their zero values.\<close>

definition zero_notification :: notification where
  "zero_notification =
     \<lparr>n_ID = 0, n_BatchID = None, n_IdempotencyKey = None, n_Recipient = [], n_Channel = [],
      n_Content = [], n_Subject = None, n_Priority = [], n_Status = [], n_ProviderMsgID = None,
      n_RetryCount = 0, n_MaxRetries = 0, n_LastError = None, n_ScheduledAt = None,
      n_SentAt = None, n_CreatedAt = zero_Time, n_UpdatedAt = zero_Time\<rparr>"

end
