(* ===== verification/Go_Time.thy ===== *)
theory Go_Time
  imports Go_Base
begin

text \<open>
  Package \<open>time\<close> of the standard library, as far as the program uses it: the calendar,
  \<open>Format\<close> with the layouts \<open>RFC3339\<close> and \<open>RFC3339Nano\<close>, and \<open>Parse\<close> with \<open>RFC3339\<close>. A time is
  its number of nanoseconds; the offset of its location, in seconds east of Greenwich, is an
  argument of \<open>Format\<close>.
\<close>

section \<open>The calendar\<close>

definition leap_year :: "int \<Rightarrow> bool" where
  "leap_year y \<longleftrightarrow> y mod 4 = 0 \<and> (y mod 100 \<noteq> 0 \<or> y mod 400 = 0)"

definition month_lengths :: "int \<Rightarrow> int list" where
  "month_lengths y = [31, if leap_year y then 29 else 28, 31, 30, 31, 30, 31, 31, 30, 31, 30, 31]"

text \<open>Days from the first day of the year 1 to the first day of a year.\<close>

definition days_before_year :: "int \<Rightarrow> int" where
  "days_before_year y = 365 * (y - 1) + (y - 1) div 4 - (y - 1) div 100 + (y - 1) div 400"

definition days_of_date :: "int \<Rightarrow> int \<Rightarrow> int \<Rightarrow> int" where
  "days_of_date y m d = days_before_year y + sum_list (take (nat (m - 1)) (month_lengths y)) + d - 1"

text \<open>The year of a day and the day within the year, by cycles of 400, 100 and 4 years.\<close>

definition year_of_days :: "int \<Rightarrow> int \<times> int" where
  "year_of_days n =
     (let q = n div 146097; r = n mod 146097;
          a = min 3 (r div 36524); r1 = r - 36524 * a;
          b = r1 div 1461; r2 = r1 mod 1461;
          c = min 3 (r2 div 365)
      in (400 * q + 100 * a + 4 * b + c + 1, r2 - 365 * c))"

fun month_day :: "int list \<Rightarrow> int \<Rightarrow> int \<Rightarrow> int \<times> int" where
  "month_day [] m n = (m, n + 1)"
| "month_day (l # ls) m n = (if n < l then (m, n + 1) else month_day ls (m + 1) (n - l))"

definition date_of_days :: "int \<Rightarrow> int \<times> int \<times> int" where
  "date_of_days n = (let (y, k) = year_of_days n; (m, d) = month_day (month_lengths y) 1 k in (y, m, d))"

text \<open>The days from the year 1 to 1970.\<close>

definition unix_days :: int where "unix_days = 719162"

record civil =
  cv_Year :: int
  cv_Month :: int
  cv_Day :: int
  cv_Hour :: int
  cv_Minute :: int
  cv_Second :: int
  cv_Nanosecond :: int

definition civil_of :: "int \<Rightarrow> time \<Rightarrow> civil" where
  "civil_of zone t =
     (let s = t div time_Second + zone; (y, m, d) = date_of_days (s div 86400 + unix_days); r = s mod 86400
      in \<lparr>cv_Year = y, cv_Month = m, cv_Day = d, cv_Hour = r div 3600, cv_Minute = r div 60 mod 60,
          cv_Second = r mod 60, cv_Nanosecond = t mod time_Second\<rparr>)"

definition time_Date :: "civil \<Rightarrow> time" where
  "time_Date c =
     (((days_of_date (cv_Year c) (cv_Month c) (cv_Day c) - unix_days) * 86400 +
       cv_Hour c * 3600 + cv_Minute c * 60 + cv_Second c) * time_Second + cv_Nanosecond c)"

lemma month_lengths_sum: "sum_list (month_lengths y) = (if leap_year y then 366 else 365)"
  by (simp add: month_lengths_def)

lemma year_of_days:
  assumes "year_of_days n = (y, k)"
  shows "days_before_year y + k = n \<and> 0 \<le> k \<and> k < (if leap_year y then 366 else 365)"
proof -
  define q r a r1 b r2 c where defs: "q = n div 146097" "r = n mod 146097" "a = min 3 (r div 36524)"
    "r1 = r - 36524 * a" "b = r1 div 1461" "r2 = r1 mod 1461" "c = min 3 (r2 div 365)"
  have n: "n = 146097 * q + r" "0 \<le> r" "r < 146097" by (simp_all add: defs)
  have a: "0 \<le> a" "a \<le> 3" "0 \<le> r1" "r1 \<le> 36524" "a < 3 \<Longrightarrow> r1 < 36524"
    using n(2,3) by (auto simp: defs(3,4) min_def)
  have b: "r1 = 1461 * b + r2" "0 \<le> r2" "r2 < 1461" "0 \<le> b" "b \<le> 24" "b = 24 \<Longrightarrow> r2 \<le> 1460"
    using a by (auto simp: defs(5,6))
  have c: "0 \<le> c" "c \<le> 3" "0 \<le> r2 - 365 * c" "r2 - 365 * c \<le> 365" "c < 3 \<Longrightarrow> r2 - 365 * c < 365"
    using b(2,3) by (auto simp: defs(7) min_def)
  have "year_of_days n = (400 * q + 100 * a + 4 * b + c + 1, r2 - 365 * c)"
    unfolding year_of_days_def Let_def defs ..
  with assms have y: "y = 400 * q + 100 * a + 4 * b + c + 1" "k = r2 - 365 * c" by (simp_all only: prod.inject)
  let ?z = "400 * q + 100 * a + 4 * b + c"
  have divs: "?z div 4 = 100 * q + 25 * a + b" "?z div 100 = 4 * q + a" "?z div 400 = q"
    using a b c by auto
  have "days_before_year y = 365 * ?z + (100 * q + 25 * a + b) - (4 * q + a) + q"
    unfolding y(1) days_before_year_def using divs by simp
  then have "days_before_year y + k = n" using n b y(2) defs(4) by simp
  moreover have "k < (if leap_year y then 366 else 365)"
  proof (cases "c = 3")
    case True
    have "b = 24 \<Longrightarrow> a \<noteq> 3 \<Longrightarrow> r2 < 1460" using a b by simp
    moreover have "y = 4 * (100 * q + 25 * a + b + 1)" using True y(1) by simp
    then have "y mod 4 = 0" by simp
    moreover have "y mod 100 = 0 \<Longrightarrow> b = 24"
    proof -
      assume "y mod 100 = 0"
      moreover have "y = 4 * b + 4 + 100 * (4 * q + a)" using True y(1) by simp
      ultimately have "(4 * b + 4) mod 100 = 0" by (simp only: mod_mult_self2)
      with b(4,5) show ?thesis by presburger
    qed
    moreover have "y mod 400 = 0" if "a = 3" "b = 24"
    proof -
      have "y = 400 * (q + 1)" using True y(1) that by simp
      then show ?thesis by simp
    qed
    ultimately have "b \<noteq> 24 \<or> a = 3 \<Longrightarrow> leap_year y" "b = 24 \<Longrightarrow> a \<noteq> 3 \<Longrightarrow> r2 < 1460"
      by (auto simp: leap_year_def)
    moreover have "r2 < 1460 \<Longrightarrow> k < 365" using True y(2) by simp
    ultimately show ?thesis using c(4) y(2) by (cases "b \<noteq> 24 \<or> a = 3") auto
  next
    case False
    with c y(2) show ?thesis by auto
  qed
  ultimately show ?thesis using c y(2) by simp
qed

lemma month_day:
  assumes "0 \<le> k" "k < sum_list ls" "\<forall>l \<in> set ls. 0 \<le> l" "month_day ls m k = (m', d)"
  shows "\<exists>i < length ls. m' = m + int i \<and> 1 \<le> d \<and> d \<le> ls ! i \<and> k = sum_list (take i ls) + d - 1"
  using assms
proof (induction ls arbitrary: m k)
  case (Cons l ls)
  show ?case
  proof (cases "k < l")
    case True
    with Cons.prems show ?thesis by (intro exI [of _ 0]) auto
  next
    case False
    then obtain i where "i < length ls" "m' = m + 1 + int i" "1 \<le> d" "d \<le> ls ! i" "k - l = sum_list (take i ls) + d - 1"
      using Cons.IH [of "k - l" "m + 1"] Cons.prems by auto
    then show ?thesis by (intro exI [of _ "Suc i"]) auto
  qed
qed simp

lemma date_of_days:
  assumes "date_of_days n = (y, m, d)"
  shows "days_of_date y m d = n \<and> 1 \<le> m \<and> m \<le> 12 \<and> 1 \<le> d \<and> d \<le> month_lengths y ! nat (m - 1)"
proof -
  obtain k where y: "year_of_days n = (y, k)" and md: "month_day (month_lengths y) 1 k = (m, d)"
    using assms by (auto simp: date_of_days_def split: prod.splits)
  note yk = year_of_days [OF y]
  have len: "length (month_lengths y) = 12" by (simp add: month_lengths_def)
  have "\<forall>l \<in> set (month_lengths y). 0 \<le> l" by (simp add: month_lengths_def)
  moreover have "0 \<le> k" "k < sum_list (month_lengths y)" using yk by (simp_all add: month_lengths_sum)
  ultimately obtain i where "i < 12" "m = 1 + int i" "1 \<le> d" "d \<le> month_lengths y ! i"
    "k = sum_list (take i (month_lengths y)) + d - 1"
    using month_day [OF _ _ _ md] unfolding len by blast
  with yk show ?thesis by (simp add: days_of_date_def)
qed

lemma seconds_split: "r div 3600 * 3600 + r div 60 mod 60 * 60 + r mod 60 = r" for r :: int
proof -
  have split: "a = u * 60 + c \<Longrightarrow> u = h * 60 + m \<Longrightarrow> h * 3600 + m * 60 + c = a" for a u c h m :: int
    by simp
  show ?thesis
    by (rule split [where u = "r div 60"]) (simp_all add: zdiv_zmult2_eq [of 60 r 60, simplified])
qed

text \<open>The calendar is a bijection: a time is the date that \<open>Date\<close> makes of its own civil reading.\<close>

lemma Date_civil: "time_Date (civil_of zone t) = t + zone * time_Second"
proof -
  let ?s = "t div time_Second + zone"
  obtain y m d where ymd: "date_of_days (?s div 86400 + unix_days) = (y, m, d)" by (metis prod_cases3)
  have days: "days_of_date y m d = ?s div 86400 + unix_days" using date_of_days [OF ymd] by simp
  have "(?s div 86400) * 86400 + (?s mod 86400 div 3600 * 3600 + ?s mod 86400 div 60 mod 60 * 60 +
      ?s mod 86400 mod 60) = ?s"
    by (simp only: seconds_split div_mult_mod_eq)
  then have "time_Date (civil_of zone t) = ?s * time_Second + t mod time_Second"
    unfolding time_Date_def civil_of_def Let_def ymd prod.case civil.select_convs days add.assoc
      add_diff_cancel_right' by (simp only: add.assoc)
  then show ?thesis by (simp add: algebra_simps)
qed

section \<open>Format\<close>

text \<open>A number with at least \<open>w\<close> digits.\<close>

definition pad_nat :: "nat \<Rightarrow> nat \<Rightarrow> string" where
  "pad_nat w n = replicate (w - length (nat_digits n)) CHR ''0'' @ nat_digits n"

definition pad_int :: "nat \<Rightarrow> int \<Rightarrow> string" where
  "pad_int w x = (if x < 0 then CHR ''-'' # pad_nat w (nat (- x)) else pad_nat w (nat x))"

definition zone_text :: "int \<Rightarrow> string" where
  "zone_text zone =
     (if zone = 0 then ''Z''
      else let m = \<bar>zone\<bar> div 60
           in (if zone < 0 \<and> 0 < m then ''-'' else ''+'') @ pad_int 2 (m div 60) @ '':'' @ pad_int 2 (m mod 60))"

definition seconds_text :: "civil \<Rightarrow> string" where
  "seconds_text c = pad_int 4 (cv_Year c) @ ''-'' @ pad_int 2 (cv_Month c) @ ''-'' @ pad_int 2 (cv_Day c) @ ''T'' @
     pad_int 2 (cv_Hour c) @ '':'' @ pad_int 2 (cv_Minute c) @ '':'' @ pad_int 2 (cv_Second c)"

text \<open>The fraction of a second without its trailing zeros, nothing at all when it is zero.\<close>

definition nano_text :: "int \<Rightarrow> string" where
  "nano_text ns =
     (if ns = 0 then [] else CHR ''.'' # rev (dropWhile (\<lambda>c. c = CHR ''0'') (rev (pad_nat 9 (nat ns)))))"

definition Format_RFC3339 :: "int \<Rightarrow> time \<Rightarrow> string" where
  "Format_RFC3339 zone t = seconds_text (civil_of zone t) @ zone_text zone"

definition Format_RFC3339Nano :: "int \<Rightarrow> time \<Rightarrow> string" where
  "Format_RFC3339Nano zone t =
     (let c = civil_of zone t in seconds_text c @ nano_text (cv_Nanosecond c) @ zone_text zone)"

section \<open>Parse\<close>

type_synonym 'a reader = "string \<Rightarrow> ('a \<times> string) option"

fun expect :: "char \<Rightarrow> unit reader" where
  "expect c [] = None"
| "expect c (x # xs) = (if x = c then Some ((), xs) else None)"

text \<open>Exactly \<open>n\<close> digits.\<close>

definition read_digits :: "nat \<Rightarrow> int reader" where
  "read_digits n s =
     (if n \<le> length s \<and> list_all is_digit (take n s) then Some (int (digits_value 0 (take n s)), drop n s)
      else None)"

text \<open>The hour may have one digit (the layout's \<open>15\<close> is not of fixed width).\<close>

definition read_hour :: "int reader" where
  "read_hour s = (case read_digits 2 s of Some r \<Rightarrow> Some r | None \<Rightarrow> read_digits 1 s)"

text \<open>A fraction after the seconds, with a period or a comma, is read although the layout has
  none: at most nine digits count.\<close>

definition read_fraction :: "int reader" where
  "read_fraction s =
     (case s of
        p # d # rest \<Rightarrow>
          if (p = CHR ''.'' \<or> p = CHR '','') \<and> is_digit d
          then let ds = takeWhile is_digit (d # rest); k = take 9 ds
               in Some (int (digits_value 0 k) * 10 ^ (9 - length k), dropWhile is_digit (d # rest))
          else Some (0, s)
      | _ \<Rightarrow> Some (0, s))"

text \<open>The range of an offset is checked with 24 hours and 60 minutes included.\<close>

definition read_zone :: "int reader" where
  "read_zone s =
     (case s of
        [] \<Rightarrow> None
      | c # s1 \<Rightarrow>
          if c = CHR ''Z'' then Some (0, s1)
          else if c = CHR ''+'' \<or> c = CHR ''-'' then do {
            (h, s2) \<leftarrow> read_digits 2 s1;
            (_, s3) \<leftarrow> expect CHR '':'' s2;
            (m, s4) \<leftarrow> read_digits 2 s3;
            if h > 24 \<or> m > 60 then None
            else Some (if c = CHR ''-'' then - (h * 3600 + m * 60) else h * 3600 + m * 60, s4)
          }
          else None)"

definition read_civil :: "civil reader" where
  "read_civil s0 = do {
     (y, s1) \<leftarrow> read_digits 4 s0;
     (_, s2) \<leftarrow> expect CHR ''-'' s1;
     (mo, s3) \<leftarrow> read_digits 2 s2;
     (_, s4) \<leftarrow> expect CHR ''-'' s3;
     (d, s5) \<leftarrow> read_digits 2 s4;
     (_, s6) \<leftarrow> expect CHR ''T'' s5;
     (h, s7) \<leftarrow> read_hour s6;
     (_, s8) \<leftarrow> expect CHR '':'' s7;
     (mi, s9) \<leftarrow> read_digits 2 s8;
     (_, s10) \<leftarrow> expect CHR '':'' s9;
     (se, s11) \<leftarrow> read_digits 2 s10;
     (ns, s12) \<leftarrow> read_fraction s11;
     if 1 \<le> mo \<and> mo \<le> 12 \<and> 1 \<le> d \<and> d \<le> month_lengths y ! nat (mo - 1) \<and> h < 24 \<and> mi < 60 \<and> se < 60
     then Some (\<lparr>cv_Year = y, cv_Month = mo, cv_Day = d, cv_Hour = h, cv_Minute = mi, cv_Second = se,
       cv_Nanosecond = ns\<rparr>, s12)
     else None
   }"

definition Parse_RFC3339 :: "string \<Rightarrow> time option" where
  "Parse_RFC3339 s = do {
     (c, s1) \<leftarrow> read_civil s;
     (zone, s2) \<leftarrow> read_zone s1;
     if s2 = [] then Some (time_Date c - zone * time_Second) else None
   }"

section \<open>Reading back what was written\<close>

lemma digits_value_zeros: "digits_value 0 (replicate k CHR ''0'' @ ds) = digits_value 0 ds"
  by (induction k) simp_all

lemma pad_nat_value: "digits_value 0 (pad_nat w n) = n"
  by (simp add: pad_nat_def digits_value_zeros digits_value_nat_digits)

lemma pad_nat_digits: "list_all is_digit (pad_nat w n)"
  using nat_digits_all_digits [of n] by (auto simp: pad_nat_def list_all_iff is_digit_def)

lemma nat_digits_length: "n < 10 ^ k \<Longrightarrow> 0 < k \<Longrightarrow> length (nat_digits n) \<le> k"
proof (induction k arbitrary: n)
  case (Suc k)
  show ?case
  proof (cases "n < 10")
    case True
    then show ?thesis by (subst nat_digits.simps) simp
  next
    case False
    with Suc.prems have "n div 10 < 10 ^ k" "0 < k" by (auto, cases k) auto
    with Suc.IH [of "n div 10"] False show ?thesis by (subst nat_digits.simps) simp
  qed
qed simp

lemma pad_nat_length: "n < 10 ^ w \<Longrightarrow> 0 < w \<Longrightarrow> length (pad_nat w n) = w"
  using nat_digits_length [of n w] by (simp add: pad_nat_def)

lemma read_digits_pad:
  assumes "0 \<le> x" "x < 10 ^ w" "0 < w"
  shows "read_digits w (pad_int w x @ s) = Some (x, s)"
proof -
  have "nat x < 10 ^ w" using assms by (metis nat_less_iff of_nat_numeral of_nat_power)
  then have "length (pad_nat w (nat x)) = w" using assms(3) by (rule pad_nat_length)
  then show ?thesis
    using assms(1) pad_nat_digits [of w "nat x"] pad_nat_value [of w "nat x"]
    by (simp add: read_digits_def pad_int_def)
qed

lemma read_hour_pad: "0 \<le> x \<Longrightarrow> x < 100 \<Longrightarrow> read_hour (pad_int 2 x @ s) = Some (x, s)"
  using read_digits_pad [of x 2 s] by (simp add: read_hour_def)

text \<open>What follows the seconds starts with neither a digit nor the sign of a fraction.\<close>

definition after_seconds :: "string \<Rightarrow> bool" where
  "after_seconds z \<longleftrightarrow> (\<exists>c cs. z = c # cs \<and> \<not> is_digit c \<and> c \<noteq> CHR ''.'' \<and> c \<noteq> CHR '','')"

lemma zone_after_seconds: "after_seconds (zone_text zone @ s)"
  by (simp add: zone_text_def after_seconds_def Let_def is_digit_def)

lemma read_fraction_none: "after_seconds z \<Longrightarrow> read_fraction z = Some (0, z)"
  by (auto simp: after_seconds_def read_fraction_def split: list.split)

lemma trimmed_zeros: "\<exists>k. s = rev (dropWhile (\<lambda>c. c = CHR ''0'') (rev s)) @ replicate k CHR ''0''"
proof -
  let ?z = "takeWhile (\<lambda>c. c = CHR ''0'') (rev s)"
  have "\<forall>y \<in> set ?z. y = CHR ''0''" by (auto dest: set_takeWhileD)
  then have "?z = replicate (length ?z) CHR ''0''" by (simp add: replicate_length_same)
  moreover have "s = rev (?z @ dropWhile (\<lambda>c. c = CHR ''0'') (rev s))" by simp
  then have "s = rev (dropWhile (\<lambda>c. c = CHR ''0'') (rev s)) @ rev ?z" by (simp only: rev_append)
  ultimately show ?thesis by (metis rev_replicate)
qed

lemma digits_value_trailing: "digits_value a (ds @ replicate k CHR ''0'') = digits_value a ds * 10 ^ k"
proof -
  have "digits_value n (replicate k CHR ''0'') = n * 10 ^ k" for n
    by (induction k arbitrary: n) simp_all
  then show ?thesis by (simp add: digits_value_append)
qed

lemma while_append:
  "list_all P ds \<Longrightarrow> \<not> P c \<Longrightarrow> takeWhile P (ds @ c # cs) = ds \<and> dropWhile P (ds @ c # cs) = c # cs"
  by (induction ds) auto

lemma read_fraction_nano:
  assumes "0 \<le> ns" "ns < time_Second" "after_seconds z"
  shows "read_fraction (nano_text ns @ z) = Some (ns, z)"
proof (cases "ns = 0")
  case True
  with assms(3) show ?thesis by (simp add: nano_text_def read_fraction_none)
next
  case False
  let ?p = "pad_nat 9 (nat ns)" and ?ds = "rev (dropWhile (\<lambda>c. c = CHR ''0'') (rev (pad_nat 9 (nat ns))))"
  obtain k where k: "?p = ?ds @ replicate k CHR ''0''" using trimmed_zeros by blast
  have len: "length ?p = 9" using assms(2) by (intro pad_nat_length) simp_all
  have v: "digits_value 0 ?ds * 10 ^ k = nat ns"
    using digits_value_trailing [of 0 ?ds k] pad_nat_value [of 9 "nat ns"] k by simp
  have ds: "list_all is_digit ?ds" using pad_nat_digits [of 9 "nat ns"] k by (metis list_all_append)
  have "nat ns \<noteq> 0" using False assms(1) by simp
  then have ne: "?ds \<noteq> []" using v by (metis digits_value.simps(1) mult_0)
  obtain z0 zs where z: "z = z0 # zs" "\<not> is_digit z0" using assms(3) by (auto simp: after_seconds_def)
  have tw: "takeWhile is_digit (?ds @ z) = ?ds" "dropWhile is_digit (?ds @ z) = z"
    using while_append [OF ds z(2)] z(1) by blast+
  have k9: "length ?ds + k = 9" using len k by (metis length_append length_replicate)
  obtain d rest where dr: "?ds @ z = d # rest" "is_digit d"
    using ne ds by (cases ?ds) auto
  have val: "int (digits_value 0 ?ds) * 10 ^ (9 - length ?ds) = ns"
  proof -
    have "9 - length ?ds = k" using k9 by simp
    moreover have "int (digits_value 0 ?ds) * 10 ^ k = int (digits_value 0 ?ds * 10 ^ k)" by simp
    ultimately show ?thesis unfolding v using assms(1) by simp
  qed
  have "nano_text ns @ z = CHR ''.'' # d # rest" using False dr(1) by (simp add: nano_text_def)
  moreover have "read_fraction (CHR ''.'' # d # rest) =
      (let ds = takeWhile is_digit (d # rest); k = take 9 ds
       in Some (int (digits_value 0 k) * 10 ^ (9 - length k), dropWhile is_digit (d # rest)))"
    using dr(2) by (simp add: read_fraction_def del: takeWhile.simps dropWhile.simps)
  moreover have "takeWhile is_digit (d # rest) = ?ds" "dropWhile is_digit (d # rest) = z"
    using tw unfolding dr(1) by blast+
  moreover have "take 9 ?ds = ?ds" using k9 by simp
  ultimately show ?thesis using val by (simp only: Let_def)
qed

lemma read_zone_signed:
  assumes "0 \<le> h" "h < 24" "0 \<le> m" "m < 60"
  shows "read_zone (CHR ''+'' # pad_int 2 h @ CHR '':'' # pad_int 2 m @ s) = Some (h * 3600 + m * 60, s)"
    "read_zone (CHR ''-'' # pad_int 2 h @ CHR '':'' # pad_int 2 m @ s) = Some (- (h * 3600 + m * 60), s)"
  using read_digits_pad [of h 2] read_digits_pad [of m 2] assms by (simp_all add: read_zone_def)

lemma read_zone_text:
  assumes "zone mod 60 = 0" "\<bar>zone\<bar> < 86400"
  shows "read_zone (zone_text zone @ s) = Some (zone, s)"
proof (cases "zone = 0")
  case True
  then show ?thesis by (simp add: zone_text_def read_zone_def)
next
  case False
  have "60 dvd \<bar>zone\<bar>" using assms(1) by (simp add: mod_eq_0_iff_dvd)
  then obtain m where eq: "\<bar>zone\<bar> = 60 * m" ..
  then have m: "\<bar>zone\<bar> div 60 = m" "\<bar>zone\<bar> = 60 * m" "0 < m" "m < 1440" using assms(2) False by auto
  obtain h k where hk: "m div 60 = h" "m mod 60 = k" "m = h * 60 + k" "0 \<le> h" "h < 24" "0 \<le> k" "k < 60"
    by (rule that [of "m div 60" "m mod 60"]) (use m(3,4) in simp_all)
  have "zone_text zone = (if zone < 0 then CHR ''-'' else CHR ''+'') # pad_int 2 h @ CHR '':'' # pad_int 2 k"
    using False m(1,3) hk(1,2) by (simp add: zone_text_def)
  moreover have "zone = (if zone < 0 then - (h * 3600 + k * 60) else h * 3600 + k * 60)"
    using m(2) hk(3) by (cases "zone < 0") simp_all
  ultimately show ?thesis using read_zone_signed [OF hk(4-7)] by (cases "zone < 0") simp_all
qed

lemma civil_bounds:
  "1 \<le> cv_Month (civil_of zone t) \<and> cv_Month (civil_of zone t) \<le> 12 \<and> 1 \<le> cv_Day (civil_of zone t) \<and>
   cv_Day (civil_of zone t) \<le> month_lengths (cv_Year (civil_of zone t)) ! nat (cv_Month (civil_of zone t) - 1) \<and>
   0 \<le> cv_Hour (civil_of zone t) \<and> cv_Hour (civil_of zone t) < 24 \<and>
   0 \<le> cv_Minute (civil_of zone t) \<and> cv_Minute (civil_of zone t) < 60 \<and>
   0 \<le> cv_Second (civil_of zone t) \<and> cv_Second (civil_of zone t) < 60 \<and>
   0 \<le> cv_Nanosecond (civil_of zone t) \<and> cv_Nanosecond (civil_of zone t) < time_Second"
proof -
  let ?s = "t div time_Second + zone"
  obtain y m d where ymd: "date_of_days (?s div 86400 + unix_days) = (y, m, d)" by (metis prod_cases3)
  define r where "r = ?s mod 86400"
  have c: "civil_of zone t = \<lparr>cv_Year = y, cv_Month = m, cv_Day = d, cv_Hour = r div 3600, cv_Minute = r div 60 mod 60,
      cv_Second = r mod 60, cv_Nanosecond = t mod time_Second\<rparr>"
    unfolding civil_of_def Let_def ymd r_def prod.case ..
  have r: "0 \<le> r" "r < 86400" unfolding r_def by (rule pos_mod_sign pos_mod_bound; simp)+
  have h: "0 \<le> r div 3600" "r div 3600 < 24" using r by auto
  have mods: "0 \<le> x mod 60" "x mod 60 < 60" "0 \<le> x mod time_Second" "x mod time_Second < time_Second" for x :: int
    by simp_all
  show ?thesis
    unfolding c civil.select_convs using h mods date_of_days [OF ymd] by blast
qed

lemma month_length_bound: "1 \<le> m \<Longrightarrow> m \<le> 12 \<Longrightarrow> month_lengths y ! nat (m - 1) \<le> 31"
proof -
  assume "1 \<le> m" "m \<le> 12"
  then have "nat (m - 1) < length (month_lengths y)" by (simp add: month_lengths_def)
  then have "month_lengths y ! nat (m - 1) \<in> set (month_lengths y)" by (rule nth_mem)
  then show ?thesis by (auto simp: month_lengths_def split: if_splits)
qed

text \<open>Reading a civil time that was written, with or without its fraction.\<close>

lemma read_civil_text:
  assumes "0 \<le> cv_Year (civil_of zone t)" "cv_Year (civil_of zone t) \<le> 9999" "read_fraction f = Some (ns, z)"
  shows "read_civil (seconds_text (civil_of zone t) @ f) = Some (civil_of zone t\<lparr>cv_Nanosecond := ns\<rparr>, z)"
proof -
  let ?c = "civil_of zone t"
  note b = civil_bounds [of zone t]
  have rd: "read_digits 2 (pad_int 2 x @ u) = Some (x, u)" "read_hour (pad_int 2 x @ u) = Some (x, u)"
    if "0 \<le> x" "x < 100" for x u
    using read_digits_pad [of x 2 u] read_hour_pad [of x u] that by simp_all
  have y: "read_digits 4 (pad_int 4 (cv_Year ?c) @ u) = Some (cv_Year ?c, u)" for u
    using assms by (intro read_digits_pad) simp_all
  have "cv_Day ?c < 100" using b month_length_bound [of "cv_Month ?c" "cv_Year ?c"] by linarith
  then show ?thesis
    using b assms(3) by (simp add: read_civil_def seconds_text_def y rd)
qed

lemma Date_nanosecond: "time_Date (c\<lparr>cv_Nanosecond := n\<rparr>) = time_Date c - cv_Nanosecond c + n"
  by (simp add: time_Date_def)

lemma civil_nanosecond: "cv_Nanosecond (civil_of zone t) = t mod time_Second"
  by (simp add: civil_of_def Let_def split: prod.split)

lemma Parse_Format:
  assumes "0 \<le> cv_Year (civil_of zone t)" "cv_Year (civil_of zone t) \<le> 9999" "zone mod 60 = 0" "\<bar>zone\<bar> < 86400"
  shows "Parse_RFC3339 (Format_RFC3339 zone t) = Some (t - t mod time_Second)"
    "Parse_RFC3339 (Format_RFC3339Nano zone t) = Some t"
proof -
  have z: "read_zone (zone_text zone) = Some (zone, [])" using read_zone_text [OF assms(3,4), of "[]"] by simp
  have after: "after_seconds (zone_text zone)" using zone_after_seconds [of zone "[]"] by simp
  note date = Date_civil [of zone t]
  have date0: "time_Date (civil_of zone t\<lparr>cv_Nanosecond := 0\<rparr>) = t + zone * time_Second - t mod time_Second"
    unfolding Date_nanosecond date civil_nanosecond by simp
  show "Parse_RFC3339 (Format_RFC3339 zone t) = Some (t - t mod time_Second)"
    using read_civil_text [OF assms(1,2) read_fraction_none [OF after]] z date0
    by (simp add: Parse_RFC3339_def Format_RFC3339_def)
  have "read_fraction (nano_text (cv_Nanosecond (civil_of zone t)) @ zone_text zone) =
      Some (cv_Nanosecond (civil_of zone t), zone_text zone)"
    using civil_bounds [of zone t] after by (intro read_fraction_nano) simp_all
  from read_civil_text [OF assms(1,2) this] show "Parse_RFC3339 (Format_RFC3339Nano zone t) = Some t"
    using z date by (simp add: Parse_RFC3339_def Format_RFC3339Nano_def Let_def)
qed

end
