(* ===== verification/Model_Request.thy ===== *)
theory Model_Request
  imports Model_Notification Go_Time
begin

text \<open>
  \<open>internal/model/request.go\<close>: the request bodies and their validation. Two
  standard-library parsers are arguments: \<open>mail_ok s\<close> says that
  \<open>mail.ParseAddress(s)\<close> returns no error, \<open>parse\<close> and \<open>format\<close> are
  \<open>time.Parse\<close> and \<open>Time.Format\<close> for RFC 3339. The reading of the clock that
  \<open>Validate\<close> takes is its argument \<open>now\<close>.
\<close>

section \<open>Types\<close>

record validation_error =
  ve_Field :: string
  ve_Message :: string

abbreviation VE :: "string \<Rightarrow> string \<Rightarrow> validation_error" where
  "VE f m \<equiv> \<lparr>ve_Field = f, ve_Message = m\<rparr>"

record create_request =
  r_Recipient :: string
  r_Channel :: channel
  r_Content :: string
  r_Subject :: "string option"
  r_Priority :: priority
  r_IdempotencyKey :: "string option"
  r_ScheduledAt :: "time option"
  r_TemplateID :: "uuid option"
  r_Variables :: "(string \<times> string) list"

text \<open>
  The Go map \<open>Variables\<close> is the list of its entries in the order one \<open>range\<close>
  over it happens to visit them; its keys are distinct.
\<close>

record batch_create_request =
  b_Notifications :: "create_request list"

record list_request =
  l_Status :: "status option"
  l_Channel :: "channel option"
  l_BatchID :: "uuid option"
  l_StartDate :: "time option"
  l_EndDate :: "time option"
  l_Page :: int
  l_PageSize :: int

section \<open>Validate\<close>

definition SMSMaxLength :: nat where "SMSMaxLength = 160"
definition EmailMaxLength :: nat where "EmailMaxLength = 50000"
definition PushMaxLength :: nat where "PushMaxLength = 256"

lemmas max_length_defs = SMSMaxLength_def EmailMaxLength_def PushMaxLength_def

text \<open>The regular expression: a plus sign, a digit 1 to 9, then 6 to 14 digits.\<close>

definition phoneRegex_match :: "string \<Rightarrow> bool" where
  "phoneRegex_match s =
     (case s of
        p # d # ds \<Rightarrow> p = CHR ''+'' \<and> is_digit d \<and> d \<noteq> CHR ''0'' \<and>
          list_all is_digit ds \<and> 6 \<le> length ds \<and> length ds \<le> 14
      | _ \<Rightarrow> False)"

definition err_if :: "bool \<Rightarrow> string \<Rightarrow> string \<Rightarrow> validation_error list" where
  "err_if b f m = (if b then [VE f m] else [])"

lemma err_if_Nil [simp]: "err_if b f m = [] \<longleftrightarrow> \<not> b" "[] = err_if b f m \<longleftrightarrow> \<not> b"
  by (auto simp: err_if_def)

lemma map_err_if [simp]: "map h (err_if b f m) = (if b then [h (VE f m)] else [])"
  by (simp add: err_if_def)

definition check_recipient :: "(string \<Rightarrow> bool) \<Rightarrow> create_request \<Rightarrow> validation_error list" where
  "check_recipient mail_ok r =
     (if r_Channel r = ChannelSMS then
        err_if (\<not> phoneRegex_match (r_Recipient r)) ''recipient''
          ''SMS recipient must be E.164 format (e.g. +905551234567)''
      else if r_Channel r = ChannelEmail then
        err_if (\<not> mail_ok (r_Recipient r)) ''recipient'' ''invalid email address''
      else if r_Channel r = ChannelPush then
        err_if (r_Recipient r = []) ''recipient'' ''push device token is required''
      else [])"

definition check_length :: "create_request \<Rightarrow> validation_error list" where
  "check_length r =
     (let contentLen = rune_count (r_Content r)
      in if r_Channel r = ChannelSMS then
           err_if (contentLen > SMSMaxLength) ''content''
             (''SMS content exceeds '' @ itoa (int SMSMaxLength) @ '' characters'')
         else if r_Channel r = ChannelEmail then
           err_if (contentLen > EmailMaxLength) ''content''
             (''email content exceeds '' @ itoa (int EmailMaxLength) @ '' characters'')
         else if r_Channel r = ChannelPush then
           err_if (contentLen > PushMaxLength) ''content''
             (''push content exceeds '' @ itoa (int PushMaxLength) @ '' characters'')
         else [])"

definition Validate :: "(string \<Rightarrow> bool) \<Rightarrow> time \<Rightarrow> create_request \<Rightarrow> validation_error list" where
  "Validate mail_ok now r =
     err_if (r_Channel r \<notin> {ChannelSMS, ChannelEmail, ChannelPush}) ''channel''
       ''must be one of [sms, email, push]'' @
     err_if (r_Priority r \<notin> {PriorityHigh, PriorityNormal, PriorityLow}) ''priority''
       ''must be one of [high, normal, low]'' @
     check_recipient mail_ok r @
     err_if (r_Content r = [] \<and> r_TemplateID r = None) ''content''
       ''content is required (or provide template_id)'' @
     (if r_Content r \<noteq> [] then check_length r else []) @
     err_if (r_Channel r = ChannelEmail \<and> r_TemplateID r = None \<and>
         (r_Subject r = None \<or> r_Subject r = Some [])) ''subject''
       ''subject is required for email notifications'' @
     err_if (case r_ScheduledAt r of None \<Rightarrow> False | Some t \<Rightarrow> t < now) ''scheduled_at''
       ''scheduled_at must be in the future''"

text \<open>\<open>BatchCreateRequest.Validate\<close>; \<open>now i\<close> is the clock when item \<open>i\<close> is checked.\<close>

definition batch_field :: "nat \<Rightarrow> string \<Rightarrow> string" where
  "batch_field i f = ''notifications['' @ itoa (int i) @ ''].'' @ f"

fun validate_items ::
  "(string \<Rightarrow> bool) \<Rightarrow> (nat \<Rightarrow> time) \<Rightarrow> nat \<Rightarrow> create_request list \<Rightarrow> validation_error list" where
  "validate_items mail_ok now i [] = []"
| "validate_items mail_ok now i (n # ns) =
     map (\<lambda>e. VE (batch_field i (ve_Field e)) (ve_Message e)) (Validate mail_ok (now i) n) @
     validate_items mail_ok now (Suc i) ns"

definition batch_Validate ::
  "(string \<Rightarrow> bool) \<Rightarrow> (nat \<Rightarrow> time) \<Rightarrow> batch_create_request \<Rightarrow> validation_error list" where
  "batch_Validate mail_ok now r =
     (if length (b_Notifications r) = 0 then
        [VE ''notifications'' ''at least 1 notification required'']
      else if length (b_Notifications r) > 1000 then
        [VE ''notifications'' ''maximum 1000 notifications per batch'']
      else validate_items mail_ok now 0 (b_Notifications r))"

section \<open>Normalize\<close>

definition Normalize :: "list_request \<Rightarrow> list_request" where
  "Normalize r =
     (let r1 = (if l_Page r < 1 then r\<lparr>l_Page := 1\<rparr> else r);
          r2 = (if l_PageSize r1 < 1 then r1\<lparr>l_PageSize := 20\<rparr> else r1)
      in if l_PageSize r2 > 100 then r2\<lparr>l_PageSize := 100\<rparr> else r2)"

section \<open>JSONTime\<close>

text \<open>The slice \<open>s[1 : len(s)-1]\<close> panics when \<open>len(s) < 2\<close>.\<close>

datatype json_time_error = SliceOutOfRange | InvalidTimeFormat string

definition strip_quotes :: "string \<Rightarrow> json_time_error + string" where
  "strip_quotes s = (if length s < 2 then Inl SliceOutOfRange else Inr (butlast (tl s)))"

definition JSONTime_UnmarshalJSON :: "string \<Rightarrow> json_time_error + time" where
  "JSONTime_UnmarshalJSON b =
     (case strip_quotes b of
        Inl e \<Rightarrow> Inl e
      | Inr s \<Rightarrow>
          (case Parse_RFC3339 s of
             None \<Rightarrow> Inl (InvalidTimeFormat
               ''invalid time format, use RFC3339 (e.g. 2026-06-07T10:00:00Z)'')
           | Some t \<Rightarrow> Inr t))"

text \<open>\<open>zone\<close> is the offset of the time's location.\<close>

definition JSONTime_MarshalJSON :: "int \<Rightarrow> time \<Rightarrow> string" where
  "JSONTime_MarshalJSON zone t = [CHR 0x22] @ Format_RFC3339 zone t @ [CHR 0x22]"

section \<open>What validation accepts\<close>

definition channel_limit :: "channel \<Rightarrow> nat" where
  "channel_limit c = (if c = ChannelSMS then 160 else if c = ChannelEmail then 50000 else 256)"

text \<open>The rules of the README's section on content validation, channel by channel.\<close>

definition e164 :: "string \<Rightarrow> bool" where
  "e164 s \<longleftrightarrow> (\<exists>d ds. s = CHR ''+'' # d # ds \<and> is_digit d \<and> d \<noteq> CHR ''0'' \<and>
     (\<forall>c \<in> set ds. is_digit c) \<and> length ds \<in> {6..14})"

definition acceptable_recipient :: "(string \<Rightarrow> bool) \<Rightarrow> channel \<Rightarrow> string \<Rightarrow> bool" where
  "acceptable_recipient mail_ok c s \<longleftrightarrow>
     c = ChannelSMS \<and> e164 s \<or> c = ChannelEmail \<and> mail_ok s \<or> c = ChannelPush \<and> s \<noteq> []"

definition acceptable :: "(string \<Rightarrow> bool) \<Rightarrow> time \<Rightarrow> create_request \<Rightarrow> bool" where
  "acceptable mail_ok now r \<longleftrightarrow>
     acceptable_recipient mail_ok (r_Channel r) (r_Recipient r) \<and>
     r_Priority r \<in> {PriorityHigh, PriorityNormal, PriorityLow} \<and>
     rune_count (r_Content r) \<le> channel_limit (r_Channel r) \<and>
     (r_TemplateID r = None \<longrightarrow> r_Content r \<noteq> [] \<and>
        (r_Channel r = ChannelEmail \<longrightarrow> (\<exists>s. r_Subject r = Some s \<and> s \<noteq> []))) \<and>
     (\<forall>t. r_ScheduledAt r = Some t \<longrightarrow> now \<le> t)"

lemma phoneRegex_match_e164: "phoneRegex_match s \<longleftrightarrow> e164 s"
  by (auto simp: phoneRegex_match_def e164_def list_all_iff split: list.splits)

lemma check_recipient_Nil:
  assumes "r_Channel r \<in> {ChannelSMS, ChannelEmail, ChannelPush}"
  shows "check_recipient mail_ok r = [] \<longleftrightarrow>
    acceptable_recipient mail_ok (r_Channel r) (r_Recipient r)"
  using assms
  by (auto simp: check_recipient_def acceptable_recipient_def phoneRegex_match_e164)

lemma check_length_Nil:
  assumes "r_Channel r \<in> {ChannelSMS, ChannelEmail, ChannelPush}"
  shows "(if r_Content r \<noteq> [] then check_length r else []) = [] \<longleftrightarrow>
    rune_count (r_Content r) \<le> channel_limit (r_Channel r)"
  using assms
  by (auto simp: check_length_def channel_limit_def max_length_defs not_less)

lemma acceptable_channel:
  "acceptable mail_ok now r \<Longrightarrow> r_Channel r \<in> {ChannelSMS, ChannelEmail, ChannelPush}"
  by (auto simp: acceptable_def acceptable_recipient_def)

lemma option_string_cases: "s = None \<or> s = Some [] \<longleftrightarrow> \<not> (\<exists>x. s = Some x \<and> x \<noteq> [])"
  by (cases s) auto

lemma Validate_Nil: "Validate mail_ok now r = [] \<longleftrightarrow> acceptable mail_ok now r"
proof (cases "r_Channel r \<in> {ChannelSMS, ChannelEmail, ChannelPush}")
  case True
  have sched: "(case r_ScheduledAt r of None \<Rightarrow> False | Some t \<Rightarrow> t < now) \<longleftrightarrow>
      \<not> (\<forall>t. r_ScheduledAt r = Some t \<longrightarrow> now \<le> t)"
    by (auto split: option.split)
  show ?thesis
    unfolding Validate_def acceptable_def append_is_Nil_conv check_recipient_Nil [OF True]
      check_length_Nil [OF True] err_if_Nil sched option_string_cases
    using True by blast
next
  case False
  then show ?thesis
    using acceptable_channel [of mail_ok now r] by (auto simp: Validate_def)
qed

text \<open>C38. A request passes validation exactly when it meets the documented rules: a known
  channel with a recipient of that channel's form, a known priority, content and subject
  present unless a template is named, content no longer than the channel allows, and a
  schedule that is not in the past.\<close>

theorem validate_accepts: "Validate mail_ok now r = [] \<longleftrightarrow> acceptable mail_ok now r"
  by (rule Validate_Nil)

text \<open>The errors of one check name one field, at most once.\<close>

definition reports :: "string \<Rightarrow> validation_error list \<Rightarrow> bool" where
  "reports f es \<longleftrightarrow> es = [] \<or> (\<exists>e. es = [e] \<and> ve_Field e = f)"

lemma reports_err_if: "reports f (err_if b f m)"
  by (simp add: reports_def err_if_def)

lemma reports_Nil: "reports f []"
  by (simp add: reports_def)

lemma reports_check_recipient: "reports ''recipient'' (check_recipient mail_ok r)"
  by (simp add: check_recipient_def reports_err_if reports_Nil)

lemma reports_check_length: "reports ''content'' (check_length r)"
  by (simp add: check_length_def Let_def reports_err_if reports_Nil)

lemma reports_content:
  "reports ''content'' (err_if (r_Content r = [] \<and> t) ''content'' m @
     (if r_Content r \<noteq> [] then check_length r else []))"
  using reports_check_length [of r] by (cases "r_Content r = []") (auto simp: err_if_def reports_def)

lemma reports_fields: "reports f es \<Longrightarrow> distinct (map ve_Field es) \<and> set (map ve_Field es) \<subseteq> {f}"
  by (auto simp: reports_def)

lemma reports_concat:
  "list_all2 reports fs ess \<Longrightarrow> distinct fs \<Longrightarrow>
     distinct (map ve_Field (concat ess)) \<and> set (map ve_Field (concat ess)) \<subseteq> set fs"
proof (induction rule: list_all2_induct)
  case (Cons f fs es ess)
  then show ?case using reports_fields [OF Cons.hyps(1)] by auto
qed simp

text \<open>Validation reports each field of a request at most once, and only fields a client
  can set.\<close>

theorem validate_fields:
  "distinct (map ve_Field (Validate mail_ok now r)) \<and>
   set (map ve_Field (Validate mail_ok now r)) \<subseteq>
     {''channel'', ''priority'', ''recipient'', ''content'', ''subject'', ''scheduled_at''}"
proof -
  let ?content = "err_if (r_Content r = [] \<and> r_TemplateID r = None) ''content''
      ''content is required (or provide template_id)'' @
    (if r_Content r \<noteq> [] then check_length r else [])"
  obtain e1 e2 e5 e6 where V: "Validate mail_ok now r =
      concat [e1, e2, check_recipient mail_ok r, ?content, e5, e6]"
    and "reports ''channel'' e1" "reports ''priority'' e2" "reports ''subject'' e5"
      "reports ''scheduled_at'' e6"
    by (rule that [OF _ reports_err_if reports_err_if reports_err_if reports_err_if])
      (simp only: Validate_def concat.simps append_assoc append_Nil2)
  then have "list_all2 reports
      [''channel'', ''priority'', ''recipient'', ''content'', ''subject'', ''scheduled_at'']
      [e1, e2, check_recipient mail_ok r, ?content, e5, e6]"
    by (simp only: list_all2_Cons list_all2_Nil reports_check_recipient reports_content simp_thms)
  from reports_concat [OF this] show ?thesis unfolding V by simp
qed

lemma validate_items_Nil:
  "validate_items mail_ok now i rs = [] \<longleftrightarrow>
     (\<forall>k < length rs. acceptable mail_ok (now (i + k)) (rs ! k))"
proof (induction rs arbitrary: i)
  case (Cons r rs)
  show ?case
    by (simp add: Cons.IH Validate_Nil All_less_Suc2 del: Validate_def)
qed simp

text \<open>A batch passes its own validation exactly when it has between 1 and 1000 items and
  every item is acceptable at the moment it is checked.\<close>

theorem batch_validate_accepts:
  "batch_Validate mail_ok now r = [] \<longleftrightarrow>
     1 \<le> length (b_Notifications r) \<and> length (b_Notifications r) \<le> 1000 \<and>
     (\<forall>k < length (b_Notifications r).
        acceptable mail_ok (now k) (b_Notifications r ! k))"
  by (auto simp: batch_Validate_def validate_items_Nil Suc_le_eq)

section \<open>Normalize and JSONTime\<close>

lemma Normalize_bounds:
  "1 \<le> l_Page (Normalize r)" "1 \<le> l_PageSize (Normalize r)" "l_PageSize (Normalize r) \<le> 100"
  by (simp_all add: Normalize_def Let_def)

lemma Normalize_filters [simp]:
  "l_Status (Normalize r) = l_Status r" "l_Channel (Normalize r) = l_Channel r"
  "l_BatchID (Normalize r) = l_BatchID r" "l_StartDate (Normalize r) = l_StartDate r"
  "l_EndDate (Normalize r) = l_EndDate r"
  by (simp_all add: Normalize_def Let_def)

lemma Normalize_id:
  "1 \<le> l_Page r \<Longrightarrow> 1 \<le> l_PageSize r \<Longrightarrow> l_PageSize r \<le> 100 \<Longrightarrow> Normalize r = r"
  by (simp add: Normalize_def)

lemma Normalize_idem [simp]: "Normalize (Normalize r) = Normalize r"
  by (rule Normalize_id) (rule Normalize_bounds)+

text \<open>Normalising a list request puts the page at 1 or above and the page size between 1
  and 100, leaves the filters alone and is idempotent; a request already in range is not
  touched.\<close>

theorem normalize_page:
  "1 \<le> l_Page (Normalize r) \<and> l_PageSize (Normalize r) \<in> {1..100} \<and>
   l_Status (Normalize r) = l_Status r \<and> l_Channel (Normalize r) = l_Channel r \<and>
   l_BatchID (Normalize r) = l_BatchID r \<and> l_StartDate (Normalize r) = l_StartDate r \<and>
   l_EndDate (Normalize r) = l_EndDate r \<and> Normalize (Normalize r) = Normalize r \<and>
   (Normalize r = r \<longleftrightarrow> 1 \<le> l_Page r \<and> l_PageSize r \<in> {1..100})"
  using Normalize_bounds [of r] Normalize_id [of r] by (auto simp del: One_nat_def)

lemma strip_quotes_quoted: "strip_quotes ([q] @ s @ [q']) = Inr s"
  by (simp add: strip_quotes_def)

text \<open>C40. Reading back a time the service wrote gives the same time to the second, whatever the
  location it was written in, for the years 0 to 9999 and offsets of whole minutes less than
  a day: the fraction of a second is not written.\<close>

theorem json_time_roundtrip:
  assumes "0 \<le> cv_Year (civil_of zone t)" "cv_Year (civil_of zone t) \<le> 9999"
    "zone mod 60 = 0" "\<bar>zone\<bar> < 86400"
  shows "JSONTime_UnmarshalJSON (JSONTime_MarshalJSON zone t) = Inr (t - t mod time_Second)"
  using Parse_Format(1) [OF assms]
  by (simp add: JSONTime_UnmarshalJSON_def JSONTime_MarshalJSON_def strip_quotes_quoted [simplified])

theorem json_time_roundtrip_witness:
  "JSONTime_UnmarshalJSON (JSONTime_MarshalJSON 10800 1780826400123000000) = Inr 1780826400000000000"
proof -
  have "cv_Year (civil_of 10800 1780826400123000000) = 2026"
    by code_simp
  with json_time_roundtrip [of 10800 1780826400123000000] show ?thesis by simp
qed

text \<open>Decoding a time panics on a JSON value of one byte, such as the number 5, and on
  nothing else: the slice that strips the quotes needs two bytes.\<close>

theorem json_time_panic:
  "JSONTime_UnmarshalJSON b = Inl SliceOutOfRange \<longleftrightarrow> length b < 2"
  by (simp add: JSONTime_UnmarshalJSON_def strip_quotes_def split: option.split)

end
