(* ===== verification/Model_Template.thy ===== *)
theory Model_Template
  imports Model_Request
begin

text \<open>
  \<open>internal/model/template.go\<close>: message templates, their rendering and the validation
  of a new template. The map of variables is the list of its entries in the order the
  \<open>range\<close> statement visits them; Go leaves that order open, and the two loops of
  \<open>Render\<close> may take different orders.
\<close>

section \<open>Types and operations\<close>

record template =
  t_ID :: uuid
  t_Name :: string
  t_Channel :: channel
  t_Subject :: "string option"
  t_Body :: string
  t_CreatedAt :: time
  t_UpdatedAt :: time

record create_template_request =
  ct_Name :: string
  ct_Channel :: channel
  ct_Subject :: "string option"
  ct_Body :: string

definition placeholder :: "string \<Rightarrow> string" where
  "placeholder key = ''{{'' @ key @ ''}}''"

fun render_text :: "(string \<times> string) list \<Rightarrow> string \<Rightarrow> string" where
  "render_text [] content = content"
| "render_text ((key, val) # vars) content =
     render_text vars (replace_all (placeholder key) val content)"

definition Render ::
  "(string \<times> string) list \<Rightarrow> (string \<times> string) list \<Rightarrow> template \<Rightarrow> string \<times> string option"
where
  "Render variables variables' t =
     (render_text variables (t_Body t), map_option (render_text variables') (t_Subject t))"

definition template_Validate :: "create_template_request \<Rightarrow> validation_error list" where
  "template_Validate r =
     err_if (ct_Name r = []) ''name'' ''name is required'' @
     err_if (ct_Channel r \<notin> {ChannelSMS, ChannelEmail, ChannelPush}) ''channel''
       ''must be one of [sms, email, push]'' @
     err_if (ct_Body r = []) ''body'' ''body is required'' @
     err_if (ct_Channel r = ChannelEmail \<and> (ct_Subject r = None \<or> ct_Subject r = Some []))
       ''subject'' ''subject is required for email templates''"

section \<open>What rendering computes\<close>

text \<open>
  A template text read as tokens: literal text without braces and placeholders whose keys
  have no braces. \<open>substitute\<close> is the specification: every placeholder of a known
  variable becomes its value, all at once.
\<close>

datatype token = Lit string | Var string

fun show_token :: "token \<Rightarrow> string" where
  "show_token (Lit s) = s"
| "show_token (Var k) = placeholder k"

definition show_tokens :: "token list \<Rightarrow> string" where
  "show_tokens ts = concat (map show_token ts)"

definition brace_free :: "string \<Rightarrow> bool" where
  "brace_free s \<longleftrightarrow> CHR ''{'' \<notin> set s \<and> CHR ''}'' \<notin> set s"

fun token_ok :: "token \<Rightarrow> bool" where
  "token_ok (Lit s) = brace_free s"
| "token_ok (Var k) = brace_free k"

fun substitute :: "(string \<rightharpoonup> string) \<Rightarrow> token \<Rightarrow> token" where
  "substitute m (Lit s) = Lit s"
| "substitute m (Var k) = (case m k of None \<Rightarrow> Var k | Some v \<Rightarrow> Lit v)"

lemma show_tokens_simps [simp]:
  "show_tokens [] = []" "show_tokens (t # ts) = show_token t @ show_tokens ts"
  by (simp_all add: show_tokens_def)

text \<open>The first closing brace ends a key, so equal placeholder prefixes have equal keys.\<close>

lemma brace_free_key_unique:
  "brace_free k \<Longrightarrow> brace_free k' \<Longrightarrow> k @ CHR ''}'' # s = k' @ CHR ''}'' # s' \<Longrightarrow> k = k'"
proof (induction k arbitrary: k')
  case Nil
  then show ?case by (cases k') (auto simp: brace_free_def)
next
  case (Cons c k)
  then show ?case by (cases k') (auto simp: brace_free_def)
qed

lemma placeholder_prefix:
  assumes "brace_free k" "brace_free k'"
  shows "prefix (placeholder k) (placeholder k' @ s) \<longleftrightarrow> k = k'"
proof
  assume "prefix (placeholder k) (placeholder k' @ s)"
  then obtain r where "k' @ CHR ''}'' # CHR ''}'' # s = k @ CHR ''}'' # CHR ''}'' # r"
    by (auto simp: placeholder_def prefix_def)
  then show "k = k'"
    using brace_free_key_unique assms by metis
qed simp

text \<open>Replacing one variable replaces exactly its placeholders.\<close>

lemma replace_all_other_placeholder:
  assumes "brace_free k" "brace_free k'" "k \<noteq> k'"
  shows "replace_all (placeholder k) v (placeholder k' @ s) =
    placeholder k' @ replace_all (placeholder k) v s"
proof -
  let ?r = "replace_all (placeholder k) v"
  let ?tail = "k' @ ''}}''"
  have one: "?r (placeholder k' @ s) = CHR ''{'' # ?r (CHR ''{'' # ?tail @ s)"
    using placeholder_prefix [OF assms(1,2), of s] assms(3)
    by (simp add: placeholder_def replace_all_step)
  have "\<not> prefix (placeholder k) (CHR ''{'' # ?tail @ s)"
    using assms(2) by (cases k') (auto simp: placeholder_def brace_free_def)
  then have two: "?r (CHR ''{'' # ?tail @ s) = CHR ''{'' # ?r (?tail @ s)"
    by (rule replace_all_step)
  have "CHR ''{'' \<notin> set ?tail" using assms(2) by (simp add: brace_free_def)
  then have "?r (?tail @ s) = ?tail @ ?r s"
    using replace_all_skip [of "CHR ''{''" ?tail "CHR ''{'' # k @ ''}}''" v s]
    by (simp add: placeholder_def)
  then show ?thesis using one two by (simp add: placeholder_def)
qed

lemma replace_all_tokens:
  assumes "brace_free k" "list_all token_ok ts"
  shows "replace_all (placeholder k) v (show_tokens ts) =
    show_tokens (map (substitute [k \<mapsto> v]) ts)"
  using assms(2)
proof (induction ts)
  case (Cons t ts)
  then have IH: "replace_all (placeholder k) v (show_tokens ts) =
      show_tokens (map (substitute [k \<mapsto> v]) ts)"
    by (simp del: fun_upd_apply)
  show ?case
  proof (cases t)
    case (Lit l)
    then show ?thesis
      using Cons.prems IH replace_all_skip [of "CHR ''{''" l "CHR ''{'' # k @ ''}}''" v]
      by (simp add: placeholder_def brace_free_def del: fun_upd_apply)
  next
    case (Var k')
    show ?thesis
    proof (cases "k = k'")
      case True
      then show ?thesis
        using IH Var replace_all_match [of "placeholder k" v "show_tokens ts"]
        by (simp add: placeholder_def fun_upd_same del: fun_upd_apply)
    next
      case False
      then show ?thesis
        using IH Var Cons.prems assms(1) replace_all_other_placeholder [of k k' v]
        by (simp add: fun_upd_other del: fun_upd_apply)
    qed
  qed
qed simp

lemma substitute_compose:
  "k \<notin> dom m \<Longrightarrow> substitute m (substitute [k \<mapsto> v] t) = substitute (m(k \<mapsto> v)) t"
  by (cases t) (auto split: option.split)

lemma token_ok_substitute: "brace_free v \<Longrightarrow> token_ok t \<Longrightarrow> token_ok (substitute [k \<mapsto> v] t)"
  by (cases t) auto

lemma render_text_tokens:
  "list_all token_ok ts \<Longrightarrow> distinct (map fst vars) \<Longrightarrow>
   list_all (\<lambda>(k, v). brace_free k \<and> brace_free v) vars \<Longrightarrow>
   render_text vars (show_tokens ts) = show_tokens (map (substitute (map_of vars)) ts)"
proof (induction vars arbitrary: ts)
  case Nil
  have "substitute Map.empty t = t" for t by (cases t) simp_all
  then show ?case by simp
next
  case (Cons kv vars)
  obtain k v where kv: "kv = (k, v)" by (cases kv)
  have dom: "k \<notin> dom (map_of vars)"
    using Cons.prems(2) kv by (simp add: dom_map_of_conv_image_fst)
  have "list_all token_ok (map (substitute [k \<mapsto> v]) ts)"
    using Cons.prems(1,3) kv by (simp add: list_all_iff token_ok_substitute)
  then have "render_text vars (show_tokens (map (substitute [k \<mapsto> v]) ts)) =
      show_tokens (map (substitute (map_of vars)) (map (substitute [k \<mapsto> v]) ts))"
    using Cons.prems by (intro Cons.IH) (simp_all add: kv)
  also have "\<dots> = show_tokens (map (substitute ((map_of vars)(k \<mapsto> v))) ts)"
    by (simp add: substitute_compose [OF dom] comp_def del: fun_upd_apply)
  finally show ?case
    using Cons.prems kv by (simp add: replace_all_tokens del: fun_upd_apply)
qed

text \<open>C39. Rendering a text made of brace-free literals and placeholders replaces every
  placeholder of a given variable by its value and nothing else, whatever order the map is
  visited in, as long as keys and values hold no braces.\<close>

theorem render_substitutes:
  assumes "list_all token_ok ts" "distinct (map fst vars)"
    "list_all (\<lambda>(k, v). brace_free k \<and> brace_free v) vars"
    "mset vars' = mset vars"
  shows "render_text vars' (show_tokens ts) = show_tokens (map (substitute (map_of vars)) ts)"
proof -
  have s: "set vars' = set vars" using assms(4) by (rule mset_eq_setD)
  have "mset (map fst vars') = mset (map fst vars)" using assms(4) by simp
  then have d: "distinct (map fst vars')" using assms(2) mset_eq_imp_distinct_iff by blast
  then have "map_of vars' = map_of vars"
    using assms(2) s by (simp add: map_of_inject_set)
  then show ?thesis
    using render_text_tokens [OF assms(1) d] assms(3) s by (simp add: list_all_iff)
qed

theorem render_substitutes_witness:
  "render_text [(''minutes'', ''5''), (''code'', ''9876'')]
     (show_tokens [Lit ''Code '', Var ''code'', Lit '', '', Var ''minutes'', Lit '' min '', Var ''x'']) =
   show_tokens [Lit ''Code '', Lit ''9876'', Lit '', '', Lit ''5'', Lit '' min '', Var ''x'']"
proof -
  have "render_text [(''minutes'', ''5''), (''code'', ''9876'')]
     (show_tokens [Lit ''Code '', Var ''code'', Lit '', '', Var ''minutes'', Lit '' min '', Var ''x'']) =
   show_tokens (map (substitute (map_of [(''code'', ''9876''), (''minutes'', ''5'')]))
     [Lit ''Code '', Var ''code'', Lit '', '', Var ''minutes'', Lit '' min '', Var ''x''])"
    by (rule render_substitutes) (simp_all add: brace_free_def)
  then show ?thesis by simp
qed

text \<open>The order of the map matters once a value holds a placeholder: the two orders of
  the same two variables render the same body differently.\<close>

theorem render_order_dependent:
  "render_text [(''a'', ''{{b}}''), (''b'', ''x'')] ''{{a}}'' = ''x'' \<and>
   render_text [(''b'', ''x''), (''a'', ''{{b}}'')] ''{{a}}'' = ''{{b}}''"
  by (simp add: placeholder_def replace_all.simps)

section \<open>What template validation accepts\<close>

definition acceptable_template :: "create_template_request \<Rightarrow> bool" where
  "acceptable_template r \<longleftrightarrow>
     ct_Name r \<noteq> [] \<and> ct_Body r \<noteq> [] \<and>
     (ct_Channel r = ChannelEmail \<and> (\<exists>s. ct_Subject r = Some s \<and> s \<noteq> []) \<or>
      ct_Channel r \<in> {ChannelSMS, ChannelPush})"

text \<open>A new template is accepted exactly when it has a name, a body and a known channel,
  and, for email, a subject.\<close>

theorem template_validate_accepts: "template_Validate r = [] \<longleftrightarrow> acceptable_template r"
  by (auto simp: template_Validate_def acceptable_template_def option_string_cases)

end
