(* ===== verification/Go_Errors.thy ===== *)
theory Go_Errors
  imports Model_Template
begin

text \<open>
  The error values of the program. Go errors are compared along their chain of wrapped
  errors, so \<open>fmt.Errorf\<close> with the verb \<open>%w\<close> is a constructor of its own. Errors
  of libraries and of \<open>errors.New\<close> that the program never tells apart are
  \<open>OpaqueError\<close> with their text.
\<close>

datatype go_error =
    ErrNoRows \<comment> \<open>\<open>sql.ErrNoRows\<close>\<close>
  | ErrDuplicate \<comment> \<open>\<open>repository.ErrDuplicate\<close>\<close>
  | PqError string string \<comment> \<open>\<open>*pq.Error\<close>: its code and its text\<close>
  | OpaqueError string
  | Wrapped string go_error \<comment> \<open>\<open>fmt.Errorf("prefix: %w", err)\<close>\<close>
  | ValidationErr "validation_error list"
  | NotFoundErr string string
  | ProviderError int string bool

definition ValidationErr_Error :: "validation_error list \<Rightarrow> string" where
  "ValidationErr_Error es = ''validation failed: '' @ itoa (int (length es)) @ '' errors''"

definition NotFoundErr_Error :: "string \<Rightarrow> string \<Rightarrow> string" where
  "NotFoundErr_Error entity i = entity @ '' '' @ i @ '' not found''"

definition ProviderError_Error :: "int \<Rightarrow> string \<Rightarrow> string" where
  "ProviderError_Error code body = ''provider returned status '' @ itoa code @ '': '' @ body"

fun error_text :: "go_error \<Rightarrow> string" where
  "error_text ErrNoRows = ''sql: no rows in result set''"
| "error_text ErrDuplicate = ''duplicate entry''"
| "error_text (PqError code t) = t"
| "error_text (OpaqueError t) = t"
| "error_text (Wrapped p e) = p @ '': '' @ error_text e"
| "error_text (ValidationErr es) = ValidationErr_Error es"
| "error_text (NotFoundErr entity i) = NotFoundErr_Error entity i"
| "error_text (ProviderError code body retryable) = ProviderError_Error code body"

text \<open>\<open>errors.Is(err, sql.ErrNoRows)\<close> and the \<open>errors.As\<close> calls of the program.\<close>

fun errors_Is_ErrNoRows :: "go_error \<Rightarrow> bool" where
  "errors_Is_ErrNoRows ErrNoRows = True"
| "errors_Is_ErrNoRows (Wrapped p e) = errors_Is_ErrNoRows e"
| "errors_Is_ErrNoRows _ = False"

fun errors_As_Pq :: "go_error \<Rightarrow> string option" where
  "errors_As_Pq (PqError code t) = Some code"
| "errors_As_Pq (Wrapped p e) = errors_As_Pq e"
| "errors_As_Pq _ = None"

fun errors_As_ValidationErr :: "go_error \<Rightarrow> validation_error list option" where
  "errors_As_ValidationErr (ValidationErr es) = Some es"
| "errors_As_ValidationErr (Wrapped p e) = errors_As_ValidationErr e"
| "errors_As_ValidationErr _ = None"

fun errors_As_NotFoundErr :: "go_error \<Rightarrow> (string \<times> string) option" where
  "errors_As_NotFoundErr (NotFoundErr entity i) = Some (entity, i)"
| "errors_As_NotFoundErr (Wrapped p e) = errors_As_NotFoundErr e"
| "errors_As_NotFoundErr _ = None"

text \<open>For a provider error, its \<open>Retryable\<close> field.\<close>

fun errors_As_ProviderError :: "go_error \<Rightarrow> bool option" where
  "errors_As_ProviderError (ProviderError code body retryable) = Some retryable"
| "errors_As_ProviderError (Wrapped p e) = errors_As_ProviderError e"
| "errors_As_ProviderError _ = None"

text \<open>\<open>internal/repository/errors.go\<close>. \<open>None\<close> is a nil error.\<close>

definition uniqueViolation :: string where "uniqueViolation = ''23505''"

definition IsDuplicate :: "go_error option \<Rightarrow> bool" where
  "IsDuplicate err =
     (case err of
        None \<Rightarrow> False
      | Some e \<Rightarrow> (case errors_As_Pq e of None \<Rightarrow> False | Some code \<Rightarrow> code = uniqueViolation))"

lemma IsDuplicate_ErrDuplicate [simp]: "\<not> IsDuplicate (Some ErrDuplicate)"
  by (simp add: IsDuplicate_def)

end
