(* ===== verification/Environment.thy ===== *)
theory Environment
  imports Go_Errors
begin

text \<open>
  The outside world of the program, one record per service, each extending the one
  before: what the Go runtime hands out, PostgreSQL, RabbitMQ, Redis. A component's
  operations work on the record of the services it uses and on every extension of it, so
  the same definitions run in a test harness with a database only and in the whole system.

  What a service decides is a function of the number of the call (the clock readings, the
  fresh identifiers, the calls that fail and with which error), so a statement about every
  such function covers every behaviour, and a run is still computable.
\<close>

section \<open>The Go runtime\<close>

record runtime =
  rt_now :: "nat \<Rightarrow> time" \<comment> \<open>\<open>time.Now()\<close>, reading by reading\<close>
  rt_reads :: nat
  rt_uuid :: "nat \<Rightarrow> uuid" \<comment> \<open>\<open>uuid.New()\<close>, call by call\<close>
  rt_uuids :: nat
  rt_uuid_text :: "uuid \<Rightarrow> string" \<comment> \<open>\<open>UUID.String()\<close>\<close>
  rt_done :: "nat \<Rightarrow> bool" \<comment> \<open>whether the \<open>k\<close>-th \<open>select\<close> finds \<open>ctx.Done()\<close> ready\<close>
  rt_selects :: nat
  rt_sleeps :: "duration list" \<comment> \<open>the timers that fired, latest first\<close>

definition time_Now :: "('a runtime_scheme, time) state" where
  "time_Now = State (\<lambda>s. (rt_now s (rt_reads s), s\<lparr>rt_reads := Suc (rt_reads s)\<rparr>))"

definition uuid_New :: "('a runtime_scheme, uuid) state" where
  "uuid_New = State (\<lambda>s. (rt_uuid s (rt_uuids s), s\<lparr>rt_uuids := Suc (rt_uuids s)\<rparr>))"

text \<open>
  \<open>select\<close> between \<open>ctx.Done()\<close> and \<open>time.After(d)\<close>: \<open>True\<close> when the context
  is done, else the timer fired after \<open>d\<close>.
\<close>

definition select_done_or_after :: "duration \<Rightarrow> ('a runtime_scheme, bool) state" where
  "select_done_or_after d =
     State (\<lambda>s. if rt_done s (rt_selects s)
                then (True, s\<lparr>rt_selects := Suc (rt_selects s)\<rparr>)
                else (False, s\<lparr>rt_selects := Suc (rt_selects s), rt_sleeps := d # rt_sleeps s\<rparr>))"

section \<open>PostgreSQL\<close>

text \<open>
  The two tables as lists of rows. \<open>pg_fault k\<close> is the error the \<open>k\<close>-th call to the
  driver reports instead of running its statement, \<open>pg_now k\<close> the value of \<open>NOW()\<close>
  for it, and \<open>pg_scan k\<close> ranks the rows by the order in which the engine visits them
  for it: SQL promises none beyond the \<open>ORDER BY\<close>. \<open>pg_cut k\<close> is the number of rows that
  arrive before the connection is lost, when the program itself steps through the result of
  the \<open>k\<close>-th query, \<open>None\<close> when all do. \<open>pg_rank\<close> is the collation of text. A driver error is a lost connection or a cancelled context, with its text, or the
  server's rejection of the statement, with its code.
\<close>

datatype driver_error = Lost string | Rejected string string

fun driver_go_error :: "driver_error \<Rightarrow> go_error" where
  "driver_go_error (Lost t) = OpaqueError t"
| "driver_go_error (Rejected code t) = PqError code t"

lemma driver_go_error_not [simp]:
  "\<not> errors_Is_ErrNoRows (driver_go_error e)" "errors_As_ValidationErr (driver_go_error e) = None"
  "errors_As_NotFoundErr (driver_go_error e) = None" "driver_go_error e \<noteq> ErrNoRows"
  by (cases e; simp)+

record pg = runtime +
  pg_notifications :: "notification list"
  pg_templates :: "template list"
  pg_fault :: "nat \<Rightarrow> driver_error option"
  pg_now :: "nat \<Rightarrow> time"
  pg_scan :: "nat \<Rightarrow> notification \<Rightarrow> int"
  pg_cut :: "nat \<Rightarrow> nat option"
  pg_rank :: "string \<Rightarrow> int"
  pg_calls :: nat

definition pg_call :: "('a pg_scheme, go_error option \<times> time) state" where
  "pg_call = State (\<lambda>s.
     ((map_option driver_go_error (pg_fault s (pg_calls s)), pg_now s (pg_calls s)),
     s\<lparr>pg_calls := Suc (pg_calls s)\<rparr>))"

text \<open>
  Running one statement outside a transaction: \<open>f now\<close> computes its result and the new
  table from the old one.
\<close>

definition pg_notifications_stmt ::
  "(time \<Rightarrow> notification list \<Rightarrow> (go_error + 'r) \<times> notification list) \<Rightarrow>
   ('a pg_scheme, go_error + 'r) state"
where
  "pg_notifications_stmt f = do {
     (fault, now) \<leftarrow> pg_call;
     case fault of
       Some e \<Rightarrow> return (Inl e)
     | None \<Rightarrow> State (\<lambda>s. let (r, rows) = f now (pg_notifications s)
                          in (r, s\<lparr>pg_notifications := rows\<rparr>))
   }"

definition pg_templates_stmt ::
  "(time \<Rightarrow> template list \<Rightarrow> (go_error + 'r) \<times> template list) \<Rightarrow>
   ('a pg_scheme, go_error + 'r) state"
where
  "pg_templates_stmt f = do {
     (fault, now) \<leftarrow> pg_call;
     case fault of
       Some e \<Rightarrow> return (Inl e)
     | None \<Rightarrow> State (\<lambda>s. let (r, rows) = f now (pg_templates s)
                          in (r, s\<lparr>pg_templates := rows\<rparr>))
   }"

section \<open>RabbitMQ\<close>

text \<open>
  A header table (\<open>amqp.Table\<close>) as its list of entries with distinct keys.
\<close>

datatype amqp_value = VInt int | VText string

type_synonym amqp_table = "(string \<times> amqp_value) list"

text \<open>
  The calls the program makes on its connection that returned no error, latest last, and
  the call numbers at which one returns an error. (The program asks for no publisher
  confirms, so this is what the client library reports, not what the broker stored.) Message bodies are the bytes the
  program hands over. \<open>amqp_trace k\<close> is what the trace propagator injects into the
  headers of the \<open>k\<close>-th message.
\<close>

record publishing =
  p_Exchange :: string
  p_RoutingKey :: string
  p_Persistent :: bool
  p_ContentType :: string
  p_Priority :: int
  p_MessageId :: string
  p_Headers :: amqp_table
  p_Body :: string

datatype amqp_call =
    ExchangeDeclare string string
  | QueueDeclare string amqp_table
  | QueueBind string string string \<comment> \<open>queue, routing key, exchange\<close>
  | Publish publishing
  | Ack nat \<comment> \<open>delivery tag\<close>
  | Nack nat bool \<comment> \<open>delivery tag, requeue\<close>
  | Dial string
  | OpenChannel
  | Qos int
  | Consume string string \<comment> \<open>queue, consumer tag\<close>
  | QueueDeclarePassive string
  | CloseChannel
  | CloseConnection

record amqp = pg +
  amqp_log :: "amqp_call list"
  amqp_fault :: "nat \<Rightarrow> go_error option"
  amqp_trace :: "nat \<Rightarrow> (string \<times> string) list"
  amqp_calls :: nat

definition amqp_do :: "amqp_call \<Rightarrow> ('a amqp_scheme, go_error option) state" where
  "amqp_do c = State (\<lambda>s.
     case amqp_fault s (amqp_calls s) of
       Some e \<Rightarrow> (Some e, s\<lparr>amqp_calls := Suc (amqp_calls s)\<rparr>)
     | None \<Rightarrow> (None, s\<lparr>amqp_calls := Suc (amqp_calls s), amqp_log := amqp_log s @ [c]\<rparr>))"

text \<open>Closing a channel or a connection, whose error the program ignores: it is gone either way.\<close>

definition amqp_close :: "amqp_call \<Rightarrow> ('a amqp_scheme, unit) state" where
  "amqp_close c = State (\<lambda>s.
     ((), s\<lparr>amqp_calls := Suc (amqp_calls s), amqp_log := amqp_log s @ [c]\<rparr>))"

section \<open>Redis and the web\<close>

text \<open>
  A Redis key holds a number and, once \<open>PEXPIRE\<close> was called on it, the time in milliseconds
  at which it expires. \<open>rd_clock k\<close> is the server's clock when the \<open>k\<close>-th script runs and
  \<open>rd_fault k\<close> the error of that call. \<open>web_reply k\<close> is what comes of the \<open>k\<close>-th HTTP
  request: the request fails, its body cannot be read, or a status and a body.
\<close>

type_synonym redis_keys = "string \<rightharpoonup> int \<times> int option"

record redis = amqp +
  rd_keys :: redis_keys
  rd_clock :: "nat \<Rightarrow> int"
  rd_fault :: "nat \<Rightarrow> go_error option"
  rd_calls :: nat

datatype http_outcome = NoResponse go_error | Unreadable go_error | Response int string

record web = redis +
  web_reply :: "nat \<Rightarrow> http_outcome"
  web_requests :: "(string \<times> string) list" \<comment> \<open>address and body of the requests made\<close>

definition http_Do :: "string \<Rightarrow> string \<Rightarrow> ('a web_scheme, http_outcome) state" where
  "http_Do url body = State (\<lambda>s.
     (web_reply s (length (web_requests s)), s\<lparr>web_requests := web_requests s @ [(url, body)]\<rparr>))"

section \<open>Running the primitives\<close>

lemmas env_defs = time_Now_def uuid_New_def select_done_or_after_def pg_call_def
  pg_notifications_stmt_def pg_templates_stmt_def amqp_do_def

lemma run_time_Now [simp]:
  "run_state time_Now s = (rt_now s (rt_reads s), s\<lparr>rt_reads := Suc (rt_reads s)\<rparr>)"
  by (simp add: time_Now_def)

lemma run_uuid_New [simp]:
  "run_state uuid_New s = (rt_uuid s (rt_uuids s), s\<lparr>rt_uuids := Suc (rt_uuids s)\<rparr>)"
  by (simp add: uuid_New_def)

lemma run_pg_call [simp]:
  "run_state pg_call s =
     ((map_option driver_go_error (pg_fault s (pg_calls s)), pg_now s (pg_calls s)),
      s\<lparr>pg_calls := Suc (pg_calls s)\<rparr>)"
  by (simp add: pg_call_def)

lemma run_pg_notifications_stmt:
  "run_state (pg_notifications_stmt f) s =
     (case pg_fault s (pg_calls s) of
        Some e \<Rightarrow> (Inl (driver_go_error e), s\<lparr>pg_calls := Suc (pg_calls s)\<rparr>)
      | None \<Rightarrow> let (r, rows) = f (pg_now s (pg_calls s)) (pg_notifications s)
                in (r, s\<lparr>pg_calls := Suc (pg_calls s), pg_notifications := rows\<rparr>))"
  by (simp add: pg_notifications_stmt_def Let_def split: option.split prod.split)

lemma run_pg_templates_stmt:
  "run_state (pg_templates_stmt f) s =
     (case pg_fault s (pg_calls s) of
        Some e \<Rightarrow> (Inl (driver_go_error e), s\<lparr>pg_calls := Suc (pg_calls s)\<rparr>)
      | None \<Rightarrow> let (r, rows) = f (pg_now s (pg_calls s)) (pg_templates s)
                in (r, s\<lparr>pg_calls := Suc (pg_calls s), pg_templates := rows\<rparr>))"
  by (simp add: pg_templates_stmt_def Let_def split: option.split prod.split)

lemma amqp_do_cases:
  "run_state (amqp_do c) s =
     (case amqp_fault s (amqp_calls s) of
       Some e \<Rightarrow> (Some e, s\<lparr>amqp_calls := Suc (amqp_calls s)\<rparr>)
     | None \<Rightarrow> (None, s\<lparr>amqp_calls := Suc (amqp_calls s), amqp_log := amqp_log s @ [c]\<rparr>))"
  by (simp add: amqp_do_def)

lemma run_amqp_close [simp]:
  "run_state (amqp_close c) s =
     ((), s\<lparr>amqp_calls := Suc (amqp_calls s), amqp_log := amqp_log s @ [c]\<rparr>)"
  by (simp add: amqp_close_def)

lemma run_http_Do [simp]:
  "run_state (http_Do url body) s =
     (web_reply s (length (web_requests s)), s\<lparr>web_requests := web_requests s @ [(url, body)]\<rparr>)"
  by (simp add: http_Do_def)

section \<open>What the primitives leave alone\<close>

lemma keeps_time_Now [frame]:
  "keeps pg_notifications time_Now" "keeps pg_templates time_Now" "keeps amqp_log time_Now"
  by (simp_all add: keeps_def)

lemma keeps_uuid_New [frame]:
  "keeps pg_notifications uuid_New" "keeps pg_templates uuid_New" "keeps amqp_log uuid_New"
  by (simp_all add: keeps_def)

lemma keeps_select [frame]:
  "keeps pg_notifications (select_done_or_after d)" "keeps pg_templates (select_done_or_after d)"
  "keeps amqp_log (select_done_or_after d)"
  by (simp_all add: keeps_def select_done_or_after_def)

lemma keeps_amqp_do [frame]:
  "keeps pg_notifications (amqp_do c)" "keeps pg_templates (amqp_do c)"
  by (simp_all add: keeps_def amqp_do_def split: option.split)

lemma keeps_pg_stmt [frame]:
  "keeps amqp_log (pg_notifications_stmt f)" "keeps pg_templates (pg_notifications_stmt f)"
  "keeps amqp_log (pg_templates_stmt g)" "keeps pg_notifications (pg_templates_stmt g)"
  by (simp_all add: keeps_def run_pg_notifications_stmt run_pg_templates_stmt Let_def
      split: option.split prod.split)

end
