(* ===== verification/Notification_Repo.thy ===== *)
theory Notification_Repo
  imports Environment
begin

text \<open>
  \<open>internal/repository/notification.go\<close>: the notification repository on PostgreSQL.
  Each SQL statement is the function on the table that its text describes, with the unique
  constraints and the update trigger of \<open>migrations/001_create_notifications.up.sql\<close>.
  \<open>notification_repo\<close> is the Go interface as a record of its methods, and the locale
  \<open>notification_store\<close> the contract the service, the scheduler and the consumer rely
  on.
\<close>

section \<open>The interface\<close>

record 's notification_repo =
  repo_Create :: "notification \<Rightarrow> ('s, go_error + notification) state"
  repo_CreateBatch :: "notification list \<Rightarrow> ('s, go_error + notification list) state"
  repo_GetByID :: "uuid \<Rightarrow> ('s, go_error + notification) state"
  repo_GetByBatchID :: "uuid \<Rightarrow> ('s, go_error + notification list) state"
  repo_GetByIdempotencyKey :: "string \<Rightarrow> ('s, go_error + notification) state"
  repo_UpdateStatus ::
    "uuid \<Rightarrow> status \<Rightarrow> string option \<Rightarrow> string option \<Rightarrow> ('s, go_error option) state"
  repo_IncrementRetry :: "uuid \<Rightarrow> string \<Rightarrow> ('s, go_error option) state"
  repo_Cancel :: "uuid \<Rightarrow> ('s, go_error option) state"
  repo_List :: "list_request \<Rightarrow> ('s, go_error + notification list \<times> int) state"
  repo_GetPending :: "int \<Rightarrow> ('s, go_error + notification list) state"
  repo_CountByStatus :: "('s, go_error + (status \<rightharpoonup> int)) state"
  repo_CountByChannelAndStatus ::
    "('s, go_error + (channel \<rightharpoonup> (status \<rightharpoonup> int))) state"

definition err_of :: "go_error + 'r \<Rightarrow> go_error option" where
  "err_of r = (case r of Inl e \<Rightarrow> Some e | Inr _ \<Rightarrow> None)"

lemma err_of_simps [simp]: "err_of (Inl e) = Some e" "err_of (Inr v) = None"
  by (simp_all add: err_of_def)

section \<open>Inserting\<close>

text \<open>
  The row an \<open>INSERT\<close> stores: the columns it names, the defaults of the others. The
  Go value gets the two time stamps back (\<open>RETURNING\<close>).
\<close>

definition stored_row :: "time \<Rightarrow> notification \<Rightarrow> notification" where
  "stored_row now n = n\<lparr>n_ProviderMsgID := None, n_RetryCount := 0, n_LastError := None,
     n_SentAt := None, n_CreatedAt := now, n_UpdatedAt := now\<rparr>"

definition stamped :: "time \<Rightarrow> notification \<Rightarrow> notification" where
  "stamped now n = n\<lparr>n_CreatedAt := now, n_UpdatedAt := now\<rparr>"

text \<open>The primary key and the partial unique index on \<open>idempotency_key\<close>.\<close>

definition row_conflict :: "notification \<Rightarrow> notification list \<Rightarrow> bool" where
  "row_conflict n rows \<longleftrightarrow>
     (\<exists>m \<in> set rows. n_ID m = n_ID n \<or>
        n_IdempotencyKey m \<noteq> None \<and> n_IdempotencyKey m = n_IdempotencyKey n)"

definition insert_row ::
  "notification \<Rightarrow> time \<Rightarrow> notification list \<Rightarrow> (go_error + notification) \<times> notification list"
where
  "insert_row n now rows =
     (if row_conflict n rows
      then (Inl (PqError uniqueViolation
              ''pq: duplicate key value violates unique constraint''), rows)
      else (Inr (stamped now n), rows @ [stored_row now n]))"

definition notificationRepo_Create ::
  "notification \<Rightarrow> ('a pg_scheme, go_error + notification) state"
where
  "notificationRepo_Create n = pg_notifications_stmt (insert_row n)"

text \<open>The loop of \<open>CreateBatch\<close>, on the table as the open transaction sees it.\<close>

fun insert_all ::
  "time \<Rightarrow> notification list \<Rightarrow> notification list \<Rightarrow>
     ('a pg_scheme, go_error + notification list \<times> notification list) state"
where
  "insert_all now [] rows = return (Inr ([], rows))"
| "insert_all now (n # ns) rows = do {
     (fault, _) \<leftarrow> pg_call;
     text \<leftarrow> gets rt_uuid_text;
     let ins = (case fault of Some e \<Rightarrow> (Inl e, rows) | None \<Rightarrow> insert_row n now rows);
     case ins of
       (Inl e, _) \<Rightarrow> return (Inl (Wrapped (''insert '' @ text (n_ID n)) e))
     | (Inr n', rows1) \<Rightarrow> do {
         r \<leftarrow> insert_all now ns rows1;
         return (case r of
             Inl e \<Rightarrow> Inl e
           | Inr (ns', rows2) \<Rightarrow> Inr (n' # ns', rows2))
       }
   }"

text \<open>
  \<open>BeginTxx\<close>, \<open>PreparexContext\<close>, the inserts and \<open>Commit\<close>; \<open>NOW()\<close> is the start
  of the transaction throughout, and a transaction that does not commit leaves the table
  as it was.
\<close>

definition notificationRepo_CreateBatch ::
  "notification list \<Rightarrow> ('a pg_scheme, go_error + notification list) state"
where
  "notificationRepo_CreateBatch ns = do {
     (begun, now) \<leftarrow> pg_call;
     case begun of
       Some e \<Rightarrow> return (Inl (Wrapped ''begin tx'' e))
     | None \<Rightarrow> do {
         (prepared, _) \<leftarrow> pg_call;
         case prepared of
           Some e \<Rightarrow> return (Inl (Wrapped ''prepare'' e))
         | None \<Rightarrow> do {
             rows \<leftarrow> gets pg_notifications;
             r \<leftarrow> insert_all now ns rows;
             case r of
               Inl e \<Rightarrow> return (Inl e)
             | Inr (ns', rows') \<Rightarrow> do {
                 (committed, _) \<leftarrow> pg_call;
                 case committed of
                   Some e \<Rightarrow> return (Inl e)
                 | None \<Rightarrow> do {
                     modify (\<lambda>s. s\<lparr>pg_notifications := rows'\<rparr>);
                     return (Inr ns')
                   }
               }
           }
       }
   }"

section \<open>Reading\<close>

definition select_one ::
  "(notification \<Rightarrow> bool) \<Rightarrow> time \<Rightarrow> notification list \<Rightarrow> (go_error + notification) \<times> notification list"
where
  "select_one p now rows =
     ((case filter p rows of [] \<Rightarrow> Inl ErrNoRows | n # _ \<Rightarrow> Inr n), rows)"

definition notificationRepo_GetByID :: "uuid \<Rightarrow> ('a pg_scheme, go_error + notification) state" where
  "notificationRepo_GetByID i = pg_notifications_stmt (select_one (\<lambda>n. n_ID n = i))"

definition notificationRepo_GetByIdempotencyKey ::
  "string \<Rightarrow> ('a pg_scheme, go_error + notification) state"
where
  "notificationRepo_GetByIdempotencyKey key =
     pg_notifications_stmt (select_one (\<lambda>n. n_IdempotencyKey n = Some key))"

text \<open>
  \<open>ORDER BY\<close> sorts the rows the scan visits; rows with equal keys stay in the order of
  the visit.
\<close>

definition select_sorted ::
  "(notification \<Rightarrow> int) \<Rightarrow> (notification \<Rightarrow> int) \<Rightarrow> (notification \<Rightarrow> bool) \<Rightarrow>
     notification list \<Rightarrow> notification list"
where
  "select_sorted scan key p rows = sort_key key (filter p (sort_key scan rows))"

definition notificationRepo_GetByBatchID ::
  "uuid \<Rightarrow> ('a pg_scheme, go_error + notification list) state"
where
  "notificationRepo_GetByBatchID i = do {
     scan \<leftarrow> gets (\<lambda>s. pg_scan s (pg_calls s));
     pg_notifications_stmt (\<lambda>now rows.
       (Inr (select_sorted scan n_CreatedAt (\<lambda>n. n_BatchID n = Some i) rows), rows))
   }"

definition due :: "time \<Rightarrow> notification \<Rightarrow> bool" where
  "due now n \<longleftrightarrow> n_Status n = StatusPending \<and>
     (case n_ScheduledAt n of None \<Rightarrow> True | Some t \<Rightarrow> t \<le> now)"

definition notificationRepo_GetPending ::
  "int \<Rightarrow> ('a pg_scheme, go_error + notification list) state"
where
  "notificationRepo_GetPending limit = do {
     scan \<leftarrow> gets (\<lambda>s. pg_scan s (pg_calls s));
     pg_notifications_stmt (\<lambda>now rows.
       (if limit < 0 then Inl (PqError ''2201W'' ''pq: LIMIT must not be negative'')
        else Inr (take (nat limit) (select_sorted scan n_CreatedAt (due now) rows)), rows))
   }"

section \<open>Updating\<close>

text \<open>
  An \<open>UPDATE\<close> maps the rows its \<open>WHERE\<close> clause selects; the trigger sets
  \<open>updated_at\<close>. The result is the number of rows affected.
\<close>

definition update_rows ::
  "(notification \<Rightarrow> bool) \<Rightarrow> (time \<Rightarrow> notification \<Rightarrow> notification) \<Rightarrow> time \<Rightarrow> notification list \<Rightarrow>
     (go_error + nat) \<times> notification list"
where
  "update_rows p f now rows =
     (Inr (length (filter p rows)),
      map (\<lambda>n. if p n then (f now n)\<lparr>n_UpdatedAt := now\<rparr> else n) rows)"

definition set_status ::
  "status \<Rightarrow> string option \<Rightarrow> string option \<Rightarrow> time \<Rightarrow> notification \<Rightarrow> notification"
where
  "set_status st providerMsgID lastError now n =
     (let n1 = n\<lparr>n_Status := st,
                 n_ProviderMsgID := (case providerMsgID of None \<Rightarrow> n_ProviderMsgID n | Some p \<Rightarrow> Some p),
                 n_LastError := lastError\<rparr>
      in if st = StatusSent then n1\<lparr>n_SentAt := Some now\<rparr> else n1)"

definition notificationRepo_UpdateStatus ::
  "uuid \<Rightarrow> status \<Rightarrow> string option \<Rightarrow> string option \<Rightarrow> ('a pg_scheme, go_error option) state"
where
  "notificationRepo_UpdateStatus i st providerMsgID lastError = do {
     r \<leftarrow> pg_notifications_stmt
            (update_rows (\<lambda>n. n_ID n = i) (set_status st providerMsgID lastError));
     text \<leftarrow> gets rt_uuid_text;
     return (case r of
         Inl e \<Rightarrow> Some e
       | Inr affected \<Rightarrow>
           if affected = 0 then Some (OpaqueError (''notification '' @ text i @ '' not found''))
           else None)
   }"

text \<open>The column \<open>retry_count\<close> is a 32-bit integer; going past it is an error.\<close>

definition bump_retry :: "string \<Rightarrow> time \<Rightarrow> notification \<Rightarrow> notification" where
  "bump_retry lastError now n =
     n\<lparr>n_RetryCount := n_RetryCount n + 1, n_LastError := Some lastError\<rparr>"

definition increment_rows ::
  "uuid \<Rightarrow> string \<Rightarrow> time \<Rightarrow> notification list \<Rightarrow> (go_error + nat) \<times> notification list"
where
  "increment_rows i lastError now rows =
     (if \<exists>n \<in> set rows. n_ID n = i \<and> n_RetryCount n \<ge> 2147483647
      then (Inl (PqError ''22003'' ''pq: integer out of range''), rows)
      else update_rows (\<lambda>n. n_ID n = i) (bump_retry lastError) now rows)"

definition notificationRepo_IncrementRetry ::
  "uuid \<Rightarrow> string \<Rightarrow> ('a pg_scheme, go_error option) state"
where
  "notificationRepo_IncrementRetry i lastError = do {
     r \<leftarrow> pg_notifications_stmt (increment_rows i lastError);
     return (err_of r)
   }"

definition cancellable :: "notification \<Rightarrow> bool" where
  "cancellable n \<longleftrightarrow> n_Status n \<in> {StatusPending, StatusQueued}"

definition notificationRepo_Cancel :: "uuid \<Rightarrow> ('a pg_scheme, go_error option) state" where
  "notificationRepo_Cancel i = do {
     r \<leftarrow> pg_notifications_stmt
            (update_rows (\<lambda>n. n_ID n = i \<and> cancellable n) (\<lambda>now n. n\<lparr>n_Status := StatusCancelled\<rparr>));
     text \<leftarrow> gets rt_uuid_text;
     return (case r of
         Inl e \<Rightarrow> Some e
       | Inr affected \<Rightarrow>
           if affected = 0
           then Some (OpaqueError (''notification '' @ text i @ '' not found or not cancellable''))
           else None)
   }"

end
