(* ===== verification/Notification_List.thy ===== *)
theory Notification_List
  imports Notification_Repo
begin

text \<open>
  \<open>List\<close>, \<open>CountByStatus\<close> and \<open>CountByChannelAndStatus\<close> of
  \<open>internal/repository/notification.go\<close>, and the whole repository as a value of the
  interface. \<open>List\<close> builds its SQL text at run time: the model builds the same
  conditions, placeholders and arguments, and runs the query by looking each placeholder up
  in the arguments, so a misnumbered placeholder would select the wrong rows.
\<close>

section \<open>Building the query\<close>

datatype column = ColStatus | ColChannel | ColBatchID | ColCreatedAt

datatype cmp_op = OpEq | OpGe | OpLe

datatype sql_arg = ArgText string | ArgUUID uuid | ArgTime time | ArgInt int

datatype condition = Condition column cmp_op nat \<comment> \<open>the number of its placeholder\<close>

type_synonym builder = "condition list \<times> sql_arg list \<times> nat"

definition add_condition ::
  "column \<Rightarrow> cmp_op \<Rightarrow> ('v \<Rightarrow> sql_arg) \<Rightarrow> 'v option \<Rightarrow> builder \<Rightarrow> builder"
where
  "add_condition c op arg v b =
     (case b of (conditions, args, idx) \<Rightarrow>
       (case v of
          None \<Rightarrow> (conditions, args, idx)
        | Some x \<Rightarrow> (conditions @ [Condition c op idx], args @ [arg x], idx + 1)))"

definition list_builder :: "list_request \<Rightarrow> builder" where
  "list_builder r =
     (let b0 = ([], [], 1);
          b1 = add_condition ColStatus OpEq ArgText (l_Status r) b0;
          b2 = add_condition ColChannel OpEq ArgText (l_Channel r) b1;
          b3 = add_condition ColBatchID OpEq ArgUUID (l_BatchID r) b2;
          b4 = add_condition ColCreatedAt OpGe ArgTime (l_StartDate r) b3
      in add_condition ColCreatedAt OpLe ArgTime (l_EndDate r) b4)"

fun column_name :: "column \<Rightarrow> string" where
  "column_name ColStatus = ''status''"
| "column_name ColChannel = ''channel''"
| "column_name ColBatchID = ''batch_id''"
| "column_name ColCreatedAt = ''created_at''"

fun op_text :: "cmp_op \<Rightarrow> string" where
  "op_text OpEq = '' = ''"
| "op_text OpGe = '' >= ''"
| "op_text OpLe = '' <= ''"

fun show_condition :: "condition \<Rightarrow> string" where
  "show_condition (Condition c op k) = column_name c @ op_text op @ ''$'' @ itoa (int k)"

fun strings_Join :: "string list \<Rightarrow> string \<Rightarrow> string" where
  "strings_Join [] sep = []"
| "strings_Join [x] sep = x"
| "strings_Join (x # xs) sep = x @ sep @ strings_Join xs sep"

definition where_text :: "condition list \<Rightarrow> string" where
  "where_text conditions =
     (if length conditions > 0
      then ''WHERE '' @ strings_Join (map show_condition conditions) '' AND '' else [])"

definition list_sql :: "list_request \<Rightarrow> string" where
  "list_sql r =
     (case list_builder r of (conditions, _, idx) \<Rightarrow>
        ''SELECT * FROM notifications '' @ where_text conditions @
        '' ORDER BY created_at DESC LIMIT $'' @ itoa (int idx) @ '' OFFSET $'' @ itoa (int (idx + 1)))"

section \<open>Running it\<close>

text \<open>The value of a column in a row, \<open>None\<close> for NULL, which no comparison selects.\<close>

fun column_value :: "column \<Rightarrow> notification \<Rightarrow> sql_arg option" where
  "column_value ColStatus n = Some (ArgText (n_Status n))"
| "column_value ColChannel n = Some (ArgText (n_Channel n))"
| "column_value ColBatchID n = map_option ArgUUID (n_BatchID n)"
| "column_value ColCreatedAt n = Some (ArgTime (n_CreatedAt n))"

fun compare_values :: "cmp_op \<Rightarrow> sql_arg \<Rightarrow> sql_arg \<Rightarrow> bool" where
  "compare_values OpEq v a \<longleftrightarrow> v = a"
| "compare_values OpGe (ArgTime v) (ArgTime a) \<longleftrightarrow> v \<ge> a"
| "compare_values OpLe (ArgTime v) (ArgTime a) \<longleftrightarrow> v \<le> a"
| "compare_values _ _ _ \<longleftrightarrow> False"

definition arg_at :: "sql_arg list \<Rightarrow> nat \<Rightarrow> sql_arg option" where
  "arg_at args k = (if 1 \<le> k \<and> k \<le> length args then Some (args ! (k - 1)) else None)"

fun eval_condition :: "sql_arg list \<Rightarrow> notification \<Rightarrow> condition \<Rightarrow> bool" where
  "eval_condition args n (Condition c op k) \<longleftrightarrow>
     (case (column_value c n, arg_at args k) of
        (Some v, Some a) \<Rightarrow> compare_values op v a
      | _ \<Rightarrow> False)"

definition list_where :: "condition list \<Rightarrow> sql_arg list \<Rightarrow> notification \<Rightarrow> bool" where
  "list_where conditions args n \<longleftrightarrow> list_all (eval_condition args n) conditions"

definition list_page ::
  "(notification \<Rightarrow> int) \<Rightarrow> condition list \<Rightarrow> sql_arg list \<Rightarrow> nat \<Rightarrow>
     notification list \<Rightarrow> go_error + notification list"
where
  "list_page scan conditions args idx rows =
     (case (arg_at args idx, arg_at args (idx + 1)) of
        (Some (ArgInt limit), Some (ArgInt offset)) \<Rightarrow>
          if limit < 0 then Inl (PqError ''2201W'' ''pq: LIMIT must not be negative'')
          else if offset < 0 then Inl (PqError ''2201X'' ''pq: OFFSET must not be negative'')
          else Inr (take (nat limit) (drop (nat offset)
            (select_sorted scan (\<lambda>n. - n_CreatedAt n) (list_where conditions args) rows)))
      | _ \<Rightarrow> Inl (PqError ''42601'' ''pq: syntax error''))"

definition notificationRepo_List ::
  "list_request \<Rightarrow> ('a pg_scheme, go_error + notification list \<times> int) state"
where
  "notificationRepo_List filter0 = do {
     let f = Normalize filter0;
     let (conditions, args, idx) = list_builder f;
     total \<leftarrow> pg_notifications_stmt (\<lambda>now rows.
       (Inr (int (length (filter (list_where conditions args) rows))), rows));
     case total of
       Inl e \<Rightarrow> return (Inl e)
     | Inr n \<Rightarrow> do {
         let offset = wrap64 (wrap64 (l_Page f - 1) * l_PageSize f);
         let args' = args @ [ArgInt (l_PageSize f), ArgInt offset];
         scan \<leftarrow> gets (\<lambda>s. pg_scan s (pg_calls s));
         ns \<leftarrow> pg_notifications_stmt (\<lambda>now rows. (list_page scan conditions args' idx rows, rows));
         return (case ns of Inl e \<Rightarrow> Inl e | Inr xs \<Rightarrow> Inr (xs, n))
       }
   }"

section \<open>Counting\<close>

text \<open>\<open>SELECT key, COUNT(*) ... GROUP BY key\<close>: one row per value of the key.\<close>

definition group_count :: "(notification \<Rightarrow> 'k) \<Rightarrow> notification list \<Rightarrow> ('k \<times> int) list" where
  "group_count key rows =
     map (\<lambda>k. (k, int (length (filter (\<lambda>n. key n = k) rows)))) (remdups (map key rows))"

text \<open>The rows for which \<open>rows.Next()\<close> is true: the loops end without asking \<open>rows.Err()\<close> whether
  these are all.\<close>

definition arrived :: "nat option \<Rightarrow> 'r list \<Rightarrow> 'r list" where
  "arrived lost rs = (case lost of None \<Rightarrow> rs | Some k \<Rightarrow> take k rs)"

lemma arrived_None [simp]: "arrived None rs = rs"
  by (simp add: arrived_def)

fun collect_status :: "(status \<times> int) list \<Rightarrow> (status \<rightharpoonup> int) \<Rightarrow> (status \<rightharpoonup> int)" where
  "collect_status [] result = result"
| "collect_status ((s, c) # rest) result = collect_status rest (result(s \<mapsto> c))"

definition notificationRepo_CountByStatus :: "('a pg_scheme, go_error + (status \<rightharpoonup> int)) state" where
  "notificationRepo_CountByStatus = do {
     lost \<leftarrow> gets (\<lambda>s. pg_cut s (pg_calls s));
     pg_notifications_stmt (\<lambda>now rows.
       (Inr (collect_status (arrived lost (group_count n_Status rows)) Map.empty), rows))
   }"

fun collect_channel_status ::
  "((channel \<times> status) \<times> int) list \<Rightarrow> (channel \<rightharpoonup> (status \<rightharpoonup> int)) \<Rightarrow>
     (channel \<rightharpoonup> (status \<rightharpoonup> int))"
where
  "collect_channel_status [] result = result"
| "collect_channel_status (((ch, s), c) # rest) result =
     (let result1 = (if result ch = None then result(ch \<mapsto> Map.empty) else result)
      in collect_channel_status rest (result1(ch \<mapsto> (the (result1 ch))(s \<mapsto> c))))"

definition notificationRepo_CountByChannelAndStatus ::
  "('a pg_scheme, go_error + (channel \<rightharpoonup> (status \<rightharpoonup> int))) state"
where
  "notificationRepo_CountByChannelAndStatus = do {
     lost \<leftarrow> gets (\<lambda>s. pg_cut s (pg_calls s));
     pg_notifications_stmt (\<lambda>now rows.
       (Inr (collect_channel_status (arrived lost (group_count (\<lambda>n. (n_Channel n, n_Status n)) rows)) Map.empty),
        rows))
   }"

section \<open>The repository as a value of the interface\<close>

definition notificationRepo :: "('a pg_scheme) notification_repo" where
  "notificationRepo =
     \<lparr>repo_Create = notificationRepo_Create,
      repo_CreateBatch = notificationRepo_CreateBatch,
      repo_GetByID = notificationRepo_GetByID,
      repo_GetByBatchID = notificationRepo_GetByBatchID,
      repo_GetByIdempotencyKey = notificationRepo_GetByIdempotencyKey,
      repo_UpdateStatus = notificationRepo_UpdateStatus,
      repo_IncrementRetry = notificationRepo_IncrementRetry,
      repo_Cancel = notificationRepo_Cancel,
      repo_List = notificationRepo_List,
      repo_GetPending = notificationRepo_GetPending,
      repo_CountByStatus = notificationRepo_CountByStatus,
      repo_CountByChannelAndStatus = notificationRepo_CountByChannelAndStatus\<rparr>"

lemma notificationRepo_simps [simp]:
  "repo_Create notificationRepo = notificationRepo_Create"
  "repo_CreateBatch notificationRepo = notificationRepo_CreateBatch"
  "repo_GetByID notificationRepo = notificationRepo_GetByID"
  "repo_GetByBatchID notificationRepo = notificationRepo_GetByBatchID"
  "repo_GetByIdempotencyKey notificationRepo = notificationRepo_GetByIdempotencyKey"
  "repo_UpdateStatus notificationRepo = notificationRepo_UpdateStatus"
  "repo_IncrementRetry notificationRepo = notificationRepo_IncrementRetry"
  "repo_Cancel notificationRepo = notificationRepo_Cancel"
  "repo_List notificationRepo = notificationRepo_List"
  "repo_GetPending notificationRepo = notificationRepo_GetPending"
  "repo_CountByStatus notificationRepo = notificationRepo_CountByStatus"
  "repo_CountByChannelAndStatus notificationRepo = notificationRepo_CountByChannelAndStatus"
  by (simp_all add: notificationRepo_def)

end
