(* ===== verification/Notification_Store.thy ===== *)
theory Notification_Store
  imports Notification_List
begin

text \<open>
  The contract of the notification repository: what each method promises its callers about
  the table, as a relation between the rows before, the result and the rows after. The
  locale \<open>notification_store\<close> collects the laws for any repository, with the facts the
  clients use derived once; the interpretation shows that the PostgreSQL repository keeps
  them. The properties of the repository itself follow.
\<close>

section \<open>The specification of each method\<close>

text \<open>The constraints of the table: identifiers and idempotency keys are unique.\<close>

definition key_list :: "notification list \<Rightarrow> string list" where
  "key_list rows = List.map_filter n_IdempotencyKey rows"

definition store_ok :: "notification list \<Rightarrow> bool" where
  "store_ok rows \<longleftrightarrow> distinct (map n_ID rows) \<and> distinct (key_list rows)"

definition create_spec ::
  "notification \<Rightarrow> notification list \<Rightarrow> go_error + notification \<Rightarrow> notification list \<Rightarrow> bool"
where
  "create_spec n rows r rows' \<longleftrightarrow>
     (case r of
        Inl e \<Rightarrow> rows' = rows
      | Inr n' \<Rightarrow> (\<exists>t. n' = stamped t n \<and> rows' = rows @ [stored_row t n]) \<and> \<not> row_conflict n rows)"

definition create_batch_spec ::
  "notification list \<Rightarrow> notification list \<Rightarrow> go_error + notification list \<Rightarrow> notification list \<Rightarrow> bool"
where
  "create_batch_spec ns rows r rows' \<longleftrightarrow>
     (case r of
        Inl e \<Rightarrow> rows' = rows
      | Inr ns' \<Rightarrow>
          (\<exists>t. ns' = map (stamped t) ns \<and> rows' = rows @ map (stored_row t) ns) \<and>
          (store_ok rows \<longrightarrow> store_ok rows'))"

definition lookup_spec ::
  "(notification \<Rightarrow> bool) \<Rightarrow> notification list \<Rightarrow> go_error + notification \<Rightarrow> notification list \<Rightarrow> bool"
where
  "lookup_spec p rows r rows' \<longleftrightarrow> rows' = rows \<and>
     (case r of
        Inl e \<Rightarrow> errors_Is_ErrNoRows e \<longrightarrow> (\<forall>m \<in> set rows. \<not> p m)
      | Inr n \<Rightarrow> n \<in> set rows \<and> p n)"

definition updated ::
  "(notification \<Rightarrow> bool) \<Rightarrow> (time \<Rightarrow> notification \<Rightarrow> notification) \<Rightarrow> time \<Rightarrow> notification list \<Rightarrow>
     notification list"
where
  "updated p f t rows = map (\<lambda>n. if p n then (f t n)\<lparr>n_UpdatedAt := t\<rparr> else n) rows"

definition update_spec ::
  "(notification \<Rightarrow> bool) \<Rightarrow> (time \<Rightarrow> notification \<Rightarrow> notification) \<Rightarrow> notification list \<Rightarrow>
     go_error option \<Rightarrow> notification list \<Rightarrow> bool"
where
  "update_spec p f rows r rows' \<longleftrightarrow>
     (case r of
        Some e \<Rightarrow> rows' = rows
      | None \<Rightarrow> (\<exists>t. rows' = updated p f t rows))"

definition pending_spec ::
  "int \<Rightarrow> notification list \<Rightarrow> go_error + notification list \<Rightarrow> notification list \<Rightarrow> bool"
where
  "pending_spec limit rows r rows' \<longleftrightarrow> rows' = rows \<and>
     (case r of
        Inl e \<Rightarrow> True
      | Inr ns \<Rightarrow> \<exists>t. mset ns \<subseteq># mset (filter (due t) rows) \<and> sorted (map n_CreatedAt ns) \<and>
          length ns = min (nat limit) (length (filter (due t) rows)) \<and>
          (\<forall>m \<in> set rows. due t m \<longrightarrow> m \<in> set ns \<or> (\<forall>n \<in> set ns. n_CreatedAt n \<le> n_CreatedAt m)))"

lemmas spec_defs = create_spec_def create_batch_spec_def lookup_spec_def update_spec_def
  pending_spec_def

locale notification_store =
  fixes repo :: "'s notification_repo"
    and rows :: "'s \<Rightarrow> notification list"
  assumes create:
      "run_state (repo_Create repo n) s = (r, s') \<Longrightarrow> create_spec n (rows s) r (rows s')"
    and create_batch:
      "run_state (repo_CreateBatch repo ns) s = (rb, s') \<Longrightarrow>
         create_batch_spec ns (rows s) rb (rows s')"
    and get_by_id:
      "run_state (repo_GetByID repo i) s = (r, s') \<Longrightarrow>
         lookup_spec (\<lambda>n. n_ID n = i) (rows s) r (rows s')"
    and get_by_key:
      "run_state (repo_GetByIdempotencyKey repo k) s = (r, s') \<Longrightarrow>
         lookup_spec (\<lambda>n. n_IdempotencyKey n = Some k) (rows s) r (rows s')"
    and update_status:
      "run_state (repo_UpdateStatus repo i st p l) s = (ro, s') \<Longrightarrow>
         update_spec (\<lambda>n. n_ID n = i) (set_status st p l) (rows s) ro (rows s')"
    and increment_retry:
      "run_state (repo_IncrementRetry repo i m) s = (ro, s') \<Longrightarrow>
         update_spec (\<lambda>n. n_ID n = i) (bump_retry m) (rows s) ro (rows s')"
    and cancel:
      "run_state (repo_Cancel repo i) s = (ro, s') \<Longrightarrow>
         update_spec (\<lambda>n. n_ID n = i \<and> cancellable n)
           (\<lambda>t n. n\<lparr>n_Status := StatusCancelled\<rparr>) (rows s) ro (rows s')"
    and get_pending:
      "run_state (repo_GetPending repo limit) s = (rb, s') \<Longrightarrow>
         pending_spec limit (rows s) rb (rows s')"
begin

lemma update_cases:
  assumes "update_spec p f rs r rs'"
  obtains "rs' = rs" | t where "rs' = updated p f t rs"
  using assms by (auto simp: update_spec_def split: option.splits)

lemma keeps_reads [frame]:
  "keeps rows (repo_GetByID repo i)" "keeps rows (repo_GetByIdempotencyKey repo k)"
  "keeps rows (repo_GetPending repo limit)"
  using get_by_id get_by_key get_pending
  by (auto simp: keeps_def lookup_spec_def pending_spec_def) (metis prod.collapse)+

end

section \<open>Updates keep the constraints\<close>

lemma updated_length [simp]: "length (updated p f t rows) = length rows"
  by (simp add: updated_def)

lemma update_rows_eq: "update_rows p f t rows = (Inr (length (filter p rows)), updated p f t rows)"
  by (simp add: update_rows_def updated_def)

lemma updated_none: "filter p rows = [] \<Longrightarrow> updated p f t rows = rows"
  unfolding updated_def filter_empty_conv by (rule map_idI) simp

lemma map_updated:
  assumes "\<And>t n. g (f t n) = g n" "\<And>t n. g (n\<lparr>n_UpdatedAt := t\<rparr>) = g n"
  shows "map g (updated p f t rows) = map g rows"
  using assms by (simp add: updated_def)

lemma set_status_keeps [simp]:
  "n_ID (set_status st p l t n) = n_ID n" "n_BatchID (set_status st p l t n) = n_BatchID n"
  "n_IdempotencyKey (set_status st p l t n) = n_IdempotencyKey n"
  "n_Recipient (set_status st p l t n) = n_Recipient n"
  "n_Channel (set_status st p l t n) = n_Channel n"
  "n_Content (set_status st p l t n) = n_Content n"
  "n_Subject (set_status st p l t n) = n_Subject n"
  "n_Priority (set_status st p l t n) = n_Priority n"
  "n_RetryCount (set_status st p l t n) = n_RetryCount n"
  "n_MaxRetries (set_status st p l t n) = n_MaxRetries n"
  "n_ScheduledAt (set_status st p l t n) = n_ScheduledAt n"
  "n_CreatedAt (set_status st p l t n) = n_CreatedAt n"
  "n_Status (set_status st p l t n) = st"
  by (simp_all add: set_status_def Let_def)

lemma stored_row_keeps [simp]:
  "n_ID (stored_row t n) = n_ID n" "n_IdempotencyKey (stored_row t n) = n_IdempotencyKey n"
  "n_Status (stored_row t n) = n_Status n" "n_ScheduledAt (stored_row t n) = n_ScheduledAt n"
  "n_Content (stored_row t n) = n_Content n" "n_Recipient (stored_row t n) = n_Recipient n"
  "n_Channel (stored_row t n) = n_Channel n" "n_Subject (stored_row t n) = n_Subject n"
  "n_Priority (stored_row t n) = n_Priority n" "n_BatchID (stored_row t n) = n_BatchID n"
  "n_MaxRetries (stored_row t n) = n_MaxRetries n" "n_RetryCount (stored_row t n) = 0"
  "n_CreatedAt (stored_row t n) = t" "n_UpdatedAt (stored_row t n) = t"
  by (simp_all add: stored_row_def)

lemma stamped_keeps [simp]:
  "n_ID (stamped t n) = n_ID n" "n_IdempotencyKey (stamped t n) = n_IdempotencyKey n"
  "n_Status (stamped t n) = n_Status n" "n_ScheduledAt (stamped t n) = n_ScheduledAt n"
  "n_Content (stamped t n) = n_Content n" "n_Recipient (stamped t n) = n_Recipient n"
  "n_Channel (stamped t n) = n_Channel n" "n_Subject (stamped t n) = n_Subject n"
  "n_Priority (stamped t n) = n_Priority n" "n_BatchID (stamped t n) = n_BatchID n"
  "n_MaxRetries (stamped t n) = n_MaxRetries n" "n_RetryCount (stamped t n) = n_RetryCount n"
  by (simp_all add: stamped_def)

lemma key_list_updated:
  assumes "\<And>t n. n_IdempotencyKey (f t n) = n_IdempotencyKey n"
  shows "key_list (updated p f t rows) = key_list rows"
  using assms
  by (induction rows) (simp_all add: key_list_def updated_def map_filter_simps split: option.split)

lemma store_ok_updated:
  assumes "\<And>t n. n_ID (f t n) = n_ID n" "\<And>t n. n_IdempotencyKey (f t n) = n_IdempotencyKey n"
  shows "store_ok (updated p f t rows) = store_ok rows"
  using assms by (simp add: store_ok_def key_list_updated map_updated)

lemma set_key_list: "k \<in> set (key_list rows) \<longleftrightarrow> (\<exists>m \<in> set rows. n_IdempotencyKey m = Some k)"
  by (auto simp: key_list_def List.map_filter_def image_iff)

lemma key_list_append: "key_list (xs @ ys) = key_list xs @ key_list ys"
  by (simp add: key_list_def List.map_filter_def)

lemma store_ok_insert:
  assumes "store_ok rows" "\<not> row_conflict n rows"
  shows "store_ok (rows @ [stored_row t n])"
proof -
  have "n_ID n \<notin> n_ID ` set rows"
    using assms(2) by (auto simp: row_conflict_def)
  moreover have "set (key_list rows) \<inter> set (key_list [stored_row t n]) = {}"
    using assms(2) by (fastforce simp: row_conflict_def set_key_list)
  moreover have "distinct (key_list [stored_row t n])"
    by (simp add: key_list_def map_filter_simps split: option.split)
  ultimately show ?thesis
    using assms(1) by (auto simp: store_ok_def key_list_append)
qed

section \<open>The PostgreSQL repository keeps the contract\<close>

lemma run_Create:
  "run_state (notificationRepo_Create n) s = (r, s') \<Longrightarrow>
     create_spec n (pg_notifications s) r (pg_notifications s')"
  by (auto simp: notificationRepo_Create_def run_pg_notifications_stmt insert_row_def
      create_spec_def Let_def split: option.splits if_splits)

lemma insert_all_spec:
  "run_state (insert_all t ns rs) s = (r, s') \<Longrightarrow>
     pg_notifications s' = pg_notifications s \<and>
     (case r of Inl e \<Rightarrow> True
      | Inr (ns', rs') \<Rightarrow> ns' = map (stamped t) ns \<and> rs' = rs @ map (stored_row t) ns \<and>
          (store_ok rs \<longrightarrow> store_ok rs'))"
proof (induction ns arbitrary: rs s r s')
  case (Cons n ns)
  show ?case
  proof (cases "pg_fault s (pg_calls s)")
    case (Some e)
    with Cons.prems show ?thesis by auto
  next
    case None
    show ?thesis
    proof (cases "row_conflict n rs")
      case True
      with None Cons.prems show ?thesis by (auto simp: insert_row_def)
    next
      case False
      let ?s = "s\<lparr>pg_calls := Suc (pg_calls s)\<rparr>" and ?rs = "rs @ [stored_row t n]"
      obtain q s1 where run: "run_state (insert_all t ns ?rs) ?s = (q, s1)"
        by (cases "run_state (insert_all t ns ?rs) ?s")
      with None False Cons.prems
      have "s' = s1" "r = (case q of Inl e \<Rightarrow> Inl e | Inr (ns', rs') \<Rightarrow> Inr (stamped t n # ns', rs'))"
        by (auto simp: insert_row_def)
      then show ?thesis
        using Cons.IH [OF run] store_ok_insert [OF _ False, of t]
        by (auto split: sum.splits)
    qed
  qed
qed simp

lemma run_CreateBatch:
  "run_state (notificationRepo_CreateBatch ns) s = (r, s') \<Longrightarrow>
     create_batch_spec ns (pg_notifications s) r (pg_notifications s')"
  by (auto simp: notificationRepo_CreateBatch_def create_batch_spec_def
      split: option.splits sum.splits prod.splits dest!: insert_all_spec)

lemma run_select_one:
  "run_state (pg_notifications_stmt (select_one p)) s = (r, s') \<Longrightarrow>
     lookup_spec p (pg_notifications s) r (pg_notifications s')"
  by (auto simp: run_pg_notifications_stmt select_one_def lookup_spec_def Let_def filter_empty_conv
      filter_eq_Cons_iff split: option.splits list.splits)

lemma run_UpdateStatus:
  "run_state (notificationRepo_UpdateStatus i st p l) s = (r, s') \<Longrightarrow>
     update_spec (\<lambda>n. n_ID n = i) (set_status st p l) (pg_notifications s) r (pg_notifications s')"
  by (auto simp: notificationRepo_UpdateStatus_def run_pg_notifications_stmt update_rows_eq
      update_spec_def updated_none Let_def split: option.splits if_splits)

lemma run_IncrementRetry:
  "run_state (notificationRepo_IncrementRetry i m) s = (r, s') \<Longrightarrow>
     update_spec (\<lambda>n. n_ID n = i) (bump_retry m) (pg_notifications s) r (pg_notifications s')"
  by (auto simp: notificationRepo_IncrementRetry_def run_pg_notifications_stmt update_rows_eq
      increment_rows_def update_spec_def Let_def split: option.splits if_splits)

lemma run_Cancel:
  "run_state (notificationRepo_Cancel i) s = (r, s') \<Longrightarrow>
     update_spec (\<lambda>n. n_ID n = i \<and> cancellable n) (\<lambda>t n. n\<lparr>n_Status := StatusCancelled\<rparr>)
       (pg_notifications s) r (pg_notifications s')"
  by (auto simp: notificationRepo_Cancel_def run_pg_notifications_stmt update_rows_eq
      update_spec_def updated_none Let_def split: option.splits if_splits)

lemma select_sorted_mset: "mset (select_sorted v k p rows) = mset (filter p rows)"
  by (simp add: select_sorted_def)

lemma select_sorted_set: "set (select_sorted v k p rows) = {n \<in> set rows. p n}"
  by (auto simp: select_sorted_def)

lemma sorted_select_sorted: "sorted (map k (select_sorted v k p rows))"
  by (simp add: select_sorted_def)

lemma take_sorted_least:
  assumes "sorted (map k xs)" "x \<in> set xs" "x \<notin> set (take j xs)" "y \<in> set (take j xs)"
  shows "k y \<le> k x"
proof -
  have "x \<in> set (drop j xs)" using assms(2,3) by (metis UnE append_take_drop_id set_append)
  moreover have "sorted (map k (take j xs @ drop j xs))" using assms(1) by simp
  ultimately show ?thesis
    using assms(4) unfolding map_append sorted_append by auto
qed

lemma run_GetPending:
  assumes "run_state (notificationRepo_GetPending limit) s = (r, s')"
  shows "pending_spec limit (pg_notifications s) r (pg_notifications s')"
proof -
  let ?t = "pg_now s (pg_calls s)"
  let ?sel = "select_sorted (pg_scan s (pg_calls s)) n_CreatedAt (due ?t) (pg_notifications s)"
  have rows: "pg_notifications s' = pg_notifications s"
    using assms by (auto simp: notificationRepo_GetPending_def run_pg_notifications_stmt Let_def
        split: option.splits if_splits)
  show ?thesis
  proof (cases r)
    case (Inl e)
    with rows show ?thesis by (simp add: pending_spec_def)
  next
    case (Inr ns)
    with assms have ns: "ns = take (nat limit) ?sel"
      by (auto simp: notificationRepo_GetPending_def run_pg_notifications_stmt Let_def
          split: option.splits if_splits)
    have "mset ns \<subseteq># mset (filter (due ?t) (pg_notifications s))"
      unfolding ns by (metis append_take_drop_id mset_append mset_subset_eq_add_left select_sorted_mset)
    moreover have "sorted (map n_CreatedAt ns)"
      unfolding ns take_map [symmetric] by (rule sorted_wrt_take [OF sorted_select_sorted])
    moreover have "length ns = min (nat limit) (length (filter (due ?t) (pg_notifications s)))"
      unfolding ns by (metis length_take select_sorted_mset size_mset min.commute)
    moreover have "m \<in> set ns \<or> (\<forall>n \<in> set ns. n_CreatedAt n \<le> n_CreatedAt m)"
      if "m \<in> set (pg_notifications s)" "due ?t m" for m
      using that take_sorted_least [OF sorted_select_sorted, of m _ n_CreatedAt]
      unfolding ns by (metis (mono_tags, lifting) mem_Collect_eq select_sorted_set)
    ultimately show ?thesis
      using rows Inr by (auto simp: pending_spec_def)
  qed
qed

interpretation pg_store: notification_store notificationRepo pg_notifications
proof unfold_locales
qed (simp_all add: run_Create run_CreateBatch run_UpdateStatus run_IncrementRetry run_Cancel
      run_GetPending notificationRepo_GetByID_def notificationRepo_GetByIdempotencyKey_def
      run_select_one)

end
