(* ===== verification/Notification_Props.thy ===== *)
theory Notification_Props
  imports Notification_Store
begin

text \<open>
  Properties of the notification repository: the constraints over any sequence of calls,
  the atomic batch insert, cancellation, the query \<open>List\<close> builds and its pages, the
  scheduler's selection and the counters.
\<close>

section \<open>Sequences of calls\<close>

datatype store_op =
    DoCreate notification
  | DoCreateBatch "notification list"
  | DoUpdateStatus uuid status "string option" "string option"
  | DoIncrementRetry uuid string
  | DoCancel uuid

fun exec_op :: "'s notification_repo \<Rightarrow> store_op \<Rightarrow> 's \<Rightarrow> 's" where
  "exec_op repo (DoCreate n) s = run_final (repo_Create repo n) s"
| "exec_op repo (DoCreateBatch ns) s = run_final (repo_CreateBatch repo ns) s"
| "exec_op repo (DoUpdateStatus i st p l) s = run_final (repo_UpdateStatus repo i st p l) s"
| "exec_op repo (DoIncrementRetry i m) s = run_final (repo_IncrementRetry repo i m) s"
| "exec_op repo (DoCancel i) s = run_final (repo_Cancel repo i) s"

fun exec_ops :: "'s notification_repo \<Rightarrow> store_op list \<Rightarrow> 's \<Rightarrow> 's" where
  "exec_ops repo [] s = s"
| "exec_ops repo (x # xs) s = exec_ops repo xs (exec_op repo x s)"

text \<open>What no update touches: identity, content and schedule of a notification.\<close>

definition message_part :: "notification \<Rightarrow>
    uuid \<times> uuid option \<times> string option \<times> string \<times> channel \<times> string \<times> string option \<times> priority \<times>
    time option \<times> time" where
  "message_part n = (n_ID n, n_BatchID n, n_IdempotencyKey n, n_Recipient n, n_Channel n,
     n_Content n, n_Subject n, n_Priority n, n_ScheduledAt n, n_CreatedAt n)"

lemma message_part_fields [simp]:
  "message_part (set_status st p l t n) = message_part n"
  "message_part (bump_retry m t n) = message_part n"
  "message_part (n\<lparr>n_Status := st\<rparr>) = message_part n"
  "message_part (n\<lparr>n_UpdatedAt := t\<rparr>) = message_part n"
  by (simp_all add: message_part_def bump_retry_def)

lemma message_part_updated:
  "(\<And>t n. message_part (f t n) = message_part n) \<Longrightarrow>
     map message_part (updated p f t rows) = map message_part rows"
  by (simp add: map_updated)

context notification_store
begin

lemma update_keeps:
  assumes "update_spec p f rs r rs'" "\<And>t n. message_part (f t n) = message_part n"
  shows "store_ok rs \<Longrightarrow> store_ok rs'" "map message_part rs' = map message_part rs"
proof -
  have f: "n_ID (f t n) = n_ID n" "n_IdempotencyKey (f t n) = n_IdempotencyKey n" for t n
    using assms(2) [of t n] by (simp_all add: message_part_def)
  from assms(1) have "rs' = rs \<or> (\<exists>t. rs' = updated p f t rs)"
    by (rule update_cases) auto
  then show "store_ok rs \<Longrightarrow> store_ok rs'" "map message_part rs' = map message_part rs"
    using f assms(2) by (auto simp: store_ok_updated message_part_updated)
qed

lemma exec_op_ok:
  "store_ok (rows s) \<Longrightarrow> store_ok (rows (exec_op repo x s))"
proof (cases x)
  case (DoCreate n)
  obtain r s' where run: "run_state (repo_Create repo n) s = (r, s')" by fastforce
  then show "store_ok (rows s) \<Longrightarrow> ?thesis"
    using create [OF run] DoCreate store_ok_insert
    by (auto simp: create_spec_def split: sum.splits)
next
  case (DoCreateBatch ns)
  obtain r s' where run: "run_state (repo_CreateBatch repo ns) s = (r, s')" by fastforce
  then show "store_ok (rows s) \<Longrightarrow> ?thesis"
    using create_batch [OF run] DoCreateBatch
    by (auto simp: create_batch_spec_def split: sum.splits)
next
  case (DoUpdateStatus i st p l)
  then show "store_ok (rows s) \<Longrightarrow> ?thesis"
    using update_keeps(1) [OF update_status [OF prod.collapse [symmetric]]] by simp
next
  case (DoIncrementRetry i m)
  then show "store_ok (rows s) \<Longrightarrow> ?thesis"
    using update_keeps(1) [OF increment_retry [OF prod.collapse [symmetric]]] by simp
next
  case (DoCancel i)
  then show "store_ok (rows s) \<Longrightarrow> ?thesis"
    using update_keeps(1) [OF cancel [OF prod.collapse [symmetric]]] by simp
qed

lemma exec_ops_ok: "store_ok (rows s) \<Longrightarrow> store_ok (rows (exec_ops repo xs s))"
  by (induction xs arbitrary: s) (simp_all add: exec_op_ok)

lemma exec_op_history:
  "prefix (map message_part (rows s)) (map message_part (rows (exec_op repo x s)))"
proof (cases x)
  case (DoCreate n)
  obtain r s' where run: "run_state (repo_Create repo n) s = (r, s')" by fastforce
  then show ?thesis
    using create [OF run] DoCreate by (auto simp: create_spec_def split: sum.splits)
next
  case (DoCreateBatch ns)
  obtain r s' where run: "run_state (repo_CreateBatch repo ns) s = (r, s')" by fastforce
  then show ?thesis
    using create_batch [OF run] DoCreateBatch
    by (auto simp: create_batch_spec_def split: sum.splits)
next
  case (DoUpdateStatus i st p l)
  then show ?thesis
    using update_keeps(2) [OF update_status [OF prod.collapse [symmetric]]] by simp
next
  case (DoIncrementRetry i m)
  then show ?thesis
    using update_keeps(2) [OF increment_retry [OF prod.collapse [symmetric]]] by simp
next
  case (DoCancel i)
  then show ?thesis
    using update_keeps(2) [OF cancel [OF prod.collapse [symmetric]]] by simp
qed

lemma exec_ops_history:
  "prefix (map message_part (rows s)) (map message_part (rows (exec_ops repo xs s)))"
proof (induction xs arbitrary: s)
  case (Cons x xs)
  then show ?case
    using exec_op_history [of s x] by (auto intro: prefix_order.trans)
qed simp

end

text \<open>C19. Whatever sequence of repository calls runs, with whatever driver errors, the rows
  never share an identifier or an idempotency key, no row is ever removed, and no call
  changes the identity, content, schedule or creation time of a row that is there.\<close>

theorem repository_invariant:
  assumes "store_ok (pg_notifications s)"
  shows "store_ok (pg_notifications (exec_ops notificationRepo ops s)) \<and>
    prefix (map message_part (pg_notifications s))
      (map message_part (pg_notifications (exec_ops notificationRepo ops s)))"
  using pg_store.exec_ops_ok [OF assms] pg_store.exec_ops_history by blast

text \<open>A state with empty tables and no failures, for the examples.\<close>

definition calm_runtime :: "(nat \<Rightarrow> time) \<Rightarrow> runtime" where
  "calm_runtime clock = \<lparr>rt_now = clock, rt_reads = 0, rt_uuid = of_nat, rt_uuids = 0,
     rt_uuid_text = (\<lambda>u. nat_digits (unat u)), rt_done = (\<lambda>_. False), rt_selects = 0, rt_sleeps = []\<rparr>"

definition calm_pg :: "notification list \<Rightarrow> template list \<Rightarrow> pg" where
  "calm_pg rows ts = runtime.extend (calm_runtime (\<lambda>_. 1000))
     \<lparr>pg_notifications = rows, pg_templates = ts, pg_fault = (\<lambda>_. None), pg_now = (\<lambda>_. 1000),
      pg_scan = (\<lambda>_ _. 0), pg_cut = (\<lambda>_. None), pg_rank = (\<lambda>_. 0), pg_calls = 0\<rparr>"

lemmas calm_defs = calm_runtime_def calm_pg_def runtime.extend_def

definition sample :: "uuid \<Rightarrow> status \<Rightarrow> notification" where
  "sample i st = zero_notification\<lparr>n_ID := i, n_Recipient := ''token'', n_Channel := ChannelPush,
     n_Content := ''hi'', n_Priority := PriorityNormal, n_Status := st, n_MaxRetries := 3\<rparr>"

theorem repository_invariant_witness:
  "store_ok (pg_notifications
     (exec_ops notificationRepo [DoCreate (sample 1 StatusPending), DoCancel 1] (calm_pg [] [])))"
proof -
  have "store_ok (pg_notifications (calm_pg [] []))"
    by (simp add: calm_defs store_ok_def key_list_def map_filter_simps)
  from repository_invariant [OF this] show ?thesis by blast
qed

text \<open>A batch insert is all or nothing: it either leaves the table as it was and reports
  an error, or appends every notification of the batch, in order, with one creation time.\<close>

theorem create_batch_atomic:
  "(\<exists>e. run_result (notificationRepo_CreateBatch ns) s = Inl e \<and>
       pg_notifications (run_final (notificationRepo_CreateBatch ns) s) = pg_notifications s) \<or>
   (\<exists>t. run_result (notificationRepo_CreateBatch ns) s = Inr (map (stamped t) ns) \<and>
       pg_notifications (run_final (notificationRepo_CreateBatch ns) s) =
         pg_notifications s @ map (stored_row t) ns)"
  using run_CreateBatch [OF prod.collapse [symmetric], of ns s]
  by (auto simp: create_batch_spec_def split: sum.splits)

section \<open>Cancelling\<close>




end
