(* ===== verification/Go_Float.thy ===== *)
theory Go_Float
  imports Go_Base
begin

text \<open>
  The floating-point expressions of the program. The consumer's: a 64-bit integer converted
  to \<open>float64\<close>, multiplied by a power of two and converted back. The product of a rounded
  integer by a power of two is exact until it leaves the range of the format, so the only
  roundings are the two conversions. A conversion to \<open>int64\<close> out of range is left open by
  the Go specification: \<open>conv\<close> is what the implementation does then.
  The list handler's: the quotient of two integers rounded up.
\<close>

fun bit_length :: "nat \<Rightarrow> nat" where
  "bit_length n = (if n = 0 then 0 else Suc (bit_length (n div 2)))"

declare bit_length.simps [simp del]

text \<open>The nearest number with 53 significant bits, ties to even.\<close>

definition round53_nat :: "nat \<Rightarrow> nat" where
  "round53_nat m =
     (if m < 2 ^ 53 then m
      else let e = bit_length m - 53; q = m div 2 ^ e; r = m mod 2 ^ e;
               up = (r > 2 ^ (e - 1) \<or> r = 2 ^ (e - 1) \<and> odd q)
           in (if up then q + 1 else q) * 2 ^ e)"

definition float64_of_int :: "int \<Rightarrow> int" where
  "float64_of_int x = sgn x * int (round53_nat (nat \<bar>x\<bar>))"

text \<open>\<open>int64(m * math.Pow(2, k))\<close>: exact, or truncated towards zero for a negative exponent.
  Past 1023 the power is infinite.\<close>

definition scaled :: "int \<Rightarrow> int \<Rightarrow> int" where
  "scaled m k = (if k \<ge> 0 then m * 2 ^ nat k else sgn m * (\<bar>m\<bar> div 2 ^ nat (- k)))"

definition int64_of_scaled :: "(int \<Rightarrow> int \<Rightarrow> int) \<Rightarrow> int \<Rightarrow> int \<Rightarrow> int" where
  "int64_of_scaled conv m k =
     (if k > 1023 \<or> \<not> in_int64 (scaled m k) then conv m k else scaled m k)"

lemma float64_exact: "\<bar>x\<bar> < 2 ^ 53 \<Longrightarrow> float64_of_int x = x"
  by (simp add: float64_of_int_def round53_nat_def nat_less_iff sgn_mult_abs)

lemma int64_of_scaled_exact:
  "0 \<le> k \<Longrightarrow> k \<le> 1023 \<Longrightarrow> in_int64 (m * 2 ^ nat k) \<Longrightarrow> int64_of_scaled conv m k = m * 2 ^ nat k"
  by (simp add: int64_of_scaled_def scaled_def)

section \<open>Quotients\<close>

text \<open>
  \<open>int(math.Ceil(a / b))\<close> of two \<open>float64\<close> numbers that are integers, \<open>0 \<le> a\<close> and \<open>0 < b\<close>:
  the quotient is rounded to 53 significant bits, ties to even, then up to an integer.
  \<open>s\<close> shifts the quotient far enough that its integer part has at least 53 bits.
\<close>

definition round_div :: "nat \<Rightarrow> nat \<Rightarrow> nat" where
  "round_div n d =
     (let q = n div d; r = n mod d
      in if 2 * r > d \<or> 2 * r = d \<and> odd q then q + 1 else q)"

definition ceil_quotient :: "nat \<Rightarrow> nat \<Rightarrow> nat" where
  "ceil_quotient a b =
     (if a = 0 then 0
      else let s = 53 + bit_length b; e = bit_length (a * 2 ^ s div b) - 53; m = round_div (a * 2 ^ s) (b * 2 ^ e)
           in if s \<le> e then m * 2 ^ (e - s) else (m + 2 ^ (s - e) - 1) div 2 ^ (s - e))"

lemma bit_length_le: "n < 2 ^ k \<Longrightarrow> bit_length n \<le> k"
proof (induction n arbitrary: k rule: bit_length.induct)
  case (1 n)
  show ?case
  proof (cases "n = 0")
    case True
    then show ?thesis by (simp add: bit_length.simps)
  next
    case False
    with "1.prems" obtain j where k: "k = Suc j" by (cases k) auto
    with "1.prems" have "n div 2 < 2 ^ j" by auto
    with "1.IH" [OF False] k False show ?thesis by (subst bit_length.simps) simp
  qed
qed

lemma round_div_cases: "round_div n d = n div d \<or> round_div n d = n div d + 1 \<and> n mod d \<noteq> 0"
  by (cases "d = 0") (auto simp: round_div_def Let_def)

lemma ceil_div_eqI:
  "x \<le> k * p \<Longrightarrow> k * p < x + p \<Longrightarrow> (x + p - 1) div p = k" for x k p :: nat
  by (rule div_nat_eqI) (simp_all add: mult.commute)

text \<open>Up to 2 to the 45 the rounding does not show: the result is the quotient rounded up.\<close>

lemma ceil_quotient_exact:
  assumes "a < 2 ^ 45" "0 < b" "b \<le> 128"
  shows "ceil_quotient a b = (a + b - 1) div b"
proof (cases "a = 0")
  case True
  with assms show ?thesis by (simp add: ceil_quotient_def)
next
  case False
  define s where "s = 53 + bit_length b"
  define e where "e = bit_length (a * 2 ^ s div b) - 53"
  define t where "t = s - e"
  have "a * 2 ^ s div b \<le> a * 2 ^ s" by simp
  also have "\<dots> < 2 ^ 45 * 2 ^ s" using assms(1) by simp
  finally have "bit_length (a * 2 ^ s div b) \<le> 45 + s"
    by (intro bit_length_le) (simp add: power_add)
  then have e: "e + 8 \<le> s" by (simp add: e_def s_def)
  then have t: "8 \<le> t" "s = t + e" by (simp_all add: t_def)
  define m where "m = round_div (a * 2 ^ s) (b * 2 ^ e)"
  have q: "a * 2 ^ s div (b * 2 ^ e) = a * 2 ^ t div b"
    "a * 2 ^ s mod (b * 2 ^ e) = (a * 2 ^ t mod b) * 2 ^ e"
    unfolding t(2) power_add using mult.assoc [of a] 
    by (simp_all add: div_mult_mult2 mult_mod_left mult.assoc [symmetric])
  define k f where "k = a div b" and "f = a mod b"
  have a: "a = k * b + f" "f < b" using assms(2) by (simp_all add: k_def f_def)
  have cq: "ceil_quotient a b = (m + 2 ^ t - 1) div 2 ^ t"
    using False e by (simp add: ceil_quotient_def Let_def s_def [symmetric] e_def [symmetric] m_def [symmetric] t_def)
  have pow: "b < 2 ^ t"
  proof -
    have "(2::nat) ^ 8 \<le> 2 ^ t" using t(1) by (intro power_increasing) simp_all
    then show ?thesis using assms(3) by simp
  qed
  show ?thesis
  proof (cases "f = 0")
    case True
    have "a * 2 ^ t mod b = 0" "a * 2 ^ t div b = k * 2 ^ t" using a True assms(2)
      by (simp_all add: mult.assoc mult.left_commute [of b])
    then have "m = k * 2 ^ t" using round_div_cases [of "a * 2 ^ s" "b * 2 ^ e"] q by (simp add: m_def)
    then have "ceil_quotient a b = k" unfolding cq by (intro ceil_div_eqI) simp_all
    moreover have "(a + b - 1) div b = k" using a True assms(2) by (intro ceil_div_eqI) simp_all
    ultimately show ?thesis by simp
  next
    case False
    define g where "g = f * 2 ^ t div b"
    have "a * 2 ^ t = k * 2 ^ t * b + f * 2 ^ t" using a(1) by (simp add: algebra_simps)
    then have k: "a * 2 ^ t div b = k * 2 ^ t + g" using assms(2) by (simp add: g_def)
    have "b * 1 \<le> f * 2 ^ t" using False pow by (simp add: le_trans [OF less_imp_le])
    then have "1 \<le> g" using assms(2) by (simp add: g_def less_eq_div_iff_mult_less_eq)
    moreover have "g < 2 ^ t" using a(2) assms(2) by (simp add: g_def div_less_iff_less_mult)
    ultimately have "k * 2 ^ t < m" "m \<le> Suc k * 2 ^ t"
      using round_div_cases [of "a * 2 ^ s" "b * 2 ^ e"] q(1) k by (auto simp: m_def)
    then have "ceil_quotient a b = Suc k" unfolding cq by (intro ceil_div_eqI) simp_all
    moreover have "(a + b - 1) div b = Suc k" using a False by (intro ceil_div_eqI) simp_all
    ultimately show ?thesis by simp
  qed
qed
text \<open>
  The quotient itself, as a fraction of two naturals: the nearest number with 53 significant
  bits. It never exceeds an integer bound of the exact quotient.
\<close>

definition float_quotient :: "nat \<Rightarrow> nat \<Rightarrow> nat \<times> nat" where
  "float_quotient a b =
     (if a = 0 then (0, 1)
      else let s = 53 + bit_length b; e = bit_length (a * 2 ^ s div b) - 53
           in (round_div (a * 2 ^ s) (b * 2 ^ e) * 2 ^ e, 2 ^ s))"

lemma round_div_le:
  assumes "n \<le> k * d" "0 < d"
  shows "round_div n d \<le> k"
proof -
  have "n div d \<le> k" using assms by (metis div_le_mono div_mult_self_is_m)
  moreover have "n div d < k" if "n mod d \<noteq> 0"
  proof -
    have "n = d * (n div d) + n mod d" by simp
    with that have "d * (n div d) < n" by linarith
    also have "n \<le> d * k" using assms(1) by (simp add: mult.commute)
    finally show ?thesis by simp
  qed
  ultimately show ?thesis using round_div_cases [of n d] by fastforce
qed

lemma float_quotient_le:
  assumes "a \<le> k * b" "0 < b" "k < 2 ^ 53" "float_quotient a b = (p, q)"
  shows "p \<le> k * q" "0 < q"
proof -
  define s where "s = 53 + bit_length b"
  define e where "e = bit_length (a * 2 ^ s div b) - 53"
  have fq: "float_quotient a b = (if a = 0 then (0, 1) else (round_div (a * 2 ^ s) (b * 2 ^ e) * 2 ^ e, 2 ^ s))"
    by (simp add: float_quotient_def Let_def s_def e_def)
  show "0 < q" using assms(4) unfolding fq by (auto split: if_splits)
  show "p \<le> k * q"
  proof (cases "a = 0")
    case True
    then show ?thesis using assms(4) unfolding fq by simp
  next
    case False
    have "a * 2 ^ s div b \<le> k * 2 ^ s"
    proof -
      have "a * 2 ^ s \<le> k * 2 ^ s * b" using assms(1) by (simp add: ac_simps)
      then have "a * 2 ^ s div b \<le> k * 2 ^ s * b div b" by (rule div_le_mono)
      then show ?thesis using assms(2) by simp
    qed
    also have "\<dots> < 2 ^ (53 + s)" using assms(3) by (simp add: power_add)
    finally have "bit_length (a * 2 ^ s div b) \<le> 53 + s" by (rule bit_length_le)
    then have e: "e \<le> s" by (simp add: e_def)
    have split: "(2 :: nat) ^ s = 2 ^ (s - e) * 2 ^ e" using e by (simp add: power_add [symmetric])
    have "a * 2 ^ s \<le> k * 2 ^ (s - e) * (b * 2 ^ e)"
      using assms(1) unfolding split by (simp add: ac_simps)
    then have "round_div (a * 2 ^ s) (b * 2 ^ e) \<le> k * 2 ^ (s - e)"
      using assms(2) by (intro round_div_le) simp_all
    then have "round_div (a * 2 ^ s) (b * 2 ^ e) * 2 ^ e \<le> k * 2 ^ s"
      unfolding split by (simp add: mult.assoc [symmetric])
    then show ?thesis using assms(4) False unfolding fq by auto
  qed
qed

end
