(* ===== verification/Go_Duration.thy ===== *)
theory Go_Duration
  imports Go_Float
begin

text \<open>
  \<open>time.ParseDuration\<close>: a sign and a sequence of decimal numbers with a unit, such as \<open>1m30s\<close>
  or \<open>1.5h\<close>. The sums are \<open>uint64\<close>, a fraction is scaled in \<open>float64\<close>.
\<close>

definition duration_units :: "(string \<times> nat) list" where
  "duration_units =
     [(''ns'', 1), (''us'', 1000), ([CHR 0xC2, CHR 0xB5, CHR ''s''], 1000),
      ([CHR 0xCE, CHR 0xBC, CHR ''s''], 1000), (''ms'', 1000000), (''s'', 1000000000),
      (''m'', 60000000000), (''h'', 3600000000000)]"

text \<open>\<open>leadingInt\<close>, \<open>None\<close> when the number passes 2 to the 63; \<open>leadingFraction\<close>, which ignores
  the digits past that, with the power of ten it read, a \<open>float64\<close>.\<close>

fun leading_int :: "nat \<Rightarrow> string \<Rightarrow> (nat \<times> string) option" where
  "leading_int x [] = Some (x, [])"
| "leading_int x (c # cs) =
     (if \<not> is_digit c then Some (x, c # cs)
      else if x > 2 ^ 63 div 10 then None
      else let y = x * 10 + (of_char c - 48) in if y > 2 ^ 63 then None else leading_int y cs)"

fun leading_fraction :: "bool \<Rightarrow> nat \<Rightarrow> nat \<Rightarrow> string \<Rightarrow> nat \<times> nat \<times> string" where
  "leading_fraction overflow x scale [] = (x, scale, [])"
| "leading_fraction overflow x scale (c # cs) =
     (if \<not> is_digit c then (x, scale, c # cs)
      else if overflow then leading_fraction overflow x scale cs
      else if x > (2 ^ 63 - 1) div 10 then leading_fraction True x scale cs
      else let y = x * 10 + (of_char c - 48)
           in if y > 2 ^ 63 then leading_fraction True x scale cs else leading_fraction False y (round53_nat (scale * 10)) cs)"

text \<open>\<open>uint64(float64(f) * (float64(unit) / scale))\<close>, every operation rounded.\<close>

definition scaled_fraction :: "nat \<Rightarrow> nat \<Rightarrow> nat \<Rightarrow> nat" where
  "scaled_fraction f unit scale =
     (let (p, q) = float_quotient (round53_nat unit) scale;
          (p', q') = float_quotient (round53_nat f * p) q
      in p' div q')"

definition unit_char :: "char \<Rightarrow> bool" where
  "unit_char c \<longleftrightarrow> c \<noteq> CHR ''.'' \<and> \<not> is_digit c"

text \<open>One number with its unit.\<close>

definition duration_part :: "string \<Rightarrow> (nat \<times> string) option" where
  "duration_part s =
     (if s = [] \<or> \<not> (hd s = CHR ''.'' \<or> is_digit (hd s)) then None
      else case leading_int 0 s of
        None \<Rightarrow> None
      | Some (v, s1) \<Rightarrow>
          let pre = (length s \<noteq> length s1);
              (f, scale, s2, post) =
                (if s1 \<noteq> [] \<and> hd s1 = CHR ''.''
                 then (case leading_fraction False 0 1 (tl s1) of (f, scale, s2) \<Rightarrow>
                   (f, scale, s2, length (tl s1) \<noteq> length s2))
                 else (0, 1, s1, False));
              u = takeWhile unit_char s2; s3 = dropWhile unit_char s2
          in if \<not> pre \<and> \<not> post \<or> u = [] then None
             else case map_of duration_units u of
               None \<Rightarrow> None
             | Some unit \<Rightarrow>
                 if v > 2 ^ 63 div unit then None
                 else let w = v * unit + (if f > 0 then scaled_fraction f unit scale else 0)
                      in if f > 0 \<and> w > 2 ^ 63 then None else Some (w, s3))"

lemma leading_fraction_length: "leading_fraction b x k s = (f, scale, r) \<Longrightarrow> length r \<le> length s"
  by (induction s arbitrary: b x k) (auto simp: Let_def split: if_splits intro: le_SucI)

lemma leading_int_length: "leading_int x s = Some (v, r) \<Longrightarrow> length r \<le> length s"
  by (induction s arbitrary: x) (auto simp: Let_def split: if_splits intro: le_SucI)

lemma drop_shorter: "takeWhile P x \<noteq> [] \<Longrightarrow> length x \<le> k \<Longrightarrow> length (dropWhile P x) < k"
proof (cases x)
  case (Cons a list)
  assume "takeWhile P x \<noteq> []" "length x \<le> k"
  then show ?thesis using Cons length_dropWhile_le [of P list] by (auto split: if_splits)
qed simp

lemma duration_part_length:
  assumes "duration_part s = Some (w, rest)"
  shows "length rest < length s"
  using assms
  by (auto simp: duration_part_def Let_def split: if_splits option.splits prod.splits
      intro!: drop_shorter dest!: leading_int_length leading_fraction_length)

function duration_parts :: "nat \<Rightarrow> string \<Rightarrow> nat option" where
  "duration_parts d s =
     (if s = [] then Some d
      else case duration_part s of
        None \<Rightarrow> None
      | Some (w, rest) \<Rightarrow>
          let d' = (d + w) mod 2 ^ 64 in if d' > 2 ^ 63 then None else duration_parts d' rest)"
  by pat_completeness auto
termination
  by (relation "measure (\<lambda>(d, s). length s)") (auto dest: duration_part_length)

declare duration_parts.simps [simp del]

definition ParseDuration :: "string \<Rightarrow> duration option" where
  "ParseDuration s =
     (let neg = (s \<noteq> [] \<and> hd s = CHR ''-'');
          s1 = (if s \<noteq> [] \<and> (hd s = CHR ''-'' \<or> hd s = CHR ''+'') then tl s else s)
      in if s1 = ''0'' then Some 0
         else if s1 = [] then None
         else case duration_parts 0 s1 of
           None \<Rightarrow> None
         | Some d \<Rightarrow> if neg then Some (- int d) else if d > 2 ^ 63 - 1 then None else Some (int d))"

section \<open>Properties\<close>

lemma duration_parts_le: "duration_parts d s = Some e \<Longrightarrow> d \<le> 2 ^ 63 \<Longrightarrow> e \<le> 2 ^ 63"
proof (induction d s rule: duration_parts.induct)
  case (1 d s)
  show ?case
  proof (cases "s = []")
    case True
    with 1 show ?thesis by (simp add: duration_parts.simps)
  next
    case False
    with 1 show ?thesis
      by (auto simp: duration_parts.simps [of d s] Let_def split: option.splits prod.splits if_splits)
  qed
qed

lemma ParseDuration_in_int64: "ParseDuration s = Some d \<Longrightarrow> in_int64 d"
  using duration_parts_le [of 0]
  by (fastforce simp: ParseDuration_def Let_def in_int64_def split: if_splits option.splits)

lemma leading_int_digits:
  "list_all is_digit ds \<Longrightarrow> digits_value x ds \<le> 2 ^ 63 \<Longrightarrow> \<not> is_digit c \<Longrightarrow>
     leading_int x (ds @ c # cs) = Some (digits_value x ds, c # cs)"
proof (induction ds arbitrary: x)
  case (Cons d ds)
  let ?y = "x * 10 + (of_char d - 48)"
  have mono: "y \<le> digits_value y es" for y es
  proof (induction es arbitrary: y)
    case (Cons e es)
    have "y \<le> y * 10 + (of_char e - 48)" by simp
    also have "\<dots> \<le> digits_value (y * 10 + (of_char e - 48)) es" by (rule Cons.IH)
    finally show ?case by simp
  qed simp
  have "?y \<le> 2 ^ 63" using mono [of ?y ds] Cons.prems(2) by simp
  moreover from this have "x \<le> 2 ^ 63 div 10" by simp
  ultimately show ?case using Cons by (simp add: Let_def)
qed simp

text \<open>A whole number of a unit, up to the range of \<open>int64\<close>.\<close>

lemma ParseDuration_unit:
  assumes "map_of duration_units u = Some unit" "list_all unit_char u" "u \<noteq> []" "int (n * unit) < 2 ^ 63" "0 < unit"
  shows "ParseDuration (nat_digits n @ u) = Some (int (n * unit))"
proof -
  obtain c cs where u: "u = c # cs" using assms(3) by (cases u) auto
  then have c: "\<not> is_digit c" "c \<noteq> CHR ''.''" using assms(2) by (simp_all add: unit_char_def)
  obtain d ds where nd: "nat_digits n = d # ds" "is_digit d"
    using nat_digits_hd [of n] nat_digits_nonempty [of n] by (cases "nat_digits n") auto
  have lt: "n * unit < 2 ^ 63" using assms(4) by (simp del: of_nat_mult)
  then have le: "n * unit \<le> 2 ^ 63" by simp
  have "n * 1 \<le> n * unit" using assms(5) by (intro mult_le_mono) simp_all
  with le have n: "n \<le> 2 ^ 63" by linarith
  have quot: "\<not> n > 2 ^ 63 div unit" using le assms(5) by (simp add: not_less less_eq_div_iff_mult_less_eq)
  have li: "leading_int 0 (nat_digits n @ u) = Some (n, u)"
    using leading_int_digits [OF nat_digits_all_digits, of 0 n c cs] digits_value_nat_digits [of n] n c u by simp
  have uu: "takeWhile unit_char u = u" "dropWhile unit_char u = []"
    using assms(2) by (simp_all add: list_all_iff)
  have part: "duration_part (nat_digits n @ u) = Some (n * unit, [])"
    unfolding duration_part_def li using nd u c uu assms(1) quot by simp
  have parts: "duration_parts 0 (nat_digits n @ u) = Some (n * unit)"
    using part nd(1) le by (simp add: duration_parts.simps)
  have "d \<noteq> CHR ''-''" "d \<noteq> CHR ''+''" using nd(2) by (auto simp: is_digit_def)
  moreover have "\<not> n * unit > 2 ^ 63 - 1" using lt by linarith
  ultimately show ?thesis using parts nd(1) u by (simp add: ParseDuration_def Let_def)
qed

lemma ParseDuration_seconds: "int n * time_Second < 2 ^ 63 \<Longrightarrow> ParseDuration (nat_digits n @ ''s'') = Some (int n * time_Second)"
  using ParseDuration_unit [of "''s''" 1000000000 n]
  by (simp add: duration_units_def unit_char_def is_digit_def)

end
