(* ===== verification/Publisher.thy ===== *)
theory Publisher
  imports Environment Config
begin

text \<open>
  \<open>internal/queue/publisher.go\<close>: the queue topology, publishing a notification and the
  carrier of trace headers. The JSON encoding of a notification is the standard library's:
  \<open>json_codec\<close> is its two directions, an argument of the definitions. \<open>publisher\<close> is
  the Go interface and \<open>message_publisher\<close> its contract.
\<close>

section \<open>Trace headers\<close>

definition amqpCarrier_Get :: "amqp_table \<Rightarrow> string \<Rightarrow> string" where
  "amqpCarrier_Get c key =
     (case map_of c key of
        None \<Rightarrow> []
      | Some val \<Rightarrow> (case val of VText s \<Rightarrow> s | VInt _ \<Rightarrow> []))"

definition amqpCarrier_Set :: "amqp_table \<Rightarrow> string \<Rightarrow> string \<Rightarrow> amqp_table" where
  "amqpCarrier_Set c key value =
     (if key \<in> fst ` set c
      then map (\<lambda>(k, v). if k = key then (k, VText value) else (k, v)) c
      else c @ [(key, VText value)])"

definition amqpCarrier_Keys :: "amqp_table \<Rightarrow> string list" where
  "amqpCarrier_Keys c = map fst c"

text \<open>\<open>Inject\<close> of the propagator sets each of its entries in the carrier.\<close>

definition inject :: "(string \<times> string) list \<Rightarrow> amqp_table \<Rightarrow> amqp_table" where
  "inject trace headers = fold (\<lambda>(k, v) c. amqpCarrier_Set c k v) trace headers"

lemma map_of_Set:
  "map_of (amqpCarrier_Set c key value) k = (if k = key then Some (VText value) else map_of c k)"
proof -
  have upd: "map_of (map (\<lambda>(k, v). if k = key then (k, VText value) else (k, v)) c) k =
      (if k = key then (if key \<in> fst ` set c then Some (VText value) else None) else map_of c k)"
    by (induction c) (auto simp: rev_image_eqI)
  have app: "map_of (c @ [(key, VText value)]) k = (if k = key then Some (VText value) else map_of c k)"
    if "key \<notin> fst ` set c"
  proof -
    have "map_of c key = None" using that by (simp add: map_of_eq_None_iff)
    then show ?thesis by (simp add: map_add_def split: option.split)
  qed
  show ?thesis
  proof (cases "key \<in> fst ` set c")
    case True
    with upd show ?thesis unfolding amqpCarrier_Set_def by (simp only: if_True)
  next
    case False
    show ?thesis unfolding amqpCarrier_Set_def if_not_P [OF False] by (rule app [OF False])
  qed
qed

lemma map_fst_Set:
  "map fst (amqpCarrier_Set c key value) =
     (if key \<in> set (map fst c) then map fst c else map fst c @ [key])"
  by (auto simp: amqpCarrier_Set_def)

text \<open>A header set on the carrier is the one read back, setting one header leaves the
  others alone, and every key is listed exactly once.\<close>

theorem carrier_get_set:
  "amqpCarrier_Get (amqpCarrier_Set c key value) key' =
     (if key' = key then value else amqpCarrier_Get c key') \<and>
   set (amqpCarrier_Keys (amqpCarrier_Set c key value)) = insert key (set (amqpCarrier_Keys c)) \<and>
   distinct (amqpCarrier_Keys (amqpCarrier_Set c key value)) = distinct (amqpCarrier_Keys c)"
  by (auto simp: amqpCarrier_Get_def amqpCarrier_Keys_def map_of_Set map_fst_Set)

section \<open>The topology\<close>

definition queue_name :: "rabbitmq_config \<Rightarrow> channel \<Rightarrow> string" where
  "queue_name cfg ch = rmq_QueuePrefix cfg @ ''.'' @ ch"

definition dlq_name :: "rabbitmq_config \<Rightarrow> channel \<Rightarrow> string" where
  "dlq_name cfg ch = rmq_DLQPrefix cfg @ ''.'' @ ch"

definition dlq_key :: "channel \<Rightarrow> string" where "dlq_key ch = ''dlq.'' @ ch"

definition routing_key :: "channel \<Rightarrow> string" where "routing_key ch = ''notification.'' @ ch"

definition queue_args :: "rabbitmq_config \<Rightarrow> channel \<Rightarrow> amqp_table" where
  "queue_args cfg ch =
     [(''x-max-priority'', VInt 3),
      (''x-dead-letter-exchange'', VText (rmq_Exchange cfg)),
      (''x-dead-letter-routing-key'', VText (dlq_key ch))]"

text \<open>One iteration of the loop over the channels, with its early returns.\<close>

definition setup_channel :: "rabbitmq_config \<Rightarrow> channel \<Rightarrow> ('a amqp_scheme, go_error option) state" where
  "setup_channel cfg ch = do {
     e1 \<leftarrow> amqp_do (QueueDeclare (dlq_name cfg ch) []);
     case e1 of
       Some err \<Rightarrow> return (Some (Wrapped (''declare DLQ '' @ dlq_name cfg ch) err))
     | None \<Rightarrow> do {
         e2 \<leftarrow> amqp_do (QueueBind (dlq_name cfg ch) (dlq_key ch) (rmq_Exchange cfg));
         case e2 of
           Some err \<Rightarrow> return (Some (Wrapped ''bind DLQ'' err))
         | None \<Rightarrow> do {
             e3 \<leftarrow> amqp_do (QueueDeclare (queue_name cfg ch) (queue_args cfg ch));
             case e3 of
               Some err \<Rightarrow> return (Some (Wrapped (''declare queue '' @ queue_name cfg ch) err))
             | None \<Rightarrow> do {
                 e4 \<leftarrow> amqp_do (QueueBind (queue_name cfg ch) (routing_key ch) (rmq_Exchange cfg));
                 return (map_option (Wrapped ''bind queue'') e4)
               }
           }
       }
   }"

fun setup_channels ::
  "rabbitmq_config \<Rightarrow> channel list \<Rightarrow> ('a amqp_scheme, go_error option) state"
where
  "setup_channels cfg [] = return None"
| "setup_channels cfg (ch # chs) = do {
     e \<leftarrow> setup_channel cfg ch;
     case e of Some err \<Rightarrow> return (Some err) | None \<Rightarrow> setup_channels cfg chs
   }"

definition rabbitPublisher_setup :: "rabbitmq_config \<Rightarrow> ('a amqp_scheme, go_error option) state" where
  "rabbitPublisher_setup cfg = do {
     e \<leftarrow> amqp_do (ExchangeDeclare (rmq_Exchange cfg) ''topic'');
     case e of
       Some err \<Rightarrow> return (Some (Wrapped ''declare exchange'' err))
     | None \<Rightarrow> setup_channels cfg [ChannelSMS, ChannelEmail, ChannelPush]
   }"

section \<open>Publish\<close>

record json_codec =
  marshal :: "notification \<Rightarrow> string + string"
  unmarshal :: "string \<Rightarrow> string + notification"

record 's publisher =
  pub_Publish :: "notification \<Rightarrow> ('s, go_error option) state"

definition rabbitPublisher_Publish ::
  "json_codec \<Rightarrow> rabbitmq_config \<Rightarrow> notification \<Rightarrow> ('a amqp_scheme, go_error option) state"
where
  "rabbitPublisher_Publish codec cfg n =
     (case marshal codec n of
        Inl e \<Rightarrow> return (Some (Wrapped ''marshal'' (OpaqueError e)))
      | Inr body \<Rightarrow> do {
          trace \<leftarrow> gets (\<lambda>s. amqp_trace s (amqp_calls s));
          text \<leftarrow> gets rt_uuid_text;
          let headers = inject trace [];
          amqp_do (Publish
            \<lparr>p_Exchange = rmq_Exchange cfg, p_RoutingKey = routing_key (n_Channel n),
             p_Persistent = True, p_ContentType = ''application/json'',
             p_Priority = Priority_Int (n_Priority n) mod 256, p_MessageId = text (n_ID n),
             p_Headers = headers, p_Body = body\<rparr>)
        })"

definition rabbitPublisher :: "json_codec \<Rightarrow> rabbitmq_config \<Rightarrow> ('a amqp_scheme) publisher" where
  "rabbitPublisher codec cfg = \<lparr>pub_Publish = rabbitPublisher_Publish codec cfg\<rparr>"

lemma pub_Publish_rabbitPublisher [simp]:
  "pub_Publish (rabbitPublisher codec cfg) = rabbitPublisher_Publish codec cfg"
  by (simp add: rabbitPublisher_def)

section \<open>Opening and closing\<close>

definition NewPublisher ::
  "json_codec \<Rightarrow> rabbitmq_config \<Rightarrow> ('a amqp_scheme, go_error + ('a amqp_scheme) publisher) state"
where
  "NewPublisher codec cfg = do {
     e1 \<leftarrow> amqp_do (Dial (rmq_URL cfg));
     case e1 of
       Some err \<Rightarrow> return (Inl (Wrapped ''rabbitmq connect'' err))
     | None \<Rightarrow> do {
         e2 \<leftarrow> amqp_do OpenChannel;
         case e2 of
           Some err \<Rightarrow> do { amqp_close CloseConnection; return (Inl (Wrapped ''rabbitmq channel'' err)) }
         | None \<Rightarrow> do {
             e3 \<leftarrow> rabbitPublisher_setup cfg;
             case e3 of
               Some err \<Rightarrow> do { amqp_close CloseChannel; amqp_close CloseConnection; return (Inl err) }
             | None \<Rightarrow> return (Inr (rabbitPublisher codec cfg))
           }
       }
   }"

text \<open>\<open>Close\<close> ignores the error of closing the channel and returns that of the connection.\<close>

definition rabbitPublisher_Close :: "('a amqp_scheme, go_error option) state" where
  "rabbitPublisher_Close = do {
     amqp_close CloseChannel;
     e \<leftarrow> gets (\<lambda>s. amqp_fault s (amqp_calls s));
     amqp_close CloseConnection;
     return e
   }"

section \<open>The contract of a publisher\<close>

locale message_publisher =
  fixes pub :: "'s publisher"
    and sent :: "'s \<Rightarrow> 'm list" \<comment> \<open>the messages the broker accepted, latest last\<close>
    and carries :: "notification \<Rightarrow> 'm \<Rightarrow> bool"
  assumes publish:
    "run_state (pub_Publish pub n) s = (ro, s') \<Longrightarrow>
       (case ro of
          Some e \<Rightarrow> sent s' = sent s
        | None \<Rightarrow> \<exists>m. sent s' = sent s @ [m] \<and> carries n m)"

text \<open>The messages among the calls the broker accepted.\<close>

fun published :: "amqp_call list \<Rightarrow> publishing list" where
  "published [] = []"
| "published (Publish m # cs) = m # published cs"
| "published (_ # cs) = published cs"

lemma published_append: "published (xs @ ys) = published xs @ published ys"
  by (induction xs rule: published.induct) simp_all

text \<open>A message carries a notification: its body, its channel's route and its priority.\<close>

definition carries_notification ::
  "json_codec \<Rightarrow> rabbitmq_config \<Rightarrow> notification \<Rightarrow> publishing \<Rightarrow> bool"
where
  "carries_notification codec cfg n m \<longleftrightarrow>
     marshal codec n = Inr (p_Body m) \<and> p_Exchange m = rmq_Exchange cfg \<and>
     p_RoutingKey m = routing_key (n_Channel n) \<and> p_Priority m = Priority_Int (n_Priority n) \<and>
     p_Persistent m"

lemma Priority_Int_mod: "Priority_Int p mod 256 = Priority_Int p"
  using Priority_Int_range [of p] by simp

lemma run_Publish:
  "run_state (rabbitPublisher_Publish codec cfg n) s = (r, s') \<Longrightarrow>
     (case r of
        Some e \<Rightarrow> amqp_log s' = amqp_log s
      | None \<Rightarrow> \<exists>m. amqp_log s' = amqp_log s @ [Publish m] \<and> carries_notification codec cfg n m)"
  by (auto simp: rabbitPublisher_Publish_def amqp_do_cases carries_notification_def Priority_Int_mod
      Let_def split: sum.splits option.splits)

lemma Publish_keeps_rows [frame]:
  "keeps pg_notifications (rabbitPublisher_Publish codec cfg n)"
  "keeps pg_templates (rabbitPublisher_Publish codec cfg n)"
  unfolding rabbitPublisher_Publish_def Let_def by (intro frame)+

interpretation rabbit: message_publisher "rabbitPublisher codec cfg"
    "\<lambda>s. published (amqp_log s)" "carries_notification codec cfg"
  for codec and cfg
proof unfold_locales
qed (auto simp: published_append split: option.splits dest!: run_Publish)

section \<open>Routing\<close>

text \<open>
  The queues a topic exchange hands a message with this routing key to. The keys the
  program binds hold no wildcard, so matching is equality.
\<close>

definition route :: "amqp_call list \<Rightarrow> string \<Rightarrow> string \<Rightarrow> string set" where
  "route calls exchange key = {q. QueueBind q key exchange \<in> set calls}"

definition topology :: "rabbitmq_config \<Rightarrow> channel list \<Rightarrow> amqp_call list" where
  "topology cfg chs = concat (map (\<lambda>ch.
     [QueueDeclare (dlq_name cfg ch) [], QueueBind (dlq_name cfg ch) (dlq_key ch) (rmq_Exchange cfg),
      QueueDeclare (queue_name cfg ch) (queue_args cfg ch),
      QueueBind (queue_name cfg ch) (routing_key ch) (rmq_Exchange cfg)]) chs)"

lemma run_setup_channel:
  "run_state (setup_channel cfg ch) s = (None, s') \<Longrightarrow>
     amqp_log s' = amqp_log s @ topology cfg [ch]"
  by (auto simp: setup_channel_def amqp_do_cases topology_def split: option.splits)

lemma run_setup_channels:
  "run_state (setup_channels cfg chs) s = (None, s') \<Longrightarrow> amqp_log s' = amqp_log s @ topology cfg chs"
proof (induction chs arbitrary: s)
  case Nil
  then show ?case by (simp add: topology_def)
next
  case (Cons ch chs)
  then show ?case
    by (auto simp: topology_def split: prod.splits option.splits dest!: run_setup_channel)
qed

lemma run_setup:
  "run_state (rabbitPublisher_setup cfg) s = (None, s') \<Longrightarrow>
     amqp_log s' = amqp_log s @ ExchangeDeclare (rmq_Exchange cfg) ''topic'' #
       topology cfg [ChannelSMS, ChannelEmail, ChannelPush]"
  by (auto simp: rabbitPublisher_setup_def amqp_do_cases simp del: setup_channels.simps
      split: option.splits dest!: run_setup_channels)

text \<open>C37. Once the topology is declared on a fresh broker, a message published for one of the
  three channels reaches the queue of that channel and no other, and what is dead-lettered
  from that queue reaches the dead-letter queue of the same channel and no other.\<close>

theorem topology_routes:
  assumes "run_state (rabbitPublisher_setup cfg) s = (None, s')" "amqp_log s = []"
    "ch \<in> {ChannelSMS, ChannelEmail, ChannelPush}"
  shows "route (amqp_log s') (rmq_Exchange cfg) (routing_key ch) = {queue_name cfg ch} \<and>
    QueueDeclare (queue_name cfg ch) (queue_args cfg ch) \<in> set (amqp_log s') \<and>
    (\<exists>key. map_of (queue_args cfg ch) ''x-dead-letter-exchange'' = Some (VText (rmq_Exchange cfg)) \<and>
       map_of (queue_args cfg ch) ''x-dead-letter-routing-key'' = Some (VText key) \<and>
       route (amqp_log s') (rmq_Exchange cfg) key = {dlq_name cfg ch})"
proof -
  have "amqp_log s' = ExchangeDeclare (rmq_Exchange cfg) ''topic'' #
       topology cfg [ChannelSMS, ChannelEmail, ChannelPush]"
    using run_setup [OF assms(1)] assms(2) by simp
  then show ?thesis
    using assms(3)
    by (auto simp: route_def topology_def queue_args_def routing_key_def dlq_key_def)
qed

definition default_rabbitmq :: rabbitmq_config where
  "default_rabbitmq = c_RabbitMQ (Load (\<lambda>_. []))"

definition calm_amqp :: amqp where
  "calm_amqp = \<lparr>rt_now = (\<lambda>_. 1000), rt_reads = 0, rt_uuid = of_nat, rt_uuids = 0,
     rt_uuid_text = (\<lambda>u. nat_digits (unat u)), rt_done = (\<lambda>_. False), rt_selects = 0,
     rt_sleeps = [], pg_notifications = [], pg_templates = [], pg_fault = (\<lambda>_. None),
     pg_now = (\<lambda>_. 1000), pg_scan = (\<lambda>_ _. 0), pg_cut = (\<lambda>_. None), pg_rank = (\<lambda>_. 0), pg_calls = 0,
     amqp_log = [], amqp_fault = (\<lambda>_. None), amqp_trace = (\<lambda>_. []), amqp_calls = 0\<rparr>"

theorem topology_routes_witness:
  "route (amqp_log (run_final (rabbitPublisher_setup default_rabbitmq) calm_amqp)) ''notifications''
     ''notification.sms'' = {''notifications.sms''}"
proof -
  have "run_state (rabbitPublisher_setup default_rabbitmq) calm_amqp =
      (None, run_final (rabbitPublisher_setup default_rabbitmq) calm_amqp)"
    by (simp add: rabbitPublisher_setup_def setup_channel_def amqp_do_cases calm_amqp_def)
  from topology_routes [OF this, of ChannelSMS] show ?thesis
    by (simp add: calm_amqp_def default_rabbitmq_def Load_def getEnv_def routing_key_def
        queue_name_def ChannelSMS_def)
qed

end
