(* ===== verification/Pipeline.thy ===== *)
theory Pipeline
  imports Notification_Props Publisher
begin

text \<open>
  The interface the API's service and the scheduler share: a notification store and a
  message publisher over one state, where publishing leaves the table alone and a
  repository call publishes nothing. Both clients hand a notification over in the same two
  steps (publish, then mark the row as queued), so what that does to the table and to the
  queue is proved once, inside the locale.
\<close>

section \<open>Handing over\<close>

text \<open>
  The rows \<open>rs'\<close> follow from the rows \<open>rs\<close> by marking some of the notifications
  \<open>sel\<close> as queued; nothing else about any row changes, apart from the bookkeeping of
  \<open>UpdateStatus\<close> itself (\<open>last_error\<close>, \<open>updated_at\<close>).
\<close>

definition queued_row :: "notification \<Rightarrow> notification \<Rightarrow> bool" where
  "queued_row n n' \<longleftrightarrow> n_Status n' = StatusQueued \<and> message_part n' = message_part n"

definition marked :: "notification set \<Rightarrow> notification list \<Rightarrow> notification list \<Rightarrow> bool" where
  "marked sel rs rs' \<longleftrightarrow> list_all2 (\<lambda>n n'. n' = n \<or> n \<in> sel \<and> queued_row n n') rs rs'"

lemma marked_refl: "marked sel rs rs"
  by (simp add: marked_def list_all2_same)

lemma marked_mono: "marked sel rs rs' \<Longrightarrow> sel \<subseteq> sel' \<Longrightarrow> marked sel' rs rs'"
  unfolding marked_def by (erule list_all2_mono) blast

lemma marked_ids: "marked sel rs rs' \<Longrightarrow> map n_ID rs' = map n_ID rs"
  unfolding marked_def
  by (induction rule: list_all2_induct) (auto simp: queued_row_def message_part_def)

lemma queued_row_set_status:
  "n' = n \<or> n \<in> sel \<and> queued_row n n' \<Longrightarrow>
     queued_row n ((set_status StatusQueued p l t n')\<lparr>n_UpdatedAt := t\<rparr>)"
  by (auto simp: queued_row_def)

text \<open>Marking the row of one more notification, found by its identifier.\<close>

lemma marked_update:
  assumes "marked sel rs rs'" "distinct (map n_ID rs)" "n \<in> set rs"
  shows "marked (insert n sel) rs
    (updated (\<lambda>m. n_ID m = n_ID n) (set_status StatusQueued p l) t rs')"
proof -
  have only: "m = n" if "m \<in> set rs" "n_ID m = n_ID n" for m
    using distinct_map_filter_unique [OF assms(2) that(1) assms(3)] that(2) by simp
  have "list_all2 (\<lambda>m m'. (m' = m \<or> m \<in> insert n sel \<and> queued_row m m') \<and> m \<in> set rs) rs rs'"
    using assms(1) unfolding marked_def list_all2_conv_all_nth by auto
  then show ?thesis
    unfolding marked_def updated_def list_all2_map2
  proof (rule list_all2_mono)
    fix m m'
    assume h: "(m' = m \<or> m \<in> insert n sel \<and> queued_row m m') \<and> m \<in> set rs"
    then have "n_ID m' = n_ID m" by (auto simp: queued_row_def message_part_def)
    with h only queued_row_set_status show
      "(if n_ID m' = n_ID n then (set_status StatusQueued p l t m')\<lparr>n_UpdatedAt := t\<rparr> else m') = m \<or>
       m \<in> insert n sel \<and>
       queued_row m (if n_ID m' = n_ID n then (set_status StatusQueued p l t m')\<lparr>n_UpdatedAt := t\<rparr> else m')"
      by (metis insertI1)
  qed
qed

section \<open>The locale\<close>

definition hand_over :: "'s notification_repo \<Rightarrow> 's publisher \<Rightarrow> notification \<Rightarrow> ('s, bool) state" where
  "hand_over repo pub n = do {
     e \<leftarrow> pub_Publish pub n;
     case e of
       Some err \<Rightarrow> return False
     | None \<Rightarrow> do {
         repo_UpdateStatus repo (n_ID n) StatusQueued None None;
         return True
       }
   }"

locale pipeline = notification_store repo rows + message_publisher pub sent carries
  for repo :: "'s notification_repo" and rows and pub :: "'s publisher"
    and sent :: "'s \<Rightarrow> 'm list" and carries +
  assumes publish_keeps_rows: "keeps rows (pub_Publish pub n)"
    and repo_keeps_sent: "keeps sent (repo_Create repo n)" "keeps sent (repo_CreateBatch repo ns)"
      "keeps sent (repo_GetByID repo i)" "keeps sent (repo_GetByIdempotencyKey repo k)"
      "keeps sent (repo_UpdateStatus repo i st p l)" "keeps sent (repo_IncrementRetry repo i e)"
      "keeps sent (repo_Cancel repo i)" "keeps sent (repo_GetPending repo limit)"
begin

text \<open>One hand-over: a refused message changes nothing, an accepted one is in the queue and
  at most its own row is marked.\<close>

lemma hand_over_spec:
  assumes run: "run_state (hand_over repo pub n) s = (b, s')"
    and inv: "marked sel rs (rows s)" "distinct (map n_ID rs)" "n \<in> set rs"
  shows "if b then (\<exists>m. sent s' = sent s @ [m] \<and> carries n m) \<and> marked (insert n sel) rs (rows s')
    else sent s' = sent s \<and> rows s' = rows s"
proof -
  obtain e s1 where p: "run_state (pub_Publish pub n) s = (e, s1)" by fastforce
  have r1: "rows s1 = rows s" using keepsE [OF publish_keeps_rows p] .
  show ?thesis
  proof (cases e)
    case (Some err)
    with run p r1 publish [OF p] show ?thesis by (simp add: hand_over_def)
  next
    case None
    obtain eo s2 where u: "run_state (repo_UpdateStatus repo (n_ID n) StatusQueued None None) s1 = (eo, s2)"
      by fastforce
    with run p None have b: "b" "s' = s2" by (simp_all add: hand_over_def)
    have "marked (insert n sel) rs (rows s2)"
      using update_status [OF u]
    proof (rule update_cases)
      assume "rows s2 = rows s1"
      with inv(1) r1 show ?thesis by (auto intro: marked_mono)
    next
      fix t assume "rows s2 = updated (\<lambda>m. n_ID m = n_ID n) (set_status StatusQueued None None) t (rows s1)"
      with marked_update [OF inv] r1 show ?thesis by simp
    qed
    moreover have "sent s2 = sent s1" using keepsE [OF repo_keeps_sent(5) u] .
    ultimately show ?thesis using b None publish [OF p] by simp
  qed
qed

end

section \<open>PostgreSQL and RabbitMQ\<close>

lemma keeps_comp: "keeps f m \<Longrightarrow> keeps (\<lambda>s. g (f s)) m"
  by (simp add: keeps_def)

lemma keeps_log_prims [frame]:
  "keeps amqp_log pg_call" "keeps amqp_log (modify (\<lambda>s. s\<lparr>pg_notifications := rs\<rparr>))"
  by (simp_all add: keeps_def)

lemma keeps_log_insert_all [frame]: "keeps amqp_log (insert_all now ns rs)"
proof (induction ns arbitrary: rs)
  case (Cons n ns)
  show ?case unfolding insert_all.simps Let_def by (intro frame Cons.IH)
qed (simp add: keeps_return)

lemma repo_keeps_log [frame]:
  "keeps amqp_log (notificationRepo_Create n)" "keeps amqp_log (notificationRepo_CreateBatch ns)"
  "keeps amqp_log (notificationRepo_GetByID i)"
  "keeps amqp_log (notificationRepo_GetByIdempotencyKey k)"
  "keeps amqp_log (notificationRepo_UpdateStatus i st p l)"
  "keeps amqp_log (notificationRepo_IncrementRetry i e)"
  "keeps amqp_log (notificationRepo_Cancel i)" "keeps amqp_log (notificationRepo_GetPending limit)"
  "keeps amqp_log (notificationRepo_GetByBatchID i)" "keeps amqp_log (notificationRepo_List f)"
  unfolding notificationRepo_Create_def notificationRepo_CreateBatch_def notificationRepo_GetByID_def
    notificationRepo_GetByIdempotencyKey_def notificationRepo_UpdateStatus_def
    notificationRepo_IncrementRetry_def notificationRepo_Cancel_def notificationRepo_GetPending_def
    notificationRepo_GetByBatchID_def notificationRepo_List_def Let_def
  by (intro frame)+

interpretation pg_rabbit: pipeline notificationRepo pg_notifications "rabbitPublisher codec cfg"
    "\<lambda>s. published (amqp_log s)" "carries_notification codec cfg"
  for codec and cfg
proof unfold_locales
qed (simp_all add: Publish_keeps_rows repo_keeps_log keeps_comp [of amqp_log])

end
