(* ===== verification/Template_Repo.thy ===== *)
theory Template_Repo
  imports Environment
begin

text \<open>
  \<open>internal/repository/template.go\<close>: the template repository on PostgreSQL, with the
  constraints of \<open>migrations/002_create_templates.up.sql\<close> (unique identifier and name),
  its interface as a record of methods and the contract its callers rely on.
\<close>

section \<open>The interface\<close>

record 's template_repo =
  tr_Create :: "template \<Rightarrow> ('s, go_error + template) state"
  tr_GetByID :: "uuid \<Rightarrow> ('s, go_error + template) state"
  tr_GetByName :: "string \<Rightarrow> ('s, go_error + template) state"
  tr_List :: "('s, go_error + template list) state"
  tr_Delete :: "uuid \<Rightarrow> ('s, go_error option) state"

section \<open>The methods\<close>

definition template_stamped :: "time \<Rightarrow> template \<Rightarrow> template" where
  "template_stamped now t = t\<lparr>t_CreatedAt := now, t_UpdatedAt := now\<rparr>"

definition insert_template ::
  "template \<Rightarrow> time \<Rightarrow> template list \<Rightarrow> (go_error + template) \<times> template list"
where
  "insert_template t now rows =
     (if \<exists>u \<in> set rows. t_ID u = t_ID t \<or> t_Name u = t_Name t
      then (Inl (PqError uniqueViolation
              ''pq: duplicate key value violates unique constraint''), rows)
      else (Inr (template_stamped now t), rows @ [template_stamped now t]))"

definition templateRepo_Create :: "template \<Rightarrow> ('a pg_scheme, go_error + template) state" where
  "templateRepo_Create t = do {
     r \<leftarrow> pg_templates_stmt (insert_template t);
     return (case r of
         Inl err \<Rightarrow> if IsDuplicate (Some err) then Inl ErrDuplicate else Inl err
       | Inr t' \<Rightarrow> Inr t')
   }"

definition select_template ::
  "(template \<Rightarrow> bool) \<Rightarrow> time \<Rightarrow> template list \<Rightarrow> (go_error + template) \<times> template list"
where
  "select_template p now rows =
     ((case filter p rows of [] \<Rightarrow> Inl ErrNoRows | t # _ \<Rightarrow> Inr t), rows)"

definition templateRepo_GetByID :: "uuid \<Rightarrow> ('a pg_scheme, go_error + template) state" where
  "templateRepo_GetByID i = pg_templates_stmt (select_template (\<lambda>t. t_ID t = i))"

definition templateRepo_GetByName :: "string \<Rightarrow> ('a pg_scheme, go_error + template) state" where
  "templateRepo_GetByName name = pg_templates_stmt (select_template (\<lambda>t. t_Name t = name))"

definition templateRepo_List :: "('a pg_scheme, go_error + template list) state" where
  "templateRepo_List = do {
     rank \<leftarrow> gets pg_rank;
     pg_templates_stmt (\<lambda>now rows. (Inr (sort_key (\<lambda>t. rank (t_Name t)) rows), rows))
   }"

definition templateRepo_Delete :: "uuid \<Rightarrow> ('a pg_scheme, go_error option) state" where
  "templateRepo_Delete i = do {
     r \<leftarrow> pg_templates_stmt (\<lambda>now rows.
       (Inr (length (filter (\<lambda>t. t_ID t = i) rows)), filter (\<lambda>t. t_ID t \<noteq> i) rows));
     text \<leftarrow> gets rt_uuid_text;
     return (case r of
         Inl e \<Rightarrow> Some e
       | Inr affected \<Rightarrow>
           if affected = 0 then Some (OpaqueError (''template '' @ text i @ '' not found''))
           else None)
   }"

definition templateRepo :: "('a pg_scheme) template_repo" where
  "templateRepo = \<lparr>tr_Create = templateRepo_Create, tr_GetByID = templateRepo_GetByID,
     tr_GetByName = templateRepo_GetByName, tr_List = templateRepo_List,
     tr_Delete = templateRepo_Delete\<rparr>"

lemma templateRepo_simps [simp]:
  "tr_Create templateRepo = templateRepo_Create" "tr_GetByID templateRepo = templateRepo_GetByID"
  "tr_GetByName templateRepo = templateRepo_GetByName" "tr_List templateRepo = templateRepo_List"
  "tr_Delete templateRepo = templateRepo_Delete"
  by (simp_all add: templateRepo_def)

section \<open>The contract\<close>

definition templates_ok :: "template list \<Rightarrow> bool" where
  "templates_ok rows \<longleftrightarrow> distinct (map t_ID rows) \<and> distinct (map t_Name rows)"

locale template_store =
  fixes trepo :: "'s template_repo" and templates :: "'s \<Rightarrow> template list"
  assumes t_create:
      "run_state (tr_Create trepo t) s = (r, s') \<Longrightarrow>
         (case r of
            Inl e \<Rightarrow> templates s' = templates s \<and> \<not> IsDuplicate (Some e)
          | Inr t' \<Rightarrow> \<exists>now. t' = template_stamped now t \<and> templates s' = templates s @ [t'] \<and>
              (\<forall>u \<in> set (templates s). t_ID u \<noteq> t_ID t \<and> t_Name u \<noteq> t_Name t))"
    and t_get:
      "run_state (tr_GetByID trepo i) s = (r, s') \<Longrightarrow> templates s' = templates s \<and>
         (case r of
            Inl e \<Rightarrow> errors_Is_ErrNoRows e \<longrightarrow> i \<notin> t_ID ` set (templates s)
          | Inr t \<Rightarrow> t \<in> set (templates s) \<and> t_ID t = i)"
    and t_get_by_name:
      "run_state (tr_GetByName trepo name) s = (r, s') \<Longrightarrow> templates s' = templates s \<and>
         (case r of
            Inl e \<Rightarrow> errors_Is_ErrNoRows e \<longrightarrow> name \<notin> t_Name ` set (templates s)
          | Inr t \<Rightarrow> t \<in> set (templates s) \<and> t_Name t = name)"
    and t_list:
      "run_state (tr_List trepo) s = (rl, s') \<Longrightarrow> templates s' = templates s \<and>
         (case rl of Inl e \<Rightarrow> True | Inr ts \<Rightarrow> mset ts = mset (templates s))"
    and t_delete:
      "run_state (tr_Delete trepo i) s = (ro, s') \<Longrightarrow>
         (case ro of
            Some e \<Rightarrow> templates s' = templates s
          | None \<Rightarrow> i \<in> t_ID ` set (templates s) \<and>
              templates s' = filter (\<lambda>t. t_ID t \<noteq> i) (templates s))"
begin

lemma create_keeps_ok:
  assumes "run_state (tr_Create trepo t) s = (r, s')" "templates_ok (templates s)"
  shows "templates_ok (templates s')"
proof -
  have "t_ID (template_stamped now t) = t_ID t" "t_Name (template_stamped now t) = t_Name t" for now
    by (simp_all add: template_stamped_def)
  then show ?thesis
    using t_create [OF assms(1)] assms(2)
    by (auto simp: templates_ok_def split: sum.splits)
qed

lemma delete_keeps_ok:
  assumes "run_state (tr_Delete trepo i) s = (r, s')" "templates_ok (templates s)"
  shows "templates_ok (templates s')"
  using t_delete [OF assms(1)] assms(2)
  by (auto simp: templates_ok_def distinct_map inj_on_def split: option.splits)

text \<open>What was created can be read back until it is deleted.\<close>

lemma create_then_get:
  assumes "run_state (tr_Create trepo t) s = (Inr t', s1)" "run_state (tr_GetByID trepo (t_ID t)) s1 = (Inr u, s2)"
    "templates_ok (templates s)"
  shows "u = t'"
proof -
  have id: "t_ID (template_stamped now t) = t_ID t" for now by (simp add: template_stamped_def)
  from t_create [OF assms(1)] obtain now where c: "t' = template_stamped now t"
    "templates s1 = templates s @ [t']" "\<forall>u \<in> set (templates s). t_ID u \<noteq> t_ID t"
    by auto
  from t_get [OF assms(2)] have "u \<in> set (templates s1)" "t_ID u = t_ID t" by auto
  with c id show ?thesis by auto
qed

end

lemma run_template_Create:
  "run_state (templateRepo_Create t) s = (r, s') \<Longrightarrow>
     (case r of
        Inl e \<Rightarrow> pg_templates s' = pg_templates s \<and> \<not> IsDuplicate (Some e)
      | Inr t' \<Rightarrow> \<exists>now. t' = template_stamped now t \<and> pg_templates s' = pg_templates s @ [t'] \<and>
          (\<forall>u \<in> set (pg_templates s). t_ID u \<noteq> t_ID t \<and> t_Name u \<noteq> t_Name t))"
  by (auto simp: templateRepo_Create_def run_pg_templates_stmt insert_template_def Let_def
      split: option.splits if_splits)

lemma run_select_template:
  "run_state (pg_templates_stmt (select_template p)) s = (r, s') \<Longrightarrow> pg_templates s' = pg_templates s \<and>
     (case r of
        Inl e \<Rightarrow> errors_Is_ErrNoRows e \<longrightarrow> (\<forall>t \<in> set (pg_templates s). \<not> p t)
      | Inr t \<Rightarrow> t \<in> set (pg_templates s) \<and> p t)"
  by (auto simp: run_pg_templates_stmt select_template_def Let_def filter_empty_conv
      filter_eq_Cons_iff split: option.splits list.splits)

lemma run_template_List:
  "run_state templateRepo_List s = (r, s') \<Longrightarrow> pg_templates s' = pg_templates s \<and>
     (case r of Inl e \<Rightarrow> True | Inr ts \<Rightarrow> mset ts = mset (pg_templates s))"
  by (auto simp: templateRepo_List_def run_pg_templates_stmt split: option.splits)

lemma run_template_Delete:
  "run_state (templateRepo_Delete i) s = (r, s') \<Longrightarrow>
     (case r of
        Some e \<Rightarrow> pg_templates s' = pg_templates s
      | None \<Rightarrow> i \<in> t_ID ` set (pg_templates s) \<and>
          pg_templates s' = filter (\<lambda>t. t_ID t \<noteq> i) (pg_templates s))"
  by (auto simp: templateRepo_Delete_def run_pg_templates_stmt filter_empty_conv filter_id_conv
      split: option.splits if_splits)

interpretation pg_template_store: template_store templateRepo pg_templates
proof unfold_locales
qed (auto simp: templateRepo_GetByID_def templateRepo_GetByName_def split: sum.splits option.splits
    dest!: run_template_Create run_select_template run_template_List run_template_Delete)

section \<open>Properties\<close>

text \<open>Creating and deleting templates keeps identifiers and names unique, and a template
  that was created is what a lookup of its identifier returns.\<close>

theorem template_create_get:
  assumes "templates_ok (pg_templates s)"
    "run_state (templateRepo_Create t) s = (Inr t', s1)"
    "run_state (templateRepo_GetByID (t_ID t)) s1 = (Inr u, s2)"
  shows "u = t' \<and> t_Body u = t_Body t \<and> templates_ok (pg_templates s2) \<and>
    templates_ok (pg_templates (run_final (templateRepo_Delete i) s2))"
proof -
  have u: "u = t'"
    using pg_template_store.create_then_get [of t s t' s1 u s2] assms by simp
  moreover have "t_Body t' = t_Body t"
    using run_template_Create [OF assms(2)] by (auto simp: template_stamped_def)
  moreover have s2: "templates_ok (pg_templates s2)"
    using pg_template_store.create_keeps_ok [of t s "Inr t'" s1] pg_template_store.t_get [of "t_ID t" s1 "Inr u" s2]
      assms by simp
  moreover have "templates_ok (pg_templates (run_final (templateRepo_Delete i) s2))"
    using pg_template_store.delete_keeps_ok [OF _ s2, of i] by (metis prod.collapse templateRepo_simps(5))
  ultimately show ?thesis by simp
qed

definition sample_pg :: pg where
  "sample_pg = \<lparr>rt_now = (\<lambda>_. 1000), rt_reads = 0, rt_uuid = of_nat, rt_uuids = 0,
     rt_uuid_text = (\<lambda>u. nat_digits (unat u)), rt_done = (\<lambda>_. False), rt_selects = 0,
     rt_sleeps = [], pg_notifications = [], pg_templates = [], pg_fault = (\<lambda>_. None),
     pg_now = (\<lambda>_. 1000), pg_scan = (\<lambda>_ _. 0), pg_cut = (\<lambda>_. None), pg_rank = (\<lambda>_. 0), pg_calls = 0\<rparr>"

definition otp_sms :: template where
  "otp_sms = \<lparr>t_ID = 9, t_Name = ''otp_sms'', t_Channel = ChannelSMS, t_Subject = None,
     t_Body = ''Code {{code}}'', t_CreatedAt = 0, t_UpdatedAt = 0\<rparr>"

theorem template_create_get_witness:
  "\<exists>t'. run_result (templateRepo_GetByID 9) (run_final (templateRepo_Create otp_sms) sample_pg) = Inr t' \<and>
     t_Body t' = t_Body otp_sms \<and>
     templates_ok (pg_templates (run_final (templateRepo_Delete 9)
       (run_final (templateRepo_GetByID 9) (run_final (templateRepo_Create otp_sms) sample_pg))))"
proof -
  let ?t = "template_stamped 1000 otp_sms"
  obtain s1 where c: "run_state (templateRepo_Create otp_sms) sample_pg = (Inr ?t, s1)"
    "pg_templates s1 = [?t]" "pg_fault s1 = (\<lambda>_. None)"
    by (simp add: templateRepo_Create_def run_pg_templates_stmt insert_template_def sample_pg_def)
  obtain s2 where g: "run_state (templateRepo_GetByID (t_ID otp_sms)) s1 = (Inr ?t, s2)"
    using c by (simp add: templateRepo_GetByID_def run_pg_templates_stmt select_template_def
        template_stamped_def otp_sms_def)
  have "templates_ok (pg_templates sample_pg)" by (simp add: sample_pg_def templates_ok_def)
  from template_create_get [OF this c(1) g, of 9] c g show ?thesis
    by (simp add: otp_sms_def)
qed

end
