(* ===== verification/Notification_Service.thy ===== *)
theory Notification_Service
  imports Pipeline Template_Repo
begin

text \<open>
  \<open>internal/service/notification.go\<close>: creating one notification or a batch, reading,
  listing and cancelling. A method is a state-passing function over the record of the
  services it was built with; \<open>Create\<close> is written with its early returns as branches.
  \<open>svc_order\<close> is the order in which the second \<open>range\<close> of a rendering visits the map
  of variables, \<open>svc_mail_ok\<close> is the standard library's address parser.
\<close>

record 's service =
  svc_repo :: "'s notification_repo"
  svc_tmplRepo :: "'s template_repo"
  svc_publisher :: "'s publisher"
  svc_mail_ok :: "string \<Rightarrow> bool"
  svc_order :: "(string \<times> string) list \<Rightarrow> (string \<times> string) list"

section \<open>Create\<close>

text \<open>\<open>req.Validate()\<close>, which reads the clock only for a scheduled request.\<close>

definition validate_request ::
  "('a runtime_scheme) service \<Rightarrow> create_request \<Rightarrow> ('a runtime_scheme, validation_error list) state"
where
  "validate_request svc req = do {
     now \<leftarrow> (case r_ScheduledAt req of None \<Rightarrow> return 0 | Some _ \<Rightarrow> time_Now);
     return (Validate (svc_mail_ok svc) now req)
   }"

text \<open>The idempotency check: the notification that has the key already, if any.\<close>

definition idempotency_check ::
  "('s) service \<Rightarrow> string option \<Rightarrow> ('s, go_error + notification option) state"
where
  "idempotency_check svc key =
     (case key of
        None \<Rightarrow> return (Inr None)
      | Some k \<Rightarrow> do {
          r \<leftarrow> repo_GetByIdempotencyKey (svc_repo svc) k;
          return (case r of
              Inr existing \<Rightarrow> Inr (Some existing)
            | Inl err \<Rightarrow>
                if \<not> errors_Is_ErrNoRows err then Inl (Wrapped ''idempotency check'' err)
                else Inr None)
        })"

definition template_mismatch :: "channel \<Rightarrow> channel \<Rightarrow> string" where
  "template_mismatch tc rc =
     ''template channel ('' @ tc @ '') does not match request channel ('' @ rc @ '')''"

definition resolve_template ::
  "('s) service \<Rightarrow> create_request \<Rightarrow> ('s, go_error + create_request) state"
where
  "resolve_template svc req =
     (case r_TemplateID req of
        None \<Rightarrow> return (Inr req)
      | Some tid \<Rightarrow> do {
          r \<leftarrow> tr_GetByID (svc_tmplRepo svc) tid;
          return (case r of
              Inl err \<Rightarrow> Inl (ValidationErr [VE ''template_id'' ''template not found''])
            | Inr tmpl \<Rightarrow>
                if t_Channel tmpl \<noteq> r_Channel req
                then Inl (ValidationErr
                       [VE ''template_id'' (template_mismatch (t_Channel tmpl) (r_Channel req))])
                else let (content, subject) = Render (r_Variables req) (svc_order svc (r_Variables req)) tmpl;
                         req1 = req\<lparr>r_Content := content\<rparr>
                     in Inr (if subject \<noteq> None then req1\<lparr>r_Subject := subject\<rparr> else req1))
        })"

definition new_notification :: "uuid \<Rightarrow> uuid option \<Rightarrow> create_request \<Rightarrow> notification" where
  "new_notification i batch req = zero_notification
     \<lparr>n_ID := i, n_BatchID := batch, n_Recipient := r_Recipient req, n_Channel := r_Channel req,
      n_Content := r_Content req, n_Subject := r_Subject req, n_Priority := r_Priority req,
      n_Status := StatusPending, n_IdempotencyKey := r_IdempotencyKey req, n_MaxRetries := 3,
      n_ScheduledAt := r_ScheduledAt req\<rparr>"

text \<open>\<open>n.ScheduledAt == nil || n.ScheduledAt.Before(time.Now())\<close>\<close>

definition publish_at_once :: "notification \<Rightarrow> ('a runtime_scheme, bool) state" where
  "publish_at_once n =
     (case n_ScheduledAt n of
        None \<Rightarrow> return True
      | Some t \<Rightarrow> do { now \<leftarrow> time_Now; return (t < now) })"

text \<open>The end of \<open>Create\<close>: publish the stored notification unless it is for later.\<close>

definition publish_new ::
  "('a runtime_scheme) service \<Rightarrow> notification \<Rightarrow> ('a runtime_scheme, notification) state"
where
  "publish_new svc n = do {
     now \<leftarrow> publish_at_once n;
     if now then do {
       queued \<leftarrow> hand_over (svc_repo svc) (svc_publisher svc) n;
       return (if queued then n\<lparr>n_Status := StatusQueued\<rparr> else n)
     }
     else return n
   }"

definition notificationService_Create ::
  "('a runtime_scheme) service \<Rightarrow> create_request \<Rightarrow> ('a runtime_scheme, go_error + notification) state"
where
  "notificationService_Create svc req = do {
     errs \<leftarrow> validate_request svc req;
     if length errs > 0 then return (Inl (ValidationErr errs))
     else do {
       hit \<leftarrow> idempotency_check svc (r_IdempotencyKey req);
       case hit of
         Inl err \<Rightarrow> return (Inl err)
       | Inr (Some existing) \<Rightarrow> return (Inr existing)
       | Inr None \<Rightarrow> do {
           res \<leftarrow> resolve_template svc req;
           case res of
             Inl err \<Rightarrow> return (Inl err)
           | Inr req1 \<Rightarrow> do {
               i \<leftarrow> uuid_New;
               r \<leftarrow> repo_Create (svc_repo svc) (new_notification i None req1);
               case r of
                 Inl err \<Rightarrow> return (Inl (Wrapped ''create'' err))
               | Inr n \<Rightarrow> do { n' \<leftarrow> publish_new svc n; return (Inr n') }
             }
         }
     }
   }"

section \<open>CreateBatch\<close>

record batch_item_result =
  bi_Index :: nat
  bi_ID :: "uuid option"
  bi_Status :: string
  bi_Errors :: "validation_error list"

record batch_create_response =
  br_BatchID :: uuid
  br_TotalAccepted :: nat
  br_TotalRejected :: nat
  br_Notifications :: "batch_item_result list"

definition reject_item ::
  "nat \<Rightarrow> validation_error list \<Rightarrow> batch_create_response \<Rightarrow> batch_create_response"
where
  "reject_item i errs resp = resp
     \<lparr>br_TotalRejected := br_TotalRejected resp + 1,
      br_Notifications := br_Notifications resp @
        [\<lparr>bi_Index = i, bi_ID = None, bi_Status = ''rejected'', bi_Errors = errs\<rparr>]\<rparr>"

definition accept_item :: "nat \<Rightarrow> uuid \<Rightarrow> batch_create_response \<Rightarrow> batch_create_response" where
  "accept_item i u resp = resp
     \<lparr>br_TotalAccepted := br_TotalAccepted resp + 1,
      br_Notifications := br_Notifications resp @
        [\<lparr>bi_Index = i, bi_ID = Some u, bi_Status = ''accepted'', bi_Errors = []\<rparr>]\<rparr>"

text \<open>The lookup of an item's key in a batch: any error counts as not found.\<close>

definition batch_existing :: "('s) service \<Rightarrow> string option \<Rightarrow> ('s, notification option) state" where
  "batch_existing svc key =
     (case key of
        None \<Rightarrow> return None
      | Some k \<Rightarrow> do {
          r \<leftarrow> repo_GetByIdempotencyKey (svc_repo svc) k;
          return (case r of Inr existing \<Rightarrow> Some existing | Inl err \<Rightarrow> None)
        })"

fun batch_items ::
  "('a runtime_scheme) service \<Rightarrow> uuid \<Rightarrow> nat \<Rightarrow> create_request list \<Rightarrow> batch_create_response \<Rightarrow>
     notification list \<Rightarrow> ('a runtime_scheme, batch_create_response \<times> notification list) state"
where
  "batch_items svc batchID i [] resp accepted = return (resp, accepted)"
| "batch_items svc batchID i (item # items) resp accepted = do {
     errs \<leftarrow> validate_request svc item;
     if length errs > 0
     then batch_items svc batchID (Suc i) items (reject_item i errs resp) accepted
     else do {
       hit \<leftarrow> batch_existing svc (r_IdempotencyKey item);
       case hit of
         Some existing \<Rightarrow>
           batch_items svc batchID (Suc i) items (accept_item i (n_ID existing) resp) accepted
       | None \<Rightarrow> do {
           u \<leftarrow> uuid_New;
           batch_items svc batchID (Suc i) items (accept_item i u resp)
             (accepted @ [new_notification u (Some batchID) item])
         }
     }
   }"

fun publish_accepted ::
  "('a runtime_scheme) service \<Rightarrow> notification list \<Rightarrow> ('a runtime_scheme, unit) state"
where
  "publish_accepted svc [] = return ()"
| "publish_accepted svc (n # ns) = do {
     now \<leftarrow> publish_at_once n;
     (if now then do { hand_over (svc_repo svc) (svc_publisher svc) n; return () } else return ());
     publish_accepted svc ns
   }"

definition notificationService_CreateBatch ::
  "('a runtime_scheme) service \<Rightarrow> batch_create_request \<Rightarrow>
     ('a runtime_scheme, go_error + batch_create_response) state"
where
  "notificationService_CreateBatch svc req =
     (if length (b_Notifications req) = 0
      then return (Inl (ValidationErr [VE ''notifications'' ''at least 1 notification required'']))
      else if length (b_Notifications req) > 1000
      then return (Inl (ValidationErr
             [VE ''notifications'' ''maximum 1000 notifications per batch'']))
      else do {
        batchID \<leftarrow> uuid_New;
        (resp, accepted) \<leftarrow> batch_items svc batchID 0 (b_Notifications req)
          \<lparr>br_BatchID = batchID, br_TotalAccepted = 0, br_TotalRejected = 0, br_Notifications = []\<rparr> [];
        if length accepted > 0 then do {
          r \<leftarrow> repo_CreateBatch (svc_repo svc) accepted;
          case r of
            Inl err \<Rightarrow> return (Inl (Wrapped ''batch insert'' err))
          | Inr stored \<Rightarrow> do { publish_accepted svc stored; return (Inr resp) }
        }
        else return (Inr resp)
      })"

section \<open>Reading and cancelling\<close>

definition notificationService_GetByID ::
  "('a runtime_scheme) service \<Rightarrow> uuid \<Rightarrow> ('a runtime_scheme, go_error + notification) state"
where
  "notificationService_GetByID svc i = do {
     r \<leftarrow> repo_GetByID (svc_repo svc) i;
     text \<leftarrow> gets rt_uuid_text;
     return (case r of
         Inl err \<Rightarrow>
           if errors_Is_ErrNoRows err then Inl (NotFoundErr ''notification'' (text i)) else Inl err
       | Inr n \<Rightarrow> Inr n)
   }"

definition notificationService_GetByBatchID ::
  "('s) service \<Rightarrow> uuid \<Rightarrow> ('s, go_error + notification list) state"
where
  "notificationService_GetByBatchID svc i = repo_GetByBatchID (svc_repo svc) i"

definition notificationService_Cancel ::
  "('a runtime_scheme) service \<Rightarrow> uuid \<Rightarrow> ('a runtime_scheme, go_error option) state"
where
  "notificationService_Cancel svc i = do {
     r \<leftarrow> repo_Cancel (svc_repo svc) i;
     text \<leftarrow> gets rt_uuid_text;
     return (case r of
         Some err \<Rightarrow> Some (NotFoundErr ''notification'' (text i))
       | None \<Rightarrow> None)
   }"

definition notificationService_List ::
  "('s) service \<Rightarrow> list_request \<Rightarrow> ('s, go_error + notification list \<times> int) state"
where
  "notificationService_List svc filter0 = repo_List (svc_repo svc) filter0"

end
