(* ===== verification/Service_Spec.thy ===== *)
theory Service_Spec
  imports Notification_Service
begin

text \<open>
  What the service promises. The locale \<open>service_env\<close> is the service on any store,
  publisher and template store that keep their contracts; the lemmas about \<open>Create\<close> and
  \<open>CreateBatch\<close> are proved there once and hold for the service on PostgreSQL and RabbitMQ
  by the interpretation at the end.
\<close>

section \<open>Outcomes\<close>

text \<open>A notification made from a request: what the client sent, apart from what a template
  replaces.\<close>

definition made_from :: "create_request \<Rightarrow> notification \<Rightarrow> bool" where
  "made_from req n \<longleftrightarrow> n_Recipient n = r_Recipient req \<and> n_Channel n = r_Channel req \<and>
     n_Priority n = r_Priority req \<and> n_IdempotencyKey n = r_IdempotencyKey req \<and>
     n_ScheduledAt n = r_ScheduledAt req \<and>
     (r_TemplateID req = None \<longrightarrow> n_Content n = r_Content req \<and> n_Subject n = r_Subject req)"

text \<open>
  The outcomes of \<open>Create\<close> on the table and the queue: nothing on an error; nothing when
  the key is known; else one new row, pending, or queued with its message sent.
\<close>

definition create_outcome ::
  "(notification \<Rightarrow> 'm \<Rightarrow> bool) \<Rightarrow> create_request \<Rightarrow> notification list \<Rightarrow> 'm list \<Rightarrow>
     go_error + notification \<Rightarrow> notification list \<Rightarrow> 'm list \<Rightarrow> bool"
where
  "create_outcome carries req rs sn r rs' sn' \<longleftrightarrow>
     (case r of
        Inl e \<Rightarrow> rs' = rs \<and> sn' = sn
      | Inr n \<Rightarrow>
          (rs' = rs \<and> sn' = sn \<and> n \<in> set rs \<and> r_IdempotencyKey req \<noteq> None \<and>
             n_IdempotencyKey n = r_IdempotencyKey req) \<or>
          (\<exists>row. rs' = rs @ [row] \<and> \<not> row_conflict n rs \<and> made_from req n \<and>
             message_part row = message_part n \<and>
             (sn' = sn \<and> row = n \<and> n_Status n = StatusPending \<or>
              (\<exists>m. sn' = sn @ [m] \<and> carries (n\<lparr>n_Status := StatusPending\<rparr>) m \<and>
                 n_Status n = StatusQueued \<and> n_Status row \<in> {StatusPending, StatusQueued}))))"

lemma key_list_map: "key_list rs = List.map_filter id (map n_IdempotencyKey rs)"
  by (induction rs) (simp_all add: key_list_def map_filter_simps split: option.split)

lemma store_ok_append:
  assumes "store_ok rs" "\<not> row_conflict n rs" "message_part row = message_part n"
  shows "store_ok (rs @ [row])"
proof -
  have "n_ID row = n_ID n" "n_IdempotencyKey row = n_IdempotencyKey n"
    using assms(3) by (auto simp: message_part_def)
  then have "map n_ID (rs @ [row]) = map n_ID (rs @ [stored_row 0 n])"
    "map n_IdempotencyKey (rs @ [row]) = map n_IdempotencyKey (rs @ [stored_row 0 n])"
    by simp_all
  with store_ok_insert [OF assms(1,2), of 0] show ?thesis
    unfolding store_ok_def key_list_map by simp
qed

lemma create_outcome_row:
  assumes "create_outcome carries req rs sn (Inr n) rs' sn'"
  obtains row where "row \<in> set rs'" "message_part row = message_part n"
    "n_IdempotencyKey n = r_IdempotencyKey req"
proof -
  have "\<exists>row \<in> set rs'. message_part row = message_part n \<and> n_IdempotencyKey n = r_IdempotencyKey req"
    using assms unfolding create_outcome_def made_from_def by auto
  then show thesis using that by blast
qed

lemma create_outcome_ok:
  "create_outcome carries req rs sn r rs' sn' \<Longrightarrow> store_ok rs \<Longrightarrow> store_ok rs'"
  by (auto simp: create_outcome_def intro: store_ok_append split: sum.splits)

lemma new_notification_simps [simp]:
  "n_ID (new_notification i b req) = i" "n_BatchID (new_notification i b req) = b"
  "n_Status (new_notification i b req) = StatusPending"
  "n_IdempotencyKey (new_notification i b req) = r_IdempotencyKey req"
  "n_ScheduledAt (new_notification i b req) = r_ScheduledAt req"
  "n_Content (new_notification i b req) = r_Content req"
  "n_Recipient (new_notification i b req) = r_Recipient req"
  "n_Channel (new_notification i b req) = r_Channel req"
  "n_Subject (new_notification i b req) = r_Subject req"
  "n_Priority (new_notification i b req) = r_Priority req"
  by (simp_all add: new_notification_def)

lemma stored_new: "stored_row t (new_notification i b req) = stamped t (new_notification i b req)"
  by (simp add: stored_row_def stamped_def new_notification_def zero_notification_def)

lemma made_from_new: "made_from req (stamped t (new_notification i b req))"
  by (simp add: made_from_def)

lemma Validate_unscheduled: "r_ScheduledAt req = None \<Longrightarrow> Validate p t req = Validate p t' req"
  by (simp add: Validate_def)

lemma marked_append:
  assumes "marked {n} (rs @ [n]) rs'" "n \<notin> set rs"
  obtains row where "rs' = rs @ [row]" "row = n \<or> queued_row n row"
proof -
  from assms(1) obtain us row where rs': "rs' = us @ [row]"
    "marked {n} rs us" "row = n \<or> queued_row n row"
    by (auto simp: marked_def list_all2_append1 list_all2_Cons1)
  have "list_all2 (=) rs us"
    using rs'(2) assms(2) unfolding marked_def list_all2_conv_all_nth by (metis nth_mem singletonD)
  then have "us = rs" by (simp add: list.rel_eq)
  with rs' that show thesis by blast
qed

definition same_world :: "('s \<Rightarrow> 'r) \<Rightarrow> ('s \<Rightarrow> 'm) \<Rightarrow> 's \<Rightarrow> 's \<Rightarrow> bool" where
  "same_world rows sent s s' \<longleftrightarrow> rows s' = rows s \<and> sent s' = sent s"

lemma same_world_rows: "same_world rows sent s s' \<Longrightarrow> rows s' = rows s"
  and same_world_sent: "same_world rows sent s s' \<Longrightarrow> sent s' = sent s"
  by (simp_all add: same_world_def)

lemma store_ok_key:
  assumes "store_ok rs" "n \<in> set rs" "m \<in> set rs" "n_IdempotencyKey n = n_IdempotencyKey m"
    "n_IdempotencyKey m \<noteq> None"
  shows "n = m"
proof -
  have "distinct (key_list rs)" using assms(1) by (simp add: store_ok_def)
  then show ?thesis
    using assms(2-5)
  proof (induction rs)
    case (Cons x rs)
    have "key_list (x # rs) = (case n_IdempotencyKey x of None \<Rightarrow> key_list rs | Some k \<Rightarrow> k # key_list rs)"
      by (simp add: key_list_def map_filter_simps split: option.split)
    then show ?case
      using Cons by (auto simp: set_key_list split: option.splits)
  qed simp
qed

section \<open>The service on any store and publisher\<close>

locale service_env = pipeline repo rows pub sent carries + template_store trepo templates
  for repo :: "('a runtime_scheme) notification_repo" and rows
    and pub :: "('a runtime_scheme) publisher" and sent :: "'a runtime_scheme \<Rightarrow> 'm list" and carries
    and trepo :: "('a runtime_scheme) template_repo" and templates +
  fixes svc :: "('a runtime_scheme) service"
  assumes svc_parts: "svc_repo svc = repo" "svc_publisher svc = pub" "svc_tmplRepo svc = trepo"
    and runtime_keeps: "keeps rows time_Now" "keeps sent time_Now" "keeps rows uuid_New"
      "keeps sent uuid_New"
    and templates_keep: "keeps rows (tr_GetByID trepo i)" "keeps sent (tr_GetByID trepo i)"
begin

lemma validate_run:
  assumes "run_state (validate_request svc req) s = (errs, s1)"
  shows "same_world rows sent s s1 \<and> (\<exists>now. errs = Validate (svc_mail_ok svc) now req)"
  using assms keepsD [OF runtime_keeps(1), of s] keepsD [OF runtime_keeps(2), of s]
  by (auto simp: validate_request_def same_world_def split: option.splits prod.splits)

lemma idempotency_run:
  assumes "run_state (idempotency_check svc key) s = (r, s1)"
  shows "same_world rows sent s s1 \<and>
    (case r of Inl e \<Rightarrow> True
     | Inr None \<Rightarrow> key = None \<or> (\<forall>m \<in> set (rows s). n_IdempotencyKey m \<noteq> key)
     | Inr (Some n) \<Rightarrow> key \<noteq> None \<and> n \<in> set (rows s) \<and> n_IdempotencyKey n = key)"
proof (cases key)
  case None
  with assms show ?thesis by (auto simp: idempotency_check_def same_world_def)
next
  case (Some k)
  obtain r0 s0 where g: "run_state (repo_GetByIdempotencyKey repo k) s = (r0, s0)" by fastforce
  from get_by_key [OF g] keepsE [OF repo_keeps_sent(4) g] assms g Some show ?thesis
    by (auto simp: idempotency_check_def svc_parts lookup_spec_def same_world_def
        split: sum.splits if_splits)
qed

lemma template_run:
  assumes "run_state (resolve_template svc req) s = (r, s1)"
  shows "same_world rows sent s s1 \<and> (case r of Inl e \<Rightarrow> True | Inr req1 \<Rightarrow>
    (\<forall>n. made_from req1 n \<and> r_TemplateID req1 = r_TemplateID req \<longrightarrow> made_from req n) \<and>
    r_TemplateID req1 = r_TemplateID req \<and> r_IdempotencyKey req1 = r_IdempotencyKey req)"
proof (cases "r_TemplateID req")
  case None
  with assms show ?thesis by (auto simp: resolve_template_def same_world_def)
next
  case (Some tid)
  obtain r0 s0 where g: "run_state (tr_GetByID trepo tid) s = (r0, s0)" by fastforce
  with keepsE [OF templates_keep(1) g] keepsE [OF templates_keep(2) g] assms Some show ?thesis
    by (auto simp: resolve_template_def svc_parts same_world_def made_from_def Let_def
        split: sum.splits if_splits prod.splits)
qed

lemma publish_at_once_run:
  assumes "run_state (publish_at_once n) s = (b, s1)"
  shows "same_world rows sent s s1 \<and> (n_ScheduledAt n = None \<longrightarrow> b)"
  using assms keepsD [OF runtime_keeps(1), of s] keepsD [OF runtime_keeps(2), of s]
  by (auto simp: publish_at_once_def same_world_def split: option.splits prod.splits)

text \<open>The tail of \<open>Create\<close>: the row just inserted is published, or left to the scheduler.\<close>

lemma publish_new_run:
  assumes rows: "rows s = rs @ [n]" and fresh: "\<not> row_conflict n rs" "distinct (map n_ID rs)"
    and pending: "n_Status n = StatusPending" and made: "made_from req n"
    and run: "run_state (publish_new svc n) s = (r, s')"
  shows "create_outcome carries req rs (sent s) (Inr r) (rows s') (sent s')"
proof -
  obtain now s1 where p: "run_state (publish_at_once n) s = (now, s1)" by fastforce
  then have s1: "rows s1 = rs @ [n]" "sent s1 = sent s"
    using publish_at_once_run rows by (auto simp: same_world_def)
  have pend: "n\<lparr>n_Status := StatusPending\<rparr> = n" using pending by simp
  show ?thesis
  proof (cases now)
    case False
    with run p s1 fresh pending made show ?thesis
      by (auto simp: publish_new_def create_outcome_def)
  next
    case True
    obtain q s2 where h: "run_state (hand_over repo pub n) s1 = (q, s2)" by fastforce
    with run p True have r: "r = (if q then n\<lparr>n_Status := StatusQueued\<rparr> else n)" "s' = s2"
      by (auto simp: publish_new_def svc_parts)
    have id: "n_ID n \<notin> n_ID ` set rs" using fresh(1) by (auto simp: row_conflict_def)
    then have "distinct (map n_ID (rs @ [n]))" using fresh(2) by simp
    from hand_over_spec [OF h, of "{}" "rs @ [n]"] this s1 have spec: "if q
      then (\<exists>m. sent s2 = sent s1 @ [m] \<and> carries n m) \<and> marked {n} (rs @ [n]) (rows s2)
      else sent s2 = sent s1 \<and> rows s2 = rows s1" by (simp add: marked_refl)
    show ?thesis
    proof (cases q)
      case False
      with spec r s1 fresh pending made show ?thesis by (auto simp: create_outcome_def)
    next
      case True
      have "n \<notin> set rs" using id by auto
      with spec True obtain row m where w: "rows s2 = rs @ [row]" "row = n \<or> queued_row n row"
        "sent s2 = sent s1 @ [m]" "carries n m"
        by (auto elim: marked_append)
      have "message_part row = message_part n" "n_Status row \<in> {StatusPending, StatusQueued}"
        using w(2) pending by (auto simp: queued_row_def)
      moreover have "made_from req (n\<lparr>n_Status := StatusQueued\<rparr>)" using made by (simp add: made_from_def)
      ultimately show ?thesis
        using w s1 r True fresh(1) pend by (auto simp: create_outcome_def row_conflict_def)
    qed
  qed
qed

text \<open>The end of \<open>Create\<close>: the request is complete, the row is inserted and published.\<close>

lemma insert_new_run:
  assumes ok: "store_ok (rows s)"
    and made: "\<And>n. made_from req1 n \<Longrightarrow> made_from req n"
    and run: "run_state (do {
       i \<leftarrow> uuid_New;
       res \<leftarrow> repo_Create repo (new_notification i None req1);
       case res of
         Inl err \<Rightarrow> return (Inl (Wrapped ''create'' err))
       | Inr n \<Rightarrow> do { n' \<leftarrow> publish_new svc n; return (Inr n') } }) s = (r, s')"
  shows "create_outcome carries req (rows s) (sent s) r (rows s') (sent s')"
proof -
  obtain u s1 where u: "run_state uuid_New s = (u, s1)" by fastforce
  obtain c s2 where c: "run_state (repo_Create repo (new_notification u None req1)) s1 = (c, s2)" by fastforce
  have w1: "rows s1 = rows s" "sent s1 = sent s"
    using keepsE [OF runtime_keeps(3) u] keepsE [OF runtime_keeps(4) u] by simp_all
  then have w2: "sent s2 = sent s" using keepsE [OF repo_keeps_sent(1) c] by simp
  show ?thesis
  proof (cases c)
    case (Inl e)
    with run u c create [OF c] w1 w2 show ?thesis
      by (auto simp: create_spec_def create_outcome_def simp del: run_uuid_New)
  next
    case (Inr n)
    with create [OF c] w1 obtain now where n: "n = stamped now (new_notification u None req1)"
      "rows s2 = rows s @ [n]" "\<not> row_conflict (new_notification u None req1) (rows s)"
      by (auto simp: create_spec_def stored_new)
    then have fresh: "\<not> row_conflict n (rows s)" by (simp add: row_conflict_def)
    obtain n' s3 where p: "run_state (publish_new svc n) s2 = (n', s3)" by fastforce
    have "create_outcome carries req (rows s) (sent s2) (Inr n') (rows s3) (sent s3)"
      using publish_new_run [OF n(2) fresh _ _ made p] ok n(1) made_from_new by (simp add: store_ok_def)
    moreover have "r = Inr n'" "s' = s3" using run u c Inr p by (auto simp del: run_uuid_New)
    ultimately show ?thesis using w2 by simp
  qed
qed

lemma create_lemma:
  assumes ok: "store_ok (rows s)"
    and run: "run_state (notificationService_Create svc req) s = (r, s')"
  shows "create_outcome carries req (rows s) (sent s) r (rows s') (sent s')"
proof -
  have failed: "create_outcome carries req (rows s) (sent s) (Inl e) (rows t) (sent t)"
    if "same_world rows sent s t" for e t
    using that by (simp add: create_outcome_def same_world_def)
  obtain errs s1 where v: "run_state (validate_request svc req) s = (errs, s1)" by fastforce
  obtain hit s2 where i: "run_state (idempotency_check svc (r_IdempotencyKey req)) s1 = (hit, s2)" by fastforce
  obtain res s3 where t: "run_state (resolve_template svc req) s2 = (res, s3)" by fastforce
  have w1: "same_world rows sent s s1" using validate_run [OF v] by simp
  with idempotency_run [OF i] have w2: "same_world rows sent s s2" by (auto simp: same_world_def)
  with template_run [OF t] have w3: "same_world rows sent s s3" by (auto simp: same_world_def)
  note step = notificationService_Create_def v i t
  consider "errs \<noteq> []" | e where "errs = []" "hit = Inl e" | n where "errs = []" "hit = Inr (Some n)"
    | e where "errs = []" "hit = Inr None" "res = Inl e"
    | req1 where "errs = []" "hit = Inr None" "res = Inr req1"
    by (metis obj_sumE option.exhaust)
  then show ?thesis
  proof cases
    case 1
    with run w1 failed show ?thesis by (auto simp: step)
  next
    case 2
    with run w2 failed show ?thesis by (auto simp: step)
  next
    case 3
    with run w2 idempotency_run [OF i] w1 show ?thesis
      by (auto simp: step create_outcome_def same_world_def)
  next
    case 4
    with run w3 failed show ?thesis by (auto simp: step)
  next
    case 5
    have "run_state (do {
       i \<leftarrow> uuid_New;
       res \<leftarrow> repo_Create repo (new_notification i None req1);
       case res of
         Inl err \<Rightarrow> return (Inl (Wrapped ''create'' err))
       | Inr n \<Rightarrow> do { n' \<leftarrow> publish_new svc n; return (Inr n') } }) s3 = (r, s')"
      using run 5 by (simp add: step svc_parts del: run_uuid_New)
    moreover have "made_from req n" if "made_from req1 n" for n
      using template_run [OF t] 5 that by auto
    ultimately show ?thesis using insert_new_run [of s3 req1 req r s'] ok w3 by (simp add: same_world_def)
  qed
qed

lemma create_known_key:
  assumes ok: "store_ok (rows s)" and m: "m \<in> set (rows s)" "n_IdempotencyKey m = r_IdempotencyKey req"
    and key: "r_IdempotencyKey req \<noteq> None"
    and run: "run_state (notificationService_Create svc req) s = (r, s')"
  shows "rows s' = rows s \<and> sent s' = sent s \<and> (\<forall>n. r = Inr n \<longrightarrow> n = m)"
proof -
  obtain errs s1 where v: "run_state (validate_request svc req) s = (errs, s1)" by fastforce
  from validate_run [OF v] have w1: "same_world rows sent s s1" by simp
  obtain hit s2 where i: "run_state (idempotency_check svc (r_IdempotencyKey req)) s1 = (hit, s2)"
    by fastforce
  from idempotency_run [OF i] w1 have w2: "same_world rows sent s s2" by (auto simp: same_world_def)
  have "n = m" if "hit = Inr (Some n)" for n
    using idempotency_run [OF i] w1 that store_ok_key [OF ok _ m(1)] m(2) key
    by (simp add: same_world_def)
  moreover have "hit \<noteq> Inr None"
    using idempotency_run [OF i] w1 m key by (auto simp: same_world_def)
  ultimately show ?thesis
    using run v i w1 w2
    by (cases hit) (auto simp: notificationService_Create_def same_world_def
        split: if_splits option.splits)
qed

end

end
