(* ===== verification/Scheduler.thy ===== *)
theory Scheduler
  imports Pipeline
begin

text \<open>
  \<open>internal/queue/scheduler.go\<close>: the poll that moves due notifications from the table
  to the queue, and the loop around it. The lemmas are proved for any store and publisher
  (the locale \<open>pipeline\<close>); the property is about PostgreSQL and RabbitMQ.
\<close>

section \<open>The scheduler\<close>

record 's scheduler =
  sch_repo :: "'s notification_repo"
  sch_publisher :: "'s publisher"
  sch_interval :: duration
  sch_batchSize :: int

definition NewScheduler :: "'s notification_repo \<Rightarrow> 's publisher \<Rightarrow> 's scheduler" where
  "NewScheduler repo pub = \<lparr>sch_repo = repo, sch_publisher = pub,
     sch_interval = 10 * time_Second, sch_batchSize = 100\<rparr>"

text \<open>The loop over the due notifications: a failed publish skips to the next one.\<close>

fun publish_due :: "'s scheduler \<Rightarrow> notification list \<Rightarrow> ('s, unit) state" where
  "publish_due sch [] = return ()"
| "publish_due sch (n # ns) = do {
     hand_over (sch_repo sch) (sch_publisher sch) n;
     publish_due sch ns
   }"

definition pollAndPublish :: "'s scheduler \<Rightarrow> ('s, unit) state" where
  "pollAndPublish sch = do {
     r \<leftarrow> repo_GetPending (sch_repo sch) (sch_batchSize sch);
     case r of
       Inl err \<Rightarrow> return ()
     | Inr notifications \<Rightarrow>
         if length notifications = 0 then return () else publish_due sch notifications
   }"

text \<open>
  The loop of \<open>Start\<close> over the events its \<open>select\<close> receives, in the order it receives
  them; \<open>True\<close> when the loop has returned, \<open>False\<close> when it waits for the next event.
\<close>

datatype sched_event = CtxDone | Stopped | Tick

fun scheduler_Start :: "'s scheduler \<Rightarrow> sched_event list \<Rightarrow> ('s, bool) state" where
  "scheduler_Start sch [] = return False"
| "scheduler_Start sch (CtxDone # es) = return True"
| "scheduler_Start sch (Stopped # es) = return True"
| "scheduler_Start sch (Tick # es) = do { pollAndPublish sch; scheduler_Start sch es }"

section \<open>What a poll does\<close>

lemma distinct_submset:
  assumes "distinct ys" "mset xs \<subseteq># mset ys"
  shows "distinct xs"
proof -
  obtain zs where "mset ys = mset (xs @ zs)"
    using assms(2) by (metis ex_mset mset_append mset_subset_eq_exists_conv)
  then have "distinct (xs @ zs)" using assms(1) mset_eq_imp_distinct_iff by blast
  then show ?thesis by simp
qed

lemma subseq_distinct: "subseq xs ys \<Longrightarrow> distinct ys \<Longrightarrow> distinct xs"
  by (metis distinct_nthsI subseq_conv_nths)

lemma subseq_set: "subseq xs ys \<Longrightarrow> set xs \<subseteq> set ys"
  by (metis set_nths_subset subseq_conv_nths)

context pipeline
begin

text \<open>
  Over a list of rows read from the table \<open>rs\<close>: the messages sent carry a sublist of
  them in order, and only rows whose message was sent are marked.
\<close>

lemma publish_due_spec:
  assumes "marked sel rs (rows s)" "distinct (map n_ID rs)" "set ns \<subseteq> set rs"
    and "run_state (publish_due (NewScheduler repo pub) ns) s = (u, s')"
  shows "\<exists>ns' ms. subseq ns' ns \<and> sent s' = sent s @ ms \<and> list_all2 carries ns' ms \<and>
    marked (sel \<union> set ns') rs (rows s')"
  using assms
proof (induction ns arbitrary: s sel)
  case Nil
  then show ?case by (intro exI [of _ "[]"]) auto
next
  case (Cons n ns)
  obtain b s1 where h: "run_state (hand_over repo pub n) s = (b, s1)" by fastforce
  with Cons.prems(4) have rest: "run_state (publish_due (NewScheduler repo pub) ns) s1 = (u, s')"
    by (simp add: NewScheduler_def)
  note spec = hand_over_spec [OF h Cons.prems(1,2)]
  show ?case
  proof (cases b)
    case True
    with spec Cons.prems(3) obtain m where m: "sent s1 = sent s @ [m]" "carries n m"
      "marked (insert n sel) rs (rows s1)" by auto
    from Cons.IH [OF m(3) Cons.prems(2) _ rest] Cons.prems(3) obtain ns' ms where
      ih: "subseq ns' ns" "sent s' = sent s1 @ ms" "list_all2 carries ns' ms"
        "marked (insert n sel \<union> set ns') rs (rows s')" by auto
    show ?thesis
      by (rule exI [of _ "n # ns'"], rule exI [of _ "m # ms"]) (use ih m in auto)
  next
    case False
    with spec Cons.prems(1,3) have "sent s1 = sent s" "marked sel rs (rows s1)" by auto
    from Cons.IH [OF this(2) Cons.prems(2) _ rest] Cons.prems(3) this(1) obtain ns' ms where
      "subseq ns' ns" "sent s' = sent s @ ms" "list_all2 carries ns' ms"
      "marked (sel \<union> set ns') rs (rows s')" by auto
    then show ?thesis by (meson list_emb_Cons)
  qed
qed

lemma poll_lemma:
  assumes ok: "store_ok (rows s)"
    and run: "run_state (pollAndPublish (NewScheduler repo pub)) s = (u, s')"
  shows "\<exists>sel ms t. sent s' = sent s @ ms \<and> list_all2 carries sel ms \<and> distinct sel \<and>
    length sel \<le> 100 \<and> (\<forall>n \<in> set sel. n \<in> set (rows s) \<and> due t n) \<and>
    marked (set sel) (rows s) (rows s')"
proof -
  obtain r s1 where g: "run_state (repo_GetPending repo 100) s = (r, s1)" by fastforce
  have s1: "rows s1 = rows s" "sent s1 = sent s"
    using keepsE [OF keeps_reads(3) g] keepsE [OF repo_keeps_sent(8) g] by auto
  have idle: ?thesis if "s' = s1"
    using that s1 marked_refl [of "{}" "rows s"] by (intro exI [of _ "[]"] exI [of _ "0::int"]) simp
  show ?thesis
  proof (cases r)
    case (Inl e)
    with run g have "s' = s1" by (simp add: pollAndPublish_def NewScheduler_def)
    then show ?thesis by (rule idle)
  next
    case (Inr ns)
    from get_pending [OF g] Inr obtain t where t: "mset ns \<subseteq># mset (filter (due t) (rows s))"
      "length ns \<le> 100"
      by (auto simp: pending_spec_def)
    have sub: "\<forall>n \<in> set ns. n \<in> set (rows s) \<and> due t n"
      using set_mset_mono [OF t(1)] by auto
    have ids: "distinct (map n_ID (rows s))" using ok by (simp add: store_ok_def)
    then have "distinct (filter (due t) (rows s))" by (simp add: distinct_map)
    then have d: "distinct ns" using t(1) by (rule distinct_submset)
    show ?thesis
    proof (cases "ns = []")
      case True
      with run g Inr have "s' = s1" by (simp add: pollAndPublish_def NewScheduler_def)
      then show ?thesis by (rule idle)
    next
      case False
      with run g Inr have "run_state (publish_due (NewScheduler repo pub) ns) s1 = (u, s')"
        by (simp add: pollAndPublish_def NewScheduler_def)
      from publish_due_spec [OF _ ids _ this, of "{}"] s1 sub obtain ns' ms where
        p: "subseq ns' ns" "sent s' = sent s @ ms" "list_all2 carries ns' ms"
          "marked (set ns') (rows s) (rows s')"
        by (auto simp: marked_refl subset_iff)
      have "distinct ns'" "length ns' \<le> 100" "set ns' \<subseteq> set ns"
        using p(1) d t(2) list_emb_length [OF p(1)] subseq_set [OF p(1)] subseq_distinct [OF p(1)] by auto
      with p sub show ?thesis by blast
    qed
  qed
qed

end

text \<open>C13. A poll of the scheduler loses nothing: whatever calls fail, the messages it publishes
  carry distinct due notifications of the table, at most 100; every row it changes is one
  whose message the broker accepted and is now queued with its identity, content and schedule
  as before; and every other row is left exactly as it was, so that a due notification that
  could not be published is picked up again.\<close>

theorem scheduler_poll:
  assumes "store_ok (pg_notifications s)"
    "run_state (pollAndPublish (NewScheduler notificationRepo (rabbitPublisher codec cfg))) s = (u, s')"
  shows "\<exists>sel ms t. published (amqp_log s') = published (amqp_log s) @ ms \<and>
    list_all2 (carries_notification codec cfg) sel ms \<and> distinct sel \<and> length sel \<le> 100 \<and>
    (\<forall>n \<in> set sel. n \<in> set (pg_notifications s) \<and> due t n) \<and>
    list_all2 (\<lambda>n n'. n' = n \<or> n \<in> set sel \<and> n_Status n' = StatusQueued \<and> message_part n' = message_part n)
      (pg_notifications s) (pg_notifications s')"
  using pg_rabbit.poll_lemma [OF assms] unfolding marked_def queued_row_def .

text \<open>One due row, for the examples.\<close>

definition calm_rabbit :: "notification list \<Rightarrow> amqp" where
  "calm_rabbit rows = calm_amqp\<lparr>pg_notifications := rows\<rparr>"

definition plain_codec :: json_codec where
  "plain_codec = \<lparr>marshal = (\<lambda>n. Inr (n_Content n)), unmarshal = (\<lambda>s. Inr (zero_notification\<lparr>n_Content := s\<rparr>))\<rparr>"

lemma calm_rabbit_simps [simp]:
  "pg_notifications (calm_rabbit rows) = rows" "amqp_log (calm_rabbit rows) = []"
  "pg_fault (calm_rabbit rows) = (\<lambda>_. None)" "amqp_fault (calm_rabbit rows) = (\<lambda>_. None)"
  "pg_now (calm_rabbit rows) = (\<lambda>_. 1000)" "pg_scan (calm_rabbit rows) = (\<lambda>_ _. 0)"
  by (simp_all add: calm_rabbit_def calm_amqp_def)

lemma store_ok_sample: "store_ok [sample i st]"
  by (simp add: store_ok_def key_list_def map_filter_simps sample_def zero_notification_def)

theorem scheduler_poll_witness:
  "\<exists>sel ms t. published (amqp_log (run_final (pollAndPublish (NewScheduler notificationRepo
        (rabbitPublisher plain_codec default_rabbitmq))) (calm_rabbit [sample 7 StatusPending]))) = ms \<and>
     list_all2 (carries_notification plain_codec default_rabbitmq) sel ms \<and>
     (\<forall>n \<in> set sel. n = sample 7 StatusPending \<and> due t n)"
  using scheduler_poll [of "calm_rabbit [sample 7 StatusPending]", OF _ prod.collapse [symmetric]]
  by (force simp: store_ok_sample)

section \<open>Progress without failures\<close>










end
