(* ===== verification/Service_Props.thy ===== *)
theory Service_Props
  imports Service_Spec Scheduler
begin

text \<open>
  \<open>CreateBatch\<close> against its specification, the interpretation of \<open>service_env\<close> on
  PostgreSQL and RabbitMQ, and the properties of the service.
\<close>

section \<open>A batch\<close>

lemma create_batch_spec_ok:
  assumes "create_batch_spec ns rs (Inr ns') rs'" "store_ok rs"
  obtains t where "ns' = map (stamped t) ns" "rs' = rs @ map (stored_row t) ns" "store_ok rs'"
proof -
  from assms(1) have ex: "\<exists>t. ns' = map (stamped t) ns \<and> rs' = rs @ map (stored_row t) ns"
    and ok: "store_ok rs \<longrightarrow> store_ok rs'"
    unfolding create_batch_spec_def sum.case by iprover+
  from ex obtain t where "ns' = map (stamped t) ns \<and> rs' = rs @ map (stored_row t) ns" ..
  with ok assms(2) that show thesis by iprover
qed

text \<open>
  What a batch response says of one item: rejected with the errors of its validation, or
  accepted under the identifier of the notification that has its key already or of a new
  notification of this batch.
\<close>

definition item_outcome ::
  "(string \<Rightarrow> bool) \<Rightarrow> notification list \<Rightarrow> uuid \<Rightarrow> notification set \<Rightarrow> create_request \<Rightarrow>
     batch_item_result \<Rightarrow> bool"
where
  "item_outcome mail_ok rs batch new item res \<longleftrightarrow>
     (\<exists>now. if Validate mail_ok now item \<noteq> []
            then bi_Status res = ''rejected'' \<and> bi_ID res = None \<and>
              bi_Errors res = Validate mail_ok now item
            else bi_Status res = ''accepted'' \<and> bi_Errors res = [] \<and>
              (\<exists>u. bi_ID res = Some u \<and>
                ((\<exists>m \<in> set rs. n_ID m = u \<and> n_IdempotencyKey m = r_IdempotencyKey item \<and>
                    r_IdempotencyKey item \<noteq> None) \<or>
                 new_notification u (Some batch) item \<in> new)))"

lemma item_outcome_mono:
  "item_outcome p rs b new item res \<Longrightarrow> new \<subseteq> new' \<Longrightarrow> item_outcome p rs b new' item res"
  unfolding item_outcome_def by (elim exE) (rule exI, auto split: if_splits)

text \<open>A notification a batch adds: made from one of its items, which is valid.\<close>

definition batch_member ::
  "(string \<Rightarrow> bool) \<Rightarrow> uuid \<Rightarrow> create_request list \<Rightarrow> notification \<Rightarrow> bool"
where
  "batch_member p b items n \<longleftrightarrow>
     (\<exists>u. \<exists>item \<in> set items. n = new_notification u (Some b) item \<and> (\<exists>now. Validate p now item = []))"

lemma batch_member_Cons: "batch_member p b items n \<Longrightarrow> batch_member p b (item # items) n"
  unfolding batch_member_def by (meson list.set_intros(2))

lemma batch_members_Cons:
  "list_all (batch_member p b items) ns \<Longrightarrow> list_all (batch_member p b (item # items)) ns"
  by (simp add: list_all_iff batch_member_Cons)

lemma batch_member_new:
  "Validate p now item = [] \<Longrightarrow> batch_member p b (item # items) (new_notification u (Some b) item)"
  unfolding batch_member_def by force

text \<open>
  The response \<open>resp'\<close> and the notifications \<open>acc'\<close> after some items, from those before.
\<close>

definition batch_grows ::
  "(string \<Rightarrow> bool) \<Rightarrow> notification list \<Rightarrow> uuid \<Rightarrow> nat \<Rightarrow> create_request list \<Rightarrow>
     batch_create_response \<Rightarrow> notification list \<Rightarrow> batch_create_response \<Rightarrow> notification list \<Rightarrow> bool"
where
  "batch_grows p rs b i items resp acc resp' acc' \<longleftrightarrow>
     (\<exists>res new. br_Notifications resp' = br_Notifications resp @ res \<and> acc' = acc @ new \<and>
        list_all2 (item_outcome p rs b (set new)) items res \<and>
        map bi_Index res = [i ..< i + length items] \<and>
        br_TotalAccepted resp' + br_TotalRejected resp' =
          br_TotalAccepted resp + br_TotalRejected resp + length items \<and>
        br_TotalRejected resp' =
          br_TotalRejected resp + length (filter (\<lambda>r. bi_Status r = ''rejected'') res) \<and>
        br_BatchID resp' = br_BatchID resp \<and>
        list_all (batch_member p b items) new)"

lemma batch_grows_Nil: "batch_grows p rs b i [] resp acc resp acc"
  unfolding batch_grows_def by (intro exI [of _ "[]"]) simp

lemma batch_grows_reject:
  assumes "Validate p now item \<noteq> []" 
    "batch_grows p rs b (Suc i) items (reject_item i (Validate p now item) resp) acc resp' acc'"
  shows "batch_grows p rs b i (item # items) resp acc resp' acc'"
proof -
  obtain res new where g: "br_Notifications resp' = br_Notifications resp @
      \<lparr>bi_Index = i, bi_ID = None, bi_Status = ''rejected'', bi_Errors = Validate p now item\<rparr> # res"
    "acc' = acc @ new" "list_all2 (item_outcome p rs b (set new)) items res"
    "map bi_Index res = [Suc i ..< Suc i + length items]"
    and rest: "br_TotalAccepted resp' + br_TotalRejected resp' =
        br_TotalAccepted resp + br_TotalRejected resp + length (item # items)"
      "br_TotalRejected resp' = br_TotalRejected resp + length (filter (\<lambda>r. bi_Status r = ''rejected'')
        (\<lparr>bi_Index = i, bi_ID = None, bi_Status = ''rejected'', bi_Errors = Validate p now item\<rparr> # res))"
      "br_BatchID resp' = br_BatchID resp"
      "list_all (batch_member p b items) new"
    using assms(2) by (auto simp: batch_grows_def reject_item_def)
  let ?x = "\<lparr>bi_Index = i, bi_ID = None, bi_Status = ''rejected'', bi_Errors = Validate p now item\<rparr>"
  have "item_outcome p rs b (set new) item ?x"
    unfolding item_outcome_def by (rule exI [of _ now]) (use assms(1) in simp)
  then have "list_all2 (item_outcome p rs b (set new)) (item # items) (?x # res)"
    using g(3) by simp
  moreover have "map bi_Index (?x # res) = [i ..< i + length (item # items)]"
    using g(4) by (simp add: upt_conv_Cons del: upt_Suc)
  ultimately show ?thesis
    unfolding batch_grows_def using g(1,2) rest(1-3) batch_members_Cons [OF rest(4), of item]
    by (intro exI [of _ "?x # res"] exI [of _ new]) simp
qed

lemma batch_grows_accept:
  assumes valid: "Validate p now item = []"
    and known: "new0 = [] \<and> (\<exists>m \<in> set rs. n_ID m = u \<and> n_IdempotencyKey m = r_IdempotencyKey item \<and>
        r_IdempotencyKey item \<noteq> None) \<or> new0 = [new_notification u (Some b) item]"
    and grows: "batch_grows p rs b (Suc i) items (accept_item i u resp) (acc @ new0) resp' acc'"
  shows "batch_grows p rs b i (item # items) resp acc resp' acc'"
proof -
  let ?x = "\<lparr>bi_Index = i, bi_ID = Some u, bi_Status = ''accepted'', bi_Errors = []\<rparr>"
  obtain res new where g: "br_Notifications resp' = br_Notifications resp @ ?x # res"
    "acc' = acc @ new0 @ new" "list_all2 (item_outcome p rs b (set new)) items res"
    "map bi_Index res = [Suc i ..< Suc i + length items]"
    and rest: "br_TotalAccepted resp' + br_TotalRejected resp' =
        br_TotalAccepted resp + br_TotalRejected resp + length (item # items)"
      "br_TotalRejected resp' = br_TotalRejected resp +
        length (filter (\<lambda>r. bi_Status r = ''rejected'') (?x # res))"
      "br_BatchID resp' = br_BatchID resp"
      "list_all (batch_member p b items) new"
    using grows by (auto simp: batch_grows_def accept_item_def)
  have "item_outcome p rs b (set (new0 @ new)) item ?x"
    unfolding item_outcome_def by (rule exI [of _ now]) (use valid known in auto)
  moreover have "list_all2 (item_outcome p rs b (set (new0 @ new))) items res"
    using g(3) by (rule list_all2_mono) (erule item_outcome_mono, simp)
  ultimately have "list_all2 (item_outcome p rs b (set (new0 @ new))) (item # items) (?x # res)"
    by simp
  moreover have "map bi_Index (?x # res) = [i ..< i + length (item # items)]"
    using g(4) by (simp add: upt_conv_Cons del: upt_Suc)
  moreover have "list_all (batch_member p b (item # items)) (new0 @ new)"
    using batch_members_Cons [OF rest(4), of item] known batch_member_new [OF valid, of b items u]
    by auto
  ultimately show ?thesis
    unfolding batch_grows_def using g(1,2) rest(1-3)
    by (intro exI [of _ "?x # res"] exI [of _ "new0 @ new"]) simp
qed

context service_env
begin

lemma existing_run:
  assumes "run_state (batch_existing svc key) s = (r, s1)"
  shows "same_world rows sent s s1 \<and>
    (\<forall>n. r = Some n \<longrightarrow> key \<noteq> None \<and> n \<in> set (rows s) \<and> n_IdempotencyKey n = key)"
proof (cases key)
  case None
  with assms show ?thesis by (auto simp: batch_existing_def same_world_def)
next
  case (Some k)
  obtain r0 s0 where g: "run_state (repo_GetByIdempotencyKey repo k) s = (r0, s0)" by fastforce
  from get_by_key [OF g] keepsE [OF repo_keeps_sent(4) g] assms g Some show ?thesis
    by (auto simp: batch_existing_def svc_parts lookup_spec_def same_world_def split: sum.splits)
qed

lemma batch_items_run:
  assumes "run_state (batch_items svc b i items resp acc) s = ((resp', acc'), s')"
  shows "same_world rows sent s s' \<and>
    batch_grows (svc_mail_ok svc) (rows s) b i items resp acc resp' acc'"
  using assms
proof (induction items arbitrary: i resp acc s)
  case Nil
  then show ?case by (simp add: same_world_def batch_grows_Nil)
next
  case (Cons item items)
  obtain errs s1 where v: "run_state (validate_request svc item) s = (errs, s1)" by fastforce
  from validate_run [OF v] obtain now where w1: "same_world rows sent s s1"
    "errs = Validate (svc_mail_ok svc) now item" by auto
  show ?case
  proof (cases "errs = []")
    case False
    with Cons.prems v have "run_state (batch_items svc b (Suc i) items (reject_item i errs resp) acc) s1 =
        ((resp', acc'), s')" by simp
    from Cons.IH [OF this] w1 False show ?thesis
      by (auto simp: same_world_def intro: batch_grows_reject)
  next
    case valid: True
    obtain hit s2 where h: "run_state (batch_existing svc (r_IdempotencyKey item)) s1 = (hit, s2)"
      by fastforce
    from existing_run [OF h] w1 have w2: "same_world rows sent s s2" by (auto simp: same_world_def)
    show ?thesis
    proof (cases hit)
      case (Some m)
      with Cons.prems v valid h have "run_state (batch_items svc b (Suc i) items
          (accept_item i (n_ID m) resp) (acc @ [])) s2 = ((resp', acc'), s')" by simp
      from Cons.IH [OF this] w2 have "same_world rows sent s s'"
        and g: "batch_grows (svc_mail_ok svc) (rows s) b (Suc i) items (accept_item i (n_ID m) resp)
          (acc @ []) resp' acc'" by (auto simp: same_world_def)
      moreover have "\<exists>m' \<in> set (rows s). n_ID m' = n_ID m \<and>
          n_IdempotencyKey m' = r_IdempotencyKey item \<and> r_IdempotencyKey item \<noteq> None"
        using existing_run [OF h] Some w1 by (auto simp: same_world_def)
      ultimately show ?thesis
        using batch_grows_accept [OF _ disjI1 g] w1(2) valid by blast
    next
      case None
      obtain u s3 where u: "run_state uuid_New s2 = (u, s3)" by fastforce
      have w3: "same_world rows sent s s3"
        using w2 keepsE [OF runtime_keeps(3) u] keepsE [OF runtime_keeps(4) u]
        by (simp add: same_world_def)
      from Cons.prems v valid h None u have "run_state (batch_items svc b (Suc i) items
          (accept_item i u resp) (acc @ [new_notification u (Some b) item])) s3 = ((resp', acc'), s')"
        by (simp del: run_uuid_New)
      from Cons.IH [OF this] w3 have "same_world rows sent s s'"
        and g: "batch_grows (svc_mail_ok svc) (rows s) b (Suc i) items (accept_item i u resp)
          (acc @ [new_notification u (Some b) item]) resp' acc'" by (auto simp: same_world_def)
      then show ?thesis
        using batch_grows_accept [OF _ disjI2 [OF refl] g] w1(2) valid by blast
    qed
  qed
qed

text \<open>Publishing what was inserted, as in a poll of the scheduler.\<close>

lemma publish_accepted_run:
  assumes "marked sel rs (rows s)" "distinct (map n_ID rs)" "set ns \<subseteq> set rs"
    and "run_state (publish_accepted svc ns) s = (u, s')"
  shows "\<exists>ns' ms. subseq ns' ns \<and> sent s' = sent s @ ms \<and> list_all2 carries ns' ms \<and>
    marked (sel \<union> set ns') rs (rows s')"
  using assms
proof (induction ns arbitrary: s sel)
  case Nil
  then show ?case by (intro exI [of _ "[]"]) auto
next
  case (Cons n ns)
  obtain now s0 where p: "run_state (publish_at_once n) s = (now, s0)" by fastforce
  from publish_at_once_run [OF p] have s0: "rows s0 = rows s" "sent s0 = sent s"
    by (simp_all add: same_world_def)
  have skip: ?case if "rows s1 = rows s" "sent s1 = sent s"
    "run_state (publish_accepted svc ns) s1 = (u, s')" for s1
  proof -
    have "marked sel rs (rows s1)" using that(1) Cons.prems(1) by simp
    from Cons.IH [OF this Cons.prems(2) _ that(3)] that(2) Cons.prems(3) obtain ns' ms where
      "subseq ns' ns" "sent s' = sent s @ ms" "list_all2 carries ns' ms"
      "marked (sel \<union> set ns') rs (rows s')" by auto
    then show ?thesis by (meson list_emb_Cons)
  qed
  show ?case
  proof (cases now)
    case False
    with Cons.prems(4) p have "run_state (publish_accepted svc ns) s0 = (u, s')" by simp
    from skip [OF s0 this] show ?thesis .
  next
    case True
    obtain b s1 where h: "run_state (hand_over repo pub n) s0 = (b, s1)" by fastforce
    with Cons.prems(4) p True have rest: "run_state (publish_accepted svc ns) s1 = (u, s')"
      by (simp add: svc_parts)
    have m0: "marked sel rs (rows s0)" "n \<in> set rs" using Cons.prems(1,3) s0 by simp_all
    note spec = hand_over_spec [OF h m0(1) Cons.prems(2) m0(2)]
    show ?thesis
    proof (cases b)
      case True
      with spec s0 obtain m where m: "sent s1 = sent s @ [m]" "carries n m"
        "marked (insert n sel) rs (rows s1)" by auto
      from Cons.IH [OF m(3) Cons.prems(2) _ rest] Cons.prems(3) obtain ns' ms where
        ih: "subseq ns' ns" "sent s' = sent s1 @ ms" "list_all2 carries ns' ms"
          "marked (insert n sel \<union> set ns') rs (rows s')" by auto
      show ?thesis
        by (rule exI [of _ "n # ns'"], rule exI [of _ "m # ms"]) (use ih m in auto)
    next
      case False
      with spec s0 show ?thesis by (intro skip [OF _ _ rest]) simp_all
    qed
  qed
qed

text \<open>The end of \<open>CreateBatch\<close>: the accepted items are inserted and published.\<close>

lemma store_batch_run:
  assumes ok: "store_ok (rows s)"
    and new: "\<forall>n \<in> set acc. \<exists>u item. n = new_notification u (Some b) item"
    and run: "run_state (do {
       r \<leftarrow> repo_CreateBatch repo acc;
       case r of
         Inl err \<Rightarrow> return (Inl (Wrapped ''batch insert'' err))
       | Inr stored \<Rightarrow> do { publish_accepted svc stored; return (Inr resp) } }) s = (r, s')"
  shows "case r of
      Inl e \<Rightarrow> rows s' = rows s \<and> sent s' = sent s
    | Inr resp' \<Rightarrow> resp' = resp \<and> (\<exists>t sel ms.
        subseq sel (map (stamped t) acc) \<and> sent s' = sent s @ ms \<and> list_all2 carries sel ms \<and>
        marked (set sel) (rows s @ map (stamped t) acc) (rows s') \<and>
        store_ok (rows s @ map (stamped t) acc))"
proof -
  obtain c s1 where c: "run_state (repo_CreateBatch repo acc) s = (c, s1)" by fastforce
  have w1: "sent s1 = sent s" using keepsE [OF repo_keeps_sent(2) c] .
  show ?thesis
  proof (cases c)
    case (Inl e)
    with run c create_batch [OF c] w1 show ?thesis by (auto simp: create_batch_spec_def)
  next
    case (Inr stored)
    with create_batch [OF c] have "create_batch_spec acc (rows s) (Inr stored) (rows s1)" by simp
    then obtain t where
      t: "stored = map (stamped t) acc" "rows s1 = rows s @ map (stored_row t) acc" "store_ok (rows s1)"
      using ok by (rule create_batch_spec_ok)
    have "map (stored_row t) acc = map (stamped t) acc"
      using new stored_new by (intro map_cong) auto
    with t have rows1: "rows s1 = rows s @ map (stamped t) acc" by simp
    obtain s2 where p: "run_state (publish_accepted svc stored) s1 = ((), s2)"
      by (cases "run_state (publish_accepted svc stored) s1") simp
    with run c Inr have r: "r = Inr resp" "s' = s2" by simp_all
    have "distinct (map n_ID (rows s1))" using t(3) by (simp add: store_ok_def)
    from publish_accepted_run [OF marked_refl this _ p, of "{}"] t(1) rows1 w1
    obtain sel ms where "subseq sel stored" "sent s2 = sent s @ ms" "list_all2 carries sel ms"
      "marked (set sel) (rows s1) (rows s2)" by auto
    with t(1,3) rows1 r show ?thesis by auto
  qed
qed

text \<open>
  The whole of \<open>CreateBatch\<close>: nothing on an error, else the new notifications \<open>new\<close> are
  appended to the table and some of them are published and marked.
\<close>

lemma create_batch_lemma:
  assumes ok: "store_ok (rows s)"
    and run: "run_state (notificationService_CreateBatch svc req) s = (r, s')"
  shows "case r of
      Inl e \<Rightarrow> rows s' = rows s \<and> sent s' = sent s
    | Inr resp \<Rightarrow> \<exists>acc t sel ms.
        batch_grows (svc_mail_ok svc) (rows s) (br_BatchID resp) 0 (b_Notifications req)
          \<lparr>br_BatchID = br_BatchID resp, br_TotalAccepted = 0, br_TotalRejected = 0,
           br_Notifications = []\<rparr> [] resp acc \<and>
        subseq sel (map (stamped t) acc) \<and> sent s' = sent s @ ms \<and> list_all2 carries sel ms \<and>
        marked (set sel) (rows s @ map (stamped t) acc) (rows s') \<and>
        store_ok (rows s @ map (stamped t) acc)"
proof (cases "length (b_Notifications req) = 0 \<or> length (b_Notifications req) > 1000")
  case True
  then have "run_state (notificationService_CreateBatch svc req) s =
      (Inl (ValidationErr [VE ''notifications''
         (if length (b_Notifications req) = 0 then ''at least 1 notification required''
          else ''maximum 1000 notifications per batch'')]), s)"
    by (cases "b_Notifications req = []") (simp_all add: notificationService_CreateBatch_def)
  with run show ?thesis by (auto simp del: length_0_conv)
next
  case False
  obtain b s1 where u: "run_state uuid_New s = (b, s1)" by fastforce
  let ?resp0 = "\<lparr>br_BatchID = b, br_TotalAccepted = 0, br_TotalRejected = 0, br_Notifications = []\<rparr>"
  obtain resp acc s2 where i: "run_state (batch_items svc b 0 (b_Notifications req) ?resp0 []) s1 = ((resp, acc), s2)"
    by (metis prod.exhaust)
  have w1: "same_world rows sent s s1"
    using keepsE [OF runtime_keeps(3) u] keepsE [OF runtime_keeps(4) u] by (simp add: same_world_def)
  from batch_items_run [OF i] w1 have w2: "rows s2 = rows s" "sent s2 = sent s"
    and g: "batch_grows (svc_mail_ok svc) (rows s) b 0 (b_Notifications req) ?resp0 [] resp acc"
    by (auto simp: same_world_def)
  have b: "br_BatchID resp = b" using g by (auto simp: batch_grows_def)
  show ?thesis
  proof (cases "acc = []")
    case True
    with run False u i have "r = Inr resp" "s' = s2"
      by (auto simp: notificationService_CreateBatch_def simp del: run_uuid_New)
    with True g b w2 ok marked_refl [of "{}" "rows s"] show ?thesis by auto
  next
    case nonempty: False
    have new: "\<forall>n \<in> set acc. \<exists>u item. n = new_notification u (Some b) item"
      using g unfolding batch_grows_def list_all_iff batch_member_def by auto blast
    have "run_state (do {
       r \<leftarrow> repo_CreateBatch repo acc;
       case r of
         Inl err \<Rightarrow> return (Inl (Wrapped ''batch insert'' err))
       | Inr stored \<Rightarrow> do { publish_accepted svc stored; return (Inr resp) } }) s2 = (r, s')"
      using run False u i nonempty by (auto simp: notificationService_CreateBatch_def svc_parts simp del: run_uuid_New)
    from store_batch_run [OF _ new this] ok w2 g [folded b] show ?thesis
      by (cases r) (simp, simp, blast)
  qed
qed

end

section \<open>The service on PostgreSQL and RabbitMQ\<close>

definition NewNotificationService ::
  "json_codec \<Rightarrow> rabbitmq_config \<Rightarrow> (string \<Rightarrow> bool) \<Rightarrow> ((string \<times> string) list \<Rightarrow> (string \<times> string) list) \<Rightarrow>
     ('a amqp_scheme) service"
where
  "NewNotificationService codec cfg mail_ok order =
     \<lparr>svc_repo = notificationRepo, svc_tmplRepo = templateRepo,
      svc_publisher = rabbitPublisher codec cfg, svc_mail_ok = mail_ok, svc_order = order\<rparr>"

lemma template_repo_keeps [frame]:
  "keeps pg_notifications (templateRepo_GetByID i)" "keeps amqp_log (templateRepo_GetByID i)"
  unfolding templateRepo_GetByID_def by (rule frame)+

interpretation pg_service: service_env notificationRepo pg_notifications "rabbitPublisher codec cfg"
    "\<lambda>s. published (amqp_log s)" "carries_notification codec cfg" templateRepo pg_templates
    "NewNotificationService codec cfg mail_ok order"
  for codec and cfg and mail_ok and order
proof unfold_locales
qed (simp_all add: NewNotificationService_def template_repo_keeps keeps_time_Now keeps_uuid_New
    keeps_comp [of amqp_log])

lemmas service_parts [simp] = pg_service.svc_parts

lemma svc_mail_ok_New [simp]: "svc_mail_ok (NewNotificationService codec cfg p order) = p"
  by (simp add: NewNotificationService_def)

section \<open>Properties\<close>


text \<open>C12. Idempotency: once a notification with a key has been created, a later \<open>Create\<close> with the
  same key, whatever repository calls ran in between, never stores or publishes anything and
  answers, if it answers, with the identifier of the first one.\<close>

theorem create_idempotent:
  assumes "store_ok (pg_notifications s)" "r_IdempotencyKey req = Some k" "r_IdempotencyKey req' = Some k"
    "run_state (notificationService_Create (NewNotificationService codec cfg mail_ok order) req) s = (Inr n, s1)"
    "run_state (notificationService_Create (NewNotificationService codec cfg mail_ok order) req')
       (exec_ops notificationRepo ops s1) = (r, s3)"
  shows "pg_notifications s3 = pg_notifications (exec_ops notificationRepo ops s1) \<and>
    published (amqp_log s3) = published (amqp_log (exec_ops notificationRepo ops s1)) \<and>
    (\<forall>n'. r = Inr n' \<longrightarrow> n_ID n' = n_ID n)"
proof -
  let ?s2 = "exec_ops notificationRepo ops s1"
  have c: "create_outcome (carries_notification codec cfg) req (pg_notifications s)
      (published (amqp_log s)) (Inr n) (pg_notifications s1) (published (amqp_log s1))"
    by (rule pg_service.create_lemma [OF assms(1,4)])
  then obtain row where "row \<in> set (pg_notifications s1)" "message_part row = message_part n"
    "n_IdempotencyKey n = r_IdempotencyKey req"
    by (rule create_outcome_row)
  then have row: "row \<in> set (pg_notifications s1)" "n_ID row = n_ID n" "n_IdempotencyKey row = Some k"
    using assms(2) by (auto simp: message_part_def)
  have ok: "store_ok (pg_notifications s1)"
    using create_outcome_ok [OF c assms(1)] .
  have "message_part row \<in> set (map message_part (pg_notifications s1))" using row(1) by simp
  then have "message_part row \<in> set (map message_part (pg_notifications ?s2))"
    using pg_store.exec_ops_history [of s1 ops] set_mono_prefix by blast
  then obtain m where m: "m \<in> set (pg_notifications ?s2)" "message_part m = message_part row"
    by auto
  then have "n_ID m = n_ID n" "n_IdempotencyKey m = r_IdempotencyKey req'"
    using row assms(3) by (auto simp: message_part_def)
  with pg_service.create_known_key [OF pg_store.exec_ops_ok [OF ok] m(1) _ _ assms(5)] assms(3)
  show ?thesis by auto
qed

text \<open>A small service, for the examples: every address is accepted, maps are visited in the
  order they are written.\<close>

definition small_service :: "amqp service" where
  "small_service = NewNotificationService plain_codec default_rabbitmq (\<lambda>_. True) (\<lambda>vs. vs)"

definition push_request :: "string option \<Rightarrow> uuid option \<Rightarrow> create_request" where
  "push_request key tid = \<lparr>r_Recipient = ''token'', r_Channel = ChannelPush, r_Content = ''hi'',
     r_Subject = None, r_Priority = PriorityHigh, r_IdempotencyKey = key, r_ScheduledAt = None,
     r_TemplateID = tid, r_Variables = []\<rparr>"

lemma push_request_simps [simp]:
  "r_Recipient (push_request key tid) = ''token''" "r_Channel (push_request key tid) = ChannelPush"
  "r_Content (push_request key tid) = ''hi''" "r_Subject (push_request key tid) = None"
  "r_Priority (push_request key tid) = PriorityHigh" "r_IdempotencyKey (push_request key tid) = key"
  "r_ScheduledAt (push_request key tid) = None" "r_TemplateID (push_request key tid) = tid"
  "r_Variables (push_request key tid) = []"
  by (simp_all add: push_request_def)

lemma push_request_valid: "Validate p now (push_request key tid) = []"
  unfolding Validate_Nil acceptable_def
  by (simp add: acceptable_recipient_def channel_limit_def rune_count.simps rune_size_def)

text \<open>Running a whole request in the examples.\<close>

lemmas create_run = notificationService_Create_def validate_request_def push_request_valid
  idempotency_check_def resolve_template_def small_service_def publish_new_def publish_at_once_def
  notificationRepo_Create_def run_pg_notifications_stmt insert_row_def row_conflict_def
  hand_over_def rabbitPublisher_Publish_def amqp_do_cases plain_codec_def Let_def
  notificationRepo_UpdateStatus_def update_rows_eq notificationRepo_GetByIdempotencyKey_def
  select_one_def

lemma store_ok_Nil [simp]: "store_ok []"
  by (simp add: store_ok_def key_list_def map_filter_simps)


theorem create_idempotent_witness:
  "\<exists>n. run_result (notificationService_Create small_service (push_request (Some ''k'') None)) (calm_rabbit []) = Inr n \<and>
     (\<forall>n'. run_result (notificationService_Create small_service (push_request (Some ''k'') None))
        (exec_ops notificationRepo [DoCancel (n_ID n)]
          (run_final (notificationService_Create small_service (push_request (Some ''k'') None)) (calm_rabbit []))) =
          Inr n' \<longrightarrow> n_ID n' = n_ID n)"
proof -
  let ?c = "notificationService_Create small_service (push_request (Some ''k'') None)"
  obtain n where n: "run_result ?c (calm_rabbit []) = Inr n"
    by (simp add: create_run)
  then have r: "run_state ?c (calm_rabbit []) = (Inr n, run_final ?c (calm_rabbit []))"
    by (simp add: prod_eq_iff)
  have "store_ok (pg_notifications (calm_rabbit []))" by simp
  from create_idempotent [where ops = "[DoCancel (n_ID n)]" and req' = "push_request (Some ''k'') None",
      OF this push_request_simps(6) push_request_simps(6) r [unfolded small_service_def]
        prod.collapse [symmetric]]
  show ?thesis using n unfolding small_service_def by (intro exI [of _ n]) blast
qed

text \<open>C25. A request that breaks the validation rules is refused with its errors before anything
  is looked up, stored or published: only the clock may have been read.\<close>

theorem create_rejects_invalid:
  assumes "\<not> acceptable mail_ok (rt_now s (rt_reads s)) req"
  shows "\<exists>k. run_state (notificationService_Create (NewNotificationService codec cfg mail_ok order) req) s =
      (Inl (ValidationErr (Validate mail_ok (rt_now s (rt_reads s)) req)), s\<lparr>rt_reads := k\<rparr>) \<and>
    Validate mail_ok (rt_now s (rt_reads s)) req \<noteq> []"
proof (cases "r_ScheduledAt req")
  case None
  then have "Validate mail_ok 0 req = Validate mail_ok (rt_now s (rt_reads s)) req"
    by (rule Validate_unscheduled)
  moreover have "Validate mail_ok (rt_now s (rt_reads s)) req \<noteq> []"
    using assms by (simp add: Validate_Nil)
  ultimately show ?thesis
    using None by (intro exI [of _ "rt_reads s"])
      (simp add: notificationService_Create_def validate_request_def)
next
  case (Some t)
  with assms show ?thesis
    by (intro exI [of _ "Suc (rt_reads s)"])
      (simp add: notificationService_Create_def validate_request_def Validate_Nil)
qed

theorem create_rejects_invalid_witness:
  "run_result (notificationService_Create small_service (push_request None None\<lparr>r_Recipient := []\<rparr>)) (calm_rabbit []) =
     Inl (ValidationErr [VE ''recipient'' ''push device token is required''])"
proof -
  let ?req = "push_request None None\<lparr>r_Recipient := []\<rparr>"
  have v: "Validate (\<lambda>_. True) t ?req = [VE ''recipient'' ''push device token is required'']" for t
    by (simp add: Validate_def check_recipient_def err_if_def check_length_def max_length_defs
        rune_count.simps rune_size_def)
  then have "\<not> acceptable (\<lambda>_. True) (rt_now (calm_rabbit []) (rt_reads (calm_rabbit []))) ?req"
    by (simp add: Validate_Nil [symmetric])
  from create_rejects_invalid [OF this, of plain_codec default_rabbitmq "\<lambda>vs. vs"] v show ?thesis
    by (auto simp: small_service_def)
qed


end
