(* ===== verification/Api_Response.thy ===== *)
theory Api_Response
  imports Service_Props Go_Float
begin

text \<open>
  \<open>internal/model/response.go\<close>: the envelope of every answer of the API, and the helpers of
  \<open>internal/handler/notification.go\<close> that fill it. The payload, an \<open>interface{}\<close> in the code, is
  one of the values the handlers put there.
\<close>

definition ErrCodeInvalidRequest :: string where "ErrCodeInvalidRequest = ''INVALID_REQUEST''"
definition ErrCodeValidation :: string where "ErrCodeValidation = ''VALIDATION_ERROR''"
definition ErrCodeNotFound :: string where "ErrCodeNotFound = ''NOT_FOUND''"
definition ErrCodeDuplicate :: string where "ErrCodeDuplicate = ''DUPLICATE''"
definition ErrCodeInvalidID :: string where "ErrCodeInvalidID = ''INVALID_ID''"
definition ErrCodeInvalidFilter :: string where "ErrCodeInvalidFilter = ''INVALID_FILTER''"
definition ErrCodeInternal :: string where "ErrCodeInternal = ''INTERNAL_ERROR''"
definition ErrCodeMetrics :: string where "ErrCodeMetrics = ''METRICS_ERROR''"

record api_error =
  ae_Code :: string
  ae_Message :: string
  ae_Details :: "validation_error list"

record meta =
  m_Page :: int
  m_PageSize :: int
  m_Total :: int
  m_TotalPages :: int

datatype payload =
    PNotification notification
  | PBatch batch_create_response
  | NotificationListResponse "notification list"
  | PTemplate template
  | PTemplates "template list"
  | PMessage string \<comment> \<open>\<open>gin.H{"message": ...}\<close>\<close>

record api_response =
  ar_Success :: bool
  ar_Data :: "payload option"
  ar_Error :: "api_error option"
  ar_Meta :: "meta option"

text \<open>An answer is a status and its body; an error of the request itself answers nothing else.\<close>

type_synonym answer = "int \<times> api_response"

definition respondSuccess :: "int \<Rightarrow> payload \<Rightarrow> meta option \<Rightarrow> answer" where
  "respondSuccess status data mt =
     (status, \<lparr>ar_Success = True, ar_Data = Some data, ar_Error = None, ar_Meta = mt\<rparr>)"

definition respondError :: "int \<Rightarrow> string \<Rightarrow> string \<Rightarrow> validation_error list \<Rightarrow> answer" where
  "respondError status code message details =
     (status, \<lparr>ar_Success = False, ar_Data = None,
        ar_Error = Some \<lparr>ae_Code = code, ae_Message = message, ae_Details = details\<rparr>, ar_Meta = None\<rparr>)"

definition handleServiceError :: "go_error \<Rightarrow> answer" where
  "handleServiceError err =
     (case errors_As_ValidationErr err of
        Some es \<Rightarrow> respondError 400 ErrCodeValidation ''validation failed'' es
      | None \<Rightarrow>
          (case errors_As_NotFoundErr err of
             Some nf \<Rightarrow> respondError 404 ErrCodeNotFound (error_text err) []
           | None \<Rightarrow> respondError 500 ErrCodeInternal ''unexpected error'' []))"

text \<open>What every answer is: a success with data and no error below 400, or the reverse.\<close>

definition proper :: "answer \<Rightarrow> bool" where
  "proper a \<longleftrightarrow> (case a of (status, body) \<Rightarrow>
     (if ar_Success body then status \<in> {200, 201} \<and> ar_Data body \<noteq> None \<and> ar_Error body = None
      else status \<in> {400, 404, 409, 500} \<and> ar_Data body = None \<and> ar_Error body \<noteq> None \<and> ar_Meta body = None))"

lemma proper_simps [simp]:
  "proper (respondSuccess status data mt) \<longleftrightarrow> status \<in> {200, 201}"
  "proper (respondError status code message details) \<longleftrightarrow> status \<in> {400, 404, 409, 500}"
  "proper (handleServiceError err)"
  by (auto simp: proper_def respondSuccess_def respondError_def handleServiceError_def split: option.split)

lemma status_simps [simp]:
  "fst (respondSuccess status data mt) = status" "fst (respondError status code message details) = status"
  "ar_Success (snd (respondSuccess status data mt))" "\<not> ar_Success (snd (respondError status code message details))"
  "\<not> ar_Success (snd (handleServiceError err))"
  by (simp_all add: respondSuccess_def respondError_def handleServiceError_def split: option.split)

end
