(* ===== verification/Rate_Limiter.thy ===== *)
theory Rate_Limiter
  imports Environment
begin

text \<open>
  \<open>internal/ratelimiter/ratelimiter.go\<close>: the Lua script and \<open>Allow\<close>. The two Redis
  commands of the script are the documented ones; what the limiter needs of them is the
  locale \<open>expiring_counter\<close>.
\<close>

section \<open>Redis commands\<close>

text \<open>\<open>INCR\<close> counts a missing or expired key from 0 and keeps the expiry of a live one;
  \<open>PEXPIRE\<close> sets the expiry of a live key.\<close>

definition live :: "int \<Rightarrow> redis_keys \<Rightarrow> string \<Rightarrow> (int \<times> int option) option" where
  "live now keys key =
     (case keys key of
        Some (v, Some e) \<Rightarrow> if now < e then Some (v, Some e) else None
      | x \<Rightarrow> x)"

definition redis_INCR :: "int \<Rightarrow> string \<Rightarrow> redis_keys \<Rightarrow> int \<times> redis_keys" where
  "redis_INCR now key keys =
     (case live now keys key of
        None \<Rightarrow> (1, keys(key \<mapsto> (1, None)))
      | Some (v, e) \<Rightarrow> (v + 1, keys(key \<mapsto> (v + 1, e))))"

definition redis_PEXPIRE :: "int \<Rightarrow> string \<Rightarrow> int \<Rightarrow> redis_keys \<Rightarrow> redis_keys" where
  "redis_PEXPIRE now key ms keys =
     (case live now keys key of
        None \<Rightarrow> keys
      | Some (v, e) \<Rightarrow> keys(key \<mapsto> (v, Some (now + ms))))"

section \<open>The script and Allow\<close>

definition script ::
  "(string \<Rightarrow> 'k \<Rightarrow> int \<times> 'k) \<Rightarrow> (string \<Rightarrow> int \<Rightarrow> 'k \<Rightarrow> 'k) \<Rightarrow> string \<Rightarrow> int \<Rightarrow> int \<Rightarrow> 'k \<Rightarrow> int \<times> 'k"
where
  "script incr pexpire key limit window keys =
     (let (current, keys1) = incr key keys;
          keys2 = (if current = 1 then pexpire key window keys1 else keys1)
      in (if current \<le> limit then 1 else 0, keys2))"

definition limiter_key :: "string \<Rightarrow> int \<Rightarrow> string" where
  "limiter_key channel second = ''ratelimit:'' @ channel @ '':'' @ itoa second"

text \<open>One run of the script: a call that fails leaves the keys as they were.\<close>

definition script_Run ::
  "string \<Rightarrow> int \<Rightarrow> int \<Rightarrow> ('a redis_scheme, go_error + int) state"
where
  "script_Run key limit window = State (\<lambda>s.
     let k = rd_calls s; now = rd_clock s k; s1 = s\<lparr>rd_calls := Suc k\<rparr>
     in case rd_fault s k of
          Some e \<Rightarrow> (Inl e, s1)
        | None \<Rightarrow>
            let (result, keys) = script (redis_INCR now) (redis_PEXPIRE now) key limit window (rd_keys s)
            in (Inr result, s1\<lparr>rd_keys := keys\<rparr>))"

text \<open>\<open>now.Unix()\<close> and \<open>now.Truncate(time.Second)\<close>.\<close>

definition unix_seconds :: "time \<Rightarrow> int" where "unix_seconds t = t div time_Second"

definition truncate_second :: "time \<Rightarrow> time" where "truncate_second t = t - t mod time_Second"

definition redisRateLimiter_Allow ::
  "int \<Rightarrow> string \<Rightarrow> ('a redis_scheme, go_error + bool \<times> duration) state"
where
  "redisRateLimiter_Allow maxPerSec channel = do {
     now \<leftarrow> time_Now;
     let key = limiter_key channel (unix_seconds now);
     result \<leftarrow> script_Run key maxPerSec 1100;
     case result of
       Inl err \<Rightarrow> return (Inl (Wrapped ''rate limiter'' err))
     | Inr r \<Rightarrow>
         if r = 1 then return (Inr (True, 0))
         else do {
           let nextWindow = truncate_second now + time_Second;
           now2 \<leftarrow> time_Now;
           return (Inr (False, nextWindow - now2))
         }
   }"

record 's rate_limiter =
  rl_Allow :: "string \<Rightarrow> ('s, go_error + bool \<times> duration) state"

definition NewRedisRateLimiter :: "int \<Rightarrow> ('a redis_scheme) rate_limiter" where
  "NewRedisRateLimiter maxPerSec = \<lparr>rl_Allow = redisRateLimiter_Allow maxPerSec\<rparr>"

section \<open>Counting with expiring counters\<close>

text \<open>
  What the script relies on: a counter starts at 1, goes up by one while it is alive, and
  a key whose expiry was set stays alive until then. \<open>counted e0 lk v\<close>: the key was counted
  \<open>v\<close> times, and if it was counted at all it lives until \<open>e0\<close> at least.
\<close>

definition counted :: "int \<Rightarrow> (int \<times> int option) option \<Rightarrow> nat \<Rightarrow> bool" where
  "counted e0 lk v \<longleftrightarrow> lk = None \<and> v = 0 \<or> (\<exists>e. lk = Some (int v, Some e) \<and> e0 \<le> e \<and> 1 \<le> v)"

locale expiring_counter =
  fixes incr :: "int \<Rightarrow> string \<Rightarrow> 'k \<Rightarrow> int \<times> 'k"
    and pexpire :: "int \<Rightarrow> string \<Rightarrow> int \<Rightarrow> 'k \<Rightarrow> 'k"
    and lookup :: "'k \<Rightarrow> string \<Rightarrow> (int \<times> int option) option"
  assumes incr_fresh: "lookup x k = None \<Longrightarrow> incr t k x = (c, x') \<Longrightarrow> c = 1 \<and> lookup x' k = Some (1, None)"
    and incr_live: "lookup x k = Some (v, Some e) \<Longrightarrow> t < e \<Longrightarrow> incr t k x = (c, x') \<Longrightarrow>
      c = v + 1 \<and> lookup x' k = Some (v + 1, Some e)"
    and incr_other: "incr t k x = (c, x') \<Longrightarrow> k' \<noteq> k \<Longrightarrow> lookup x' k' = lookup x k'"
    and pexpire_set: "lookup x k = Some (v, None) \<Longrightarrow> lookup (pexpire t k ms x) k = Some (v, Some (t + ms))"
    and pexpire_other: "k' \<noteq> k \<Longrightarrow> lookup (pexpire t k ms x) k' = lookup x k'"
begin

lemma script_other:
  "script (incr t) (pexpire t) k limit window x = (r, x') \<Longrightarrow> k' \<noteq> k \<Longrightarrow> lookup x' k' = lookup x k'"
  by (auto simp: script_def Let_def pexpire_other dest: incr_other split: prod.splits if_splits)

lemma script_counts:
  assumes "counted e0 (lookup x k) v" "t < e0" "e0 \<le> t + window"
    and run: "script (incr t) (pexpire t) k limit window x = (r, x')"
  shows "counted e0 (lookup x' k) (Suc v) \<and> r = (if int v < limit then 1 else 0)"
proof -
  obtain c x1 where i: "incr t k x = (c, x1)" by fastforce
  from assms(1) consider (fresh) "lookup x k = None" "v = 0"
    | (live) e where "lookup x k = Some (int v, Some e)" "e0 \<le> e" "1 \<le> v"
    by (auto simp: counted_def)
  then show ?thesis
  proof cases
    case fresh
    with incr_fresh [OF _ i] have "c = 1" "lookup x1 k = Some (1, None)" by auto
    with run i fresh assms(3) pexpire_set [of x1 k 1 t window] show ?thesis
      by (auto simp: script_def counted_def)
  next
    case live
    with incr_live [OF live(1) _ i] assms(2) have "c = int v + 1" "lookup x1 k = Some (int v + 1, Some e)"
      by auto
    with run i live show ?thesis by (auto simp: script_def counted_def)
  qed
qed

end

interpretation redis_counter: expiring_counter redis_INCR redis_PEXPIRE "\<lambda>x k. x k"
proof unfold_locales
qed (auto simp: redis_INCR_def redis_PEXPIRE_def live_def split: option.splits if_splits)

section \<open>The limit holds\<close>

lemma append_colon_unique:
  "c \<notin> set b \<Longrightarrow> c \<notin> set b' \<Longrightarrow> a @ c # b = a' @ c # b' \<Longrightarrow> a = a' \<and> b = b'"
proof (induction a arbitrary: a')
  case Nil
  then show ?case by (cases a') auto
next
  case (Cons x a)
  then show ?case by (cases a') auto
qed

lemma nat_digits_chars: "c \<in> set (nat_digits n) \<Longrightarrow> is_digit c"
  using nat_digits_all_digits [of n] by (simp add: list_all_iff)

lemma itoa_no_colon: "CHR '':'' \<notin> set (itoa i)"
  using nat_digits_chars [of "CHR '':''"] by (auto simp: itoa_def is_digit_def)

lemma itoa_inject: "itoa i = itoa j \<longleftrightarrow> i = j"
proof
  assume eq: "itoa i = itoa j"
  have no: "nat_digits n \<noteq> CHR ''-'' # cs" for n cs
    using nat_digits_hd [of n] sign_not_digit by auto
  then have "i < 0 \<longleftrightarrow> j < 0"
    using eq by (metis append_Cons append_Nil itoa_def)
  with eq show "i = j" by (auto simp: itoa_def nat_digits_inject split: if_splits)
qed simp

lemma limiter_key_inject: "limiter_key c w = limiter_key c' w' \<longleftrightarrow> c = c' \<and> w = w'"
  using append_colon_unique [OF itoa_no_colon itoa_no_colon, of c w c' w']
  by (auto simp: limiter_key_def itoa_inject)

text \<open>
  A run of \<open>Allow\<close> for the channels \<open>chs\<close>: for each call the channel, the second its clock
  showed and the answer (\<open>None\<close> for an error). \<open>timely\<close>: each script runs on the server
  within 100 ms of the clock reading its key is made from.
\<close>

fun allow_calls :: "int \<Rightarrow> string list \<Rightarrow> 'a redis_scheme \<Rightarrow> (string \<times> int \<times> bool option) list" where
  "allow_calls maxPerSec [] s = []"
| "allow_calls maxPerSec (ch # chs) s =
     (let (r, s') = run_state (redisRateLimiter_Allow maxPerSec ch) s
      in (ch, unix_seconds (rt_now s (rt_reads s)),
          case r of Inl e \<Rightarrow> None | Inr (allowed, wait) \<Rightarrow> Some allowed) # allow_calls maxPerSec chs s')"

fun timely :: "int \<Rightarrow> string list \<Rightarrow> 'a redis_scheme \<Rightarrow> bool" where
  "timely maxPerSec [] s = True"
| "timely maxPerSec (ch # chs) s =
     (let ms = rt_now s (rt_reads s) div 1000000; server = rd_clock s (rd_calls s)
      in ms \<le> server \<and> server < ms + 100 \<and>
         timely maxPerSec chs (run_final (redisRateLimiter_Allow maxPerSec ch) s))"

definition answers :: "string \<Rightarrow> int \<Rightarrow> (string \<times> int \<times> bool option) list \<Rightarrow> bool list" where
  "answers ch w log = List.map_filter (\<lambda>(c, sec, a). if c = ch \<and> sec = w then a else None) log"

lemma answers_Cons:
  "answers ch w ((c, sec, a) # log) =
     (if c = ch \<and> sec = w then (case a of None \<Rightarrow> [] | Some b \<Rightarrow> [b]) else []) @ answers ch w log"
  by (auto simp: answers_def map_filter_simps split: option.split)

lemma div_1000_bounds: "w = n div 1000 \<Longrightarrow> w * 1000 \<le> n \<and> n < (w + 1) * 1000" for n :: int
  by presburger

text \<open>One call of \<open>Allow\<close>, seen from the counter of one channel and second.\<close>

lemma Allow_step:
  assumes "counted ((w + 1) * 1000 + 100) (rd_keys s (limiter_key ch w)) v"
    and "timely maxPerSec (c # chs) s"
    and "run_state (redisRateLimiter_Allow maxPerSec c) s = (r, s')"
  shows "if c = ch \<and> unix_seconds (rt_now s (rt_reads s)) = w \<and> (\<exists>p. r = Inr p)
    then counted ((w + 1) * 1000 + 100) (rd_keys s' (limiter_key ch w)) (Suc v) \<and>
      (\<exists>d. r = Inr (int v < maxPerSec, d))
    else counted ((w + 1) * 1000 + 100) (rd_keys s' (limiter_key ch w)) v"
proof -
  let ?now = "rt_now s (rt_reads s)" and ?server = "rd_clock s (rd_calls s)"
  let ?key = "limiter_key c (unix_seconds ?now)"
  obtain x keys where sc: "script (redis_INCR ?server) (redis_PEXPIRE ?server) ?key maxPerSec 1100 (rd_keys s) = (x, keys)"
    by fastforce
  show ?thesis
  proof (cases "rd_fault s (rd_calls s)")
    case (Some e)
    with assms(1,3) show ?thesis
      by (auto simp: redisRateLimiter_Allow_def script_Run_def Let_def)
  next
    case None
    with assms(3) sc have r: "rd_keys s' = keys" "\<exists>d. r = Inr (x = 1, d)"
      by (auto simp: redisRateLimiter_Allow_def script_Run_def Let_def split: if_splits)
    show ?thesis
    proof (cases "c = ch \<and> unix_seconds ?now = w")
      case True
      have t: "?now div 1000000 \<le> ?server" "?server < ?now div 1000000 + 100"
        using assms(2) by (simp_all add: Let_def)
      have "w = ?now div 1000000 div 1000"
        using True by (simp add: unix_seconds_def div_mult2_eq [symmetric] zdiv_zmult2_eq [symmetric])
      then have "w * 1000 \<le> ?now div 1000000" "?now div 1000000 < (w + 1) * 1000"
        using div_1000_bounds by blast+
      then have "w * 1000 \<le> ?server" "?server < (w + 1) * 1000 + 100"
        using t by linarith+
      moreover have "counted ((w + 1) * 1000 + 100) (keys (limiter_key ch w)) (Suc v) \<and>
          x = (if int v < maxPerSec then 1 else 0)"
        by (rule redis_counter.script_counts [where x = "rd_keys s" and t = ?server and window = 1100,
              OF assms(1)]) (use calculation sc True in simp_all)
      ultimately show ?thesis using True r by auto
    next
      case False
      then have "limiter_key ch w \<noteq> ?key" by (auto simp: limiter_key_inject)
      with redis_counter.script_other [OF sc] assms(1) r False show ?thesis by auto
    qed
  qed
qed

lemma allow_calls_counted:
  assumes "counted ((w + 1) * 1000 + 100) (rd_keys s (limiter_key ch w)) v" "timely maxPerSec chs s"
  shows "answers ch w (allow_calls maxPerSec chs s) =
    map (\<lambda>i. int i < maxPerSec) [v ..< v + length (answers ch w (allow_calls maxPerSec chs s))]"
  using assms
proof (induction chs arbitrary: s v)
  case Nil
  then show ?case by (simp add: answers_def map_filter_simps)
next
  case (Cons c chs)
  obtain r s' where run: "run_state (redisRateLimiter_Allow maxPerSec c) s = (r, s')" by fastforce
  have next_timely: "timely maxPerSec chs s'" using Cons.prems(2) run by (simp add: Let_def)
  note step = Allow_step [OF Cons.prems(1,2) run]
  show ?case
  proof (cases "c = ch \<and> unix_seconds (rt_now s (rt_reads s)) = w \<and> (\<exists>p. r = Inr p)")
    case True
    with step have "counted ((w + 1) * 1000 + 100) (rd_keys s' (limiter_key ch w)) (Suc v)"
      and "\<exists>d. r = Inr (int v < maxPerSec, d)" by auto
    with Cons.IH [OF this(1) next_timely] True run show ?thesis
      by (auto simp: answers_Cons upt_conv_Cons simp del: upt_Suc)
  next
    case False
    with step have "counted ((w + 1) * 1000 + 100) (rd_keys s' (limiter_key ch w)) v" by auto
    from Cons.IH [OF this next_timely] False run show ?thesis
      by (auto simp: answers_Cons split: sum.splits)
  qed
qed

lemma filter_below: "length (filter id (map (\<lambda>i. int i < m) [0 ..< n])) = min n (nat m)"
proof -
  have "filter (\<lambda>i. int i < m) [0 ..< n] = [0 ..< min n (nat m)]"
  proof (induction n)
    case (Suc n)
    then show ?case by (cases "n < nat m") (auto simp: min_def not_less dest: le_antisym)
  qed simp
  then show ?thesis by (simp add: filter_map comp_def)
qed

text \<open>C15. Rate limit: when every script runs within 100 ms of the clock reading its key is made
  from, then in every second of the clock and for every channel exactly the first
  \<open>maxPerSec\<close> answered calls are allowed and all later ones are refused, whatever the other
  channels and other seconds do. The expiry of 1100 ms is what makes this true: the counter
  of a second outlives every script that uses it.\<close>

theorem rate_limit_respected:
  assumes "rd_keys s = Map.empty" "timely maxPerSec chs s"
  shows "answers ch w (allow_calls maxPerSec chs s) =
      map (\<lambda>i. int i < maxPerSec) [0 ..< length (answers ch w (allow_calls maxPerSec chs s))] \<and>
    length (filter id (answers ch w (allow_calls maxPerSec chs s))) \<le> nat maxPerSec"
proof -
  have "counted ((w + 1) * 1000 + 100) (rd_keys s (limiter_key ch w)) 0"
    using assms(1) by (simp add: counted_def)
  from allow_calls_counted [OF this assms(2)] have *: "answers ch w (allow_calls maxPerSec chs s) =
      map (\<lambda>i. int i < maxPerSec) [0 ..< length (answers ch w (allow_calls maxPerSec chs s))]"
    by simp
  then have "length (filter id (answers ch w (allow_calls maxPerSec chs s))) =
      min (length (answers ch w (allow_calls maxPerSec chs s))) (nat maxPerSec)"
    using filter_below [of maxPerSec "length (answers ch w (allow_calls maxPerSec chs s))"] by simp
  with * show ?thesis by simp
qed

definition clocked_redis :: "(nat \<Rightarrow> time) \<Rightarrow> redis" where
  "clocked_redis clock = \<lparr>rt_now = clock, rt_reads = 0, rt_uuid = of_nat, rt_uuids = 0,
     rt_uuid_text = (\<lambda>u. nat_digits (unat u)), rt_done = (\<lambda>_. False), rt_selects = 0,
     rt_sleeps = [], pg_notifications = [], pg_templates = [], pg_fault = (\<lambda>_. None),
     pg_now = (\<lambda>_. 1000), pg_scan = (\<lambda>_ _. 0), pg_cut = (\<lambda>_. None), pg_rank = (\<lambda>_. 0), pg_calls = 0,
     amqp_log = [], amqp_fault = (\<lambda>_. None), amqp_trace = (\<lambda>_. []), amqp_calls = 0,
     rd_keys = Map.empty, rd_clock = (\<lambda>k. clock k div 1000000), rd_fault = (\<lambda>_. None), rd_calls = 0\<rparr>"

lemmas allow_run = redisRateLimiter_Allow_def script_Run_def script_def redis_INCR_def
  redis_PEXPIRE_def live_def clocked_redis_def Let_def

theorem rate_limit_respected_witness:
  "answers ''sms'' 0 (allow_calls 2 [''sms'', ''sms'', ''sms''] (clocked_redis (\<lambda>_. 5000000))) =
     [True, True, False]"
proof -
  let ?s = "clocked_redis (\<lambda>_. 5000000)"
  have "rd_keys ?s = Map.empty" "timely 2 [''sms'', ''sms'', ''sms''] ?s"
    by (simp_all add: allow_run)
  note limit = rate_limit_respected [OF this, of "''sms''" 0]
  have len: "length (answers ''sms'' 0 (allow_calls 2 [''sms'', ''sms'', ''sms''] ?s)) = 3"
    by (simp add: allow_run answers_def map_filter_simps unix_seconds_def)
  show ?thesis
    using limit unfolding len by (simp add: numeral_3_eq_3 upt_rec del: allow_calls.simps)
qed

text \<open>The window is fixed, not sliding: around the turn of a second twice the limit is allowed
  within two nanoseconds.\<close>

theorem rate_limit_burst:
  "map (\<lambda>(c, sec, a). a) (allow_calls 2 [''sms'', ''sms'', ''sms'', ''sms'']
     (clocked_redis (\<lambda>k. if k < 2 then 999999999 else 1000000000))) = [Some True, Some True, Some True, Some True]"
  by (simp add: allow_run unix_seconds_def limiter_key_inject)

lemma int_div_less: "n div time_Second < q \<longleftrightarrow> n < q * time_Second" for n :: int
  by linarith

text \<open>A refused call names the wait until the next second of its clock: at most a second, and
  positive as long as the clock has not passed that second meanwhile.\<close>

theorem refused_wait:
  assumes "run_state (redisRateLimiter_Allow maxPerSec ch) s = (Inr (False, d), s')"
    "rt_now s (rt_reads s) \<le> rt_now s (Suc (rt_reads s))"
  shows "d \<le> time_Second \<and> (0 < d \<longleftrightarrow>
      unix_seconds (rt_now s (Suc (rt_reads s))) = unix_seconds (rt_now s (rt_reads s))) \<and>
    unix_seconds (rt_now s (Suc (rt_reads s)) + d) = unix_seconds (rt_now s (rt_reads s)) + 1"
proof -
  let ?a = "rt_now s (rt_reads s)" and ?b = "rt_now s (Suc (rt_reads s))"
  have d: "d = ?a - ?a mod time_Second + time_Second - ?b"
    using assms(1) by (auto simp: redisRateLimiter_Allow_def script_Run_def truncate_second_def Let_def
        split: option.splits prod.splits if_splits)
  have a: "?a - ?a mod time_Second = time_Second * unix_seconds ?a"
    by (simp add: unix_seconds_def minus_mod_eq_mult_div)
  have "?b + d = time_Second * (unix_seconds ?a + 1)" using d a by (simp add: algebra_simps)
  then have next_second: "unix_seconds (?b + d) = unix_seconds ?a + 1" by (simp add: unix_seconds_def)
  have "unix_seconds ?a \<le> unix_seconds ?b"
    using assms(2) by (simp add: unix_seconds_def zdiv_mono1)
  moreover have "0 < d \<longleftrightarrow> unix_seconds ?b < unix_seconds ?a + 1"
    unfolding d a unix_seconds_def int_div_less by (simp add: algebra_simps)
  ultimately show ?thesis
    using next_second d assms(2) a int_div_less [of ?a] by (simp add: unix_seconds_def)
qed

theorem refused_wait_witness:
  "\<exists>d. run_result (redisRateLimiter_Allow 0 ''sms'') (clocked_redis (\<lambda>_. 250000000)) = Inr (False, d) \<and>
     0 < d \<and> d \<le> time_Second"
proof -
  let ?run = "run_state (redisRateLimiter_Allow 0 ''sms'') (clocked_redis (\<lambda>_. 250000000))"
  obtain d where d: "fst ?run = Inr (False, d)" by (simp add: allow_run)
  then have "?run = (Inr (False, d), snd ?run)" by (simp add: prod_eq_iff)
  from refused_wait [OF this] d show ?thesis by (simp add: clocked_redis_def)
qed

end
