(* ===== verification/Provider.thy ===== *)
theory Provider
  imports Environment Go_Time
begin

text \<open>
  \<open>internal/delivery/provider.go\<close>: delivery through the webhook. The JSON codec and the check of the
  address in \<open>http.NewRequestWithContext\<close> are arguments (\<open>webhook_lib\<close>; \<open>Delivery_Json\<close> has
  the codec of the standard library); what comes of the HTTP request is the environment's
  \<open>http_Do\<close>.
\<close>

section \<open>Types\<close>

record delivery_request =
  dq_To :: string
  dq_Channel :: string
  dq_Content :: string
  dq_Subject :: string

record delivery_response =
  dr_MessageID :: string
  dr_Status :: string
  dr_Timestamp :: string

record 's provider =
  prov_Send :: "delivery_request \<Rightarrow> ('s, go_error + delivery_response) state"

record webhook_lib =
  wl_marshal :: "delivery_request \<Rightarrow> string + string"
  wl_unmarshal :: "string \<Rightarrow> string + delivery_response"
  wl_request_error :: "string \<Rightarrow> string option"

section \<open>Send\<close>

definition retryable_status :: "int \<Rightarrow> bool" where
  "retryable_status code \<longleftrightarrow> code = 429 \<or> code \<ge> 500"

text \<open>What is made of a reply whose body was read.\<close>

definition read_reply ::
  "webhook_lib \<Rightarrow> int \<Rightarrow> string \<Rightarrow> ('a runtime_scheme, go_error + delivery_response) state"
where
  "read_reply lib code body =
     (if code < 200 \<or> code \<ge> 300
      then return (Inl (ProviderError code body (retryable_status code)))
      else (case wl_unmarshal lib body of
          Inr dr \<Rightarrow>
            if dr_MessageID dr = [] then do {
              t1 \<leftarrow> time_Now;
              t2 \<leftarrow> time_Now;
              return (Inr \<lparr>dr_MessageID = ''wh_'' @ itoa t1, dr_Status = ''accepted'',
                dr_Timestamp = Format_RFC3339 0 t2\<rparr>)
            }
            else return (Inr dr)
        | Inl e \<Rightarrow> do {
            t1 \<leftarrow> time_Now;
            t2 \<leftarrow> time_Now;
            return (Inr \<lparr>dr_MessageID = ''wh_'' @ itoa t1, dr_Status = ''accepted'',
              dr_Timestamp = Format_RFC3339 0 t2\<rparr>)
          }))"

definition webhookProvider_Send ::
  "webhook_lib \<Rightarrow> string \<Rightarrow> delivery_request \<Rightarrow> ('a web_scheme, go_error + delivery_response) state"
where
  "webhookProvider_Send lib url req =
     (case wl_marshal lib req of
        Inl e \<Rightarrow> return (Inl (Wrapped ''marshal'' (OpaqueError e)))
      | Inr body \<Rightarrow>
          (case wl_request_error lib url of
             Some e \<Rightarrow> return (Inl (Wrapped ''create request'' (OpaqueError e)))
           | None \<Rightarrow> do {
               reply \<leftarrow> http_Do url body;
               case reply of
                 NoResponse e \<Rightarrow> return (Inl (Wrapped ''send'' e))
               | Unreadable e \<Rightarrow> return (Inl (Wrapped ''read response'' e))
               | Response code respBody \<Rightarrow> read_reply lib code respBody
             }))"

definition NewWebhookProvider :: "webhook_lib \<Rightarrow> string \<Rightarrow> ('a web_scheme) provider" where
  "NewWebhookProvider lib url = \<lparr>prov_Send = webhookProvider_Send lib url\<rparr>"

section \<open>Properties\<close>

text \<open>The decision of the consumer: an error that is not a provider error is retried.\<close>

definition is_retryable :: "go_error \<Rightarrow> bool" where
  "is_retryable e = (case errors_As_ProviderError e of Some b \<Rightarrow> b | None \<Rightarrow> True)"

definition good_library :: "webhook_lib \<Rightarrow> string \<Rightarrow> delivery_request \<Rightarrow> bool" where
  "good_library lib url req \<longleftrightarrow> (\<exists>b. wl_marshal lib req = Inr b) \<and> wl_request_error lib url = None"

text \<open>C36. How a reply is classified: exactly the 2xx statuses are deliveries, always with a
  message identifier; 429 and 5xx are failures to retry; every other status is permanent.
  One request is made, and nothing but the clock is used besides.\<close>

theorem send_classifies:
  assumes "good_library lib url req" "web_reply s (length (web_requests s)) = Response code body"
    "run_state (webhookProvider_Send lib url req) s = (r, s')"
  shows "(case r of
      Inr dr \<Rightarrow> 200 \<le> code \<and> code < 300 \<and> dr_MessageID dr \<noteq> []
    | Inl e \<Rightarrow> \<not> (200 \<le> code \<and> code < 300) \<and> e = ProviderError code body (retryable_status code) \<and>
        (is_retryable e \<longleftrightarrow> code = 429 \<or> 500 \<le> code)) \<and>
    length (web_requests s') = length (web_requests s) + 1 \<and>
    amqp_log s' = amqp_log s \<and> pg_notifications s' = pg_notifications s"
proof -
  obtain b where "wl_marshal lib req = Inr b" "wl_request_error lib url = None"
    using assms(1) by (auto simp: good_library_def)
  with assms(2,3) show ?thesis
    by (auto simp: webhookProvider_Send_def read_reply_def retryable_status_def is_retryable_def
        split: sum.splits if_splits)
qed

definition plain_webhook :: webhook_lib where
  "plain_webhook = \<lparr>wl_marshal = (\<lambda>q. Inr (dq_Content q)),
     wl_unmarshal = (\<lambda>s. Inr \<lparr>dr_MessageID = s, dr_Status = [], dr_Timestamp = []\<rparr>),
     wl_request_error = (\<lambda>_. None)\<rparr>"

definition replying_web :: "(nat \<Rightarrow> http_outcome) \<Rightarrow> web" where
  "replying_web reply = \<lparr>rt_now = (\<lambda>_. 1000), rt_reads = 0, rt_uuid = of_nat, rt_uuids = 0,
     rt_uuid_text = (\<lambda>u. nat_digits (unat u)), rt_done = (\<lambda>_. False), rt_selects = 0,
     rt_sleeps = [], pg_notifications = [], pg_templates = [], pg_fault = (\<lambda>_. None),
     pg_now = (\<lambda>_. 1000), pg_scan = (\<lambda>_ _. 0), pg_cut = (\<lambda>_. None), pg_rank = (\<lambda>_. 0), pg_calls = 0,
     amqp_log = [], amqp_fault = (\<lambda>_. None), amqp_trace = (\<lambda>_. []), amqp_calls = 0,
     rd_keys = Map.empty, rd_clock = (\<lambda>_. 0), rd_fault = (\<lambda>_. None), rd_calls = 0,
     web_reply = reply, web_requests = []\<rparr>"

definition hello_request :: delivery_request where
  "hello_request = \<lparr>dq_To = ''token'', dq_Channel = ChannelPush, dq_Content = ''hi'', dq_Subject = []\<rparr>"

theorem send_classifies_witness:
  "case run_result (webhookProvider_Send plain_webhook ''http://x'' hello_request)
       (replying_web (\<lambda>_. Response 429 ''slow down'')) of
     Inr dr \<Rightarrow> False | Inl e \<Rightarrow> is_retryable e"
proof -
  let ?s = "replying_web (\<lambda>_. Response 429 ''slow down'')"
  have "good_library plain_webhook ''http://x'' hello_request"
    by (simp add: good_library_def plain_webhook_def)
  moreover have "web_reply ?s (length (web_requests ?s)) = Response 429 ''slow down''"
    by (simp add: replying_web_def)
  ultimately show ?thesis
    using send_classifies [of plain_webhook "''http://x''" hello_request ?s 429, OF _ _ prod.collapse [symmetric]]
    by (auto split: sum.splits)
qed

end
