(* ===== verification/Consumer.thy ===== *)
theory Consumer
  imports Notification_Props Publisher Rate_Limiter Provider Go_Float
begin

text \<open>
  \<open>internal/queue/consumer.go\<close>: the worker that takes a message from a queue, waits for the
  rate limiter, delivers it and settles it. The two loops of the source become functions
  with fuel (waiting for the limiter, which has no bound in the code) and over the list of
  events a worker receives. \<open>None\<close> is "still waiting when the fuel ran out".
\<close>

section \<open>The consumer\<close>

record 's consumer =
  con_repo :: "'s notification_repo"
  con_provider :: "'s provider"
  con_limiter :: "'s rate_limiter"
  con_cfg :: rabbitmq_config
  con_workerCfg :: worker_config
  con_codec :: json_codec
  con_conv :: "int \<Rightarrow> int \<Rightarrow> int" \<comment> \<open>float to integer, out of range\<close>

record amqp_delivery =
  d_Tag :: nat
  d_Body :: string

text \<open>The delay before a retry, at most a minute.\<close>

definition backoff :: "'s consumer \<Rightarrow> int \<Rightarrow> duration" where
  "backoff con currentRetry =
     (let b = int64_of_scaled (con_conv con)
                (float64_of_int (w_RetryBaseDelay (con_workerCfg con))) (currentRetry - 1)
      in if b > 60 * time_Second then 60 * time_Second else b)"

definition handleFailure ::
  "('a amqp_scheme) consumer \<Rightarrow> amqp_delivery \<Rightarrow> notification \<Rightarrow> go_error \<Rightarrow> ('a amqp_scheme, unit) state"
where
  "handleFailure con msg n sendErr = do {
     let errMsg = error_text sendErr;
     let retryable = (case errors_As_ProviderError sendErr of Some b \<Rightarrow> b | None \<Rightarrow> True);
     repo_IncrementRetry (con_repo con) (n_ID n) errMsg;
     let currentRetry = wrap64 (n_RetryCount n + 1);
     if \<not> retryable \<or> currentRetry \<ge> w_MaxRetries (con_workerCfg con) then do {
       repo_UpdateStatus (con_repo con) (n_ID n) StatusFailed None (Some errMsg);
       amqp_do (Nack (d_Tag msg) False);
       return ()
     }
     else do {
       repo_UpdateStatus (con_repo con) (n_ID n) StatusQueued None (Some errMsg);
       done \<leftarrow> select_done_or_after (backoff con currentRetry);
       (if done then amqp_do (Nack (d_Tag msg) True) else amqp_do (Nack (d_Tag msg) True));
       return ()
     }
   }"

text \<open>The wait for the limiter: \<open>Some True\<close> to go on, \<open>Some False\<close> when the context is done.\<close>

fun wait_allowed ::
  "nat \<Rightarrow> ('a amqp_scheme) rate_limiter \<Rightarrow> string \<Rightarrow> ('a amqp_scheme, bool option) state"
where
  "wait_allowed 0 lim ch = return None"
| "wait_allowed (Suc fuel) lim ch = do {
     r \<leftarrow> rl_Allow lim ch;
     case r of
       Inl err \<Rightarrow> return (Some True)
     | Inr (allowed, wait) \<Rightarrow>
         if allowed then return (Some True)
         else do {
           done \<leftarrow> select_done_or_after wait;
           if done then return (Some False) else wait_allowed fuel lim ch
         }
   }"

definition delivery_of :: "notification \<Rightarrow> delivery_request" where
  "delivery_of n = \<lparr>dq_To = n_Recipient n, dq_Channel = n_Channel n, dq_Content = n_Content n,
     dq_Subject = (case n_Subject n of None \<Rightarrow> [] | Some s \<Rightarrow> s)\<rparr>"

text \<open>The delivery proper, once the limiter let the message pass.\<close>

definition deliver ::
  "('a amqp_scheme) consumer \<Rightarrow> amqp_delivery \<Rightarrow> notification \<Rightarrow> ('a amqp_scheme, unit) state"
where
  "deliver con msg n = do {
     start \<leftarrow> time_Now;
     r \<leftarrow> prov_Send (con_provider con) (delivery_of n);
     stop \<leftarrow> time_Now;
     case r of
       Inl err \<Rightarrow> handleFailure con msg n err
     | Inr resp \<Rightarrow> do {
         repo_UpdateStatus (con_repo con) (n_ID n) StatusSent (Some (dr_MessageID resp)) None;
         amqp_do (Ack (d_Tag msg));
         return ()
       }
   }"

definition processMessage ::
  "nat \<Rightarrow> ('a amqp_scheme) consumer \<Rightarrow> amqp_delivery \<Rightarrow> string \<Rightarrow> ('a amqp_scheme, unit option) state"
where
  "processMessage fuel con msg ch =
     (case unmarshal (con_codec con) (d_Body msg) of
        Inl e \<Rightarrow> do { amqp_do (Nack (d_Tag msg) False); return (Some ()) }
      | Inr n0 \<Rightarrow> do {
          fresh \<leftarrow> repo_GetByID (con_repo con) (n_ID n0);
          let n = (case fresh of Inr m \<Rightarrow> n0\<lparr>n_RetryCount := n_RetryCount m\<rparr> | Inl e \<Rightarrow> n0);
          repo_UpdateStatus (con_repo con) (n_ID n) StatusSending None None;
          go \<leftarrow> wait_allowed fuel (con_limiter con) ch;
          case go of
            None \<Rightarrow> return None
          | Some False \<Rightarrow> do { amqp_do (Nack (d_Tag msg) True); return (Some ()) }
          | Some True \<Rightarrow> do { deliver con msg n; return (Some ()) }
        })"

section \<open>Workers\<close>

datatype worker_event = WorkerCtxDone | WorkerDone | DeliveriesClosed | Message amqp_delivery

text \<open>\<open>Some True\<close> when the worker has returned, \<open>Some False\<close> when it waits for an event.\<close>

fun worker ::
  "nat \<Rightarrow> ('a amqp_scheme) consumer \<Rightarrow> string \<Rightarrow> worker_event list \<Rightarrow> ('a amqp_scheme, bool option) state"
where
  "worker fuel con ch [] = return (Some False)"
| "worker fuel con ch (WorkerCtxDone # es) = return (Some True)"
| "worker fuel con ch (WorkerDone # es) = return (Some True)"
| "worker fuel con ch (DeliveriesClosed # es) = return (Some True)"
| "worker fuel con ch (Message msg # es) = do {
     r \<leftarrow> processMessage fuel con msg ch;
     case r of None \<Rightarrow> return None | Some _ \<Rightarrow> worker fuel con ch es
   }"

text \<open>\<open>NewConsumer\<close>: dial, open a channel, set the prefetch count, closing what is open on
  an error; \<open>Start\<close>: one consumer per channel.\<close>

definition NewConsumer :: "rabbitmq_config \<Rightarrow> ('a amqp_scheme, go_error option) state" where
  "NewConsumer cfg = do {
     e1 \<leftarrow> amqp_do (Dial (rmq_URL cfg));
     case e1 of
       Some err \<Rightarrow> return (Some (Wrapped ''rabbitmq connect'' err))
     | None \<Rightarrow> do {
         e2 \<leftarrow> amqp_do OpenChannel;
         case e2 of
           Some err \<Rightarrow> do { amqp_close CloseConnection; return (Some (Wrapped ''rabbitmq channel'' err)) }
         | None \<Rightarrow> do {
             e3 \<leftarrow> amqp_do (Qos (rmq_PrefetchCount cfg));
             case e3 of
               Some err \<Rightarrow> do {
                 amqp_close CloseChannel;
                 amqp_close CloseConnection;
                 return (Some (Wrapped ''set qos'' err))
               }
             | None \<Rightarrow> return None
           }
       }
   }"

fun consume_channels :: "rabbitmq_config \<Rightarrow> channel list \<Rightarrow> ('a amqp_scheme, go_error option) state" where
  "consume_channels cfg [] = return None"
| "consume_channels cfg (ch # chs) = do {
     e \<leftarrow> amqp_do (Consume (queue_name cfg ch) (''worker-'' @ ch));
     case e of
       Some err \<Rightarrow> return (Some (Wrapped (''consume '' @ queue_name cfg ch) err))
     | None \<Rightarrow> consume_channels cfg chs
   }"

definition consumer_Start :: "('a amqp_scheme) consumer \<Rightarrow> ('a amqp_scheme, go_error option) state" where
  "consumer_Start con = consume_channels (con_cfg con) [ChannelSMS, ChannelEmail, ChannelPush]"

definition consumer_Shutdown :: "('a amqp_scheme, unit) state" where
  "consumer_Shutdown = do { amqp_close CloseChannel; amqp_close CloseConnection }"

section \<open>The wait for the limiter\<close>

lemma wait_allowed_more:
  "run_state (wait_allowed fuel lim ch) s = (Some b, s') \<Longrightarrow>
     run_state (wait_allowed (fuel + k) lim ch) s = (Some b, s')"
proof (induction fuel arbitrary: s)
  case (Suc fuel)
  then show ?case by (auto split: prod.splits sum.splits if_splits)
qed simp

text \<open>The result of processing a message does not depend on the fuel once it was enough.\<close>

lemma process_more:
  assumes "run_state (processMessage fuel con msg ch) s = (Some u, s')"
  shows "run_state (processMessage (fuel + k) con msg ch) s = (Some u, s')"
  using assms
  by (auto simp: processMessage_def Let_def wait_allowed_more split: sum.splits prod.splits option.splits
      dest: wait_allowed_more [of fuel _ _ _ _ _ k])

end
