(* ===== verification/Connections.thy ===== *)
theory Connections
  imports Consumer
begin

text \<open>
  The connections and channels to RabbitMQ: what \<open>NewPublisher\<close> and \<open>NewConsumer\<close> open is
  closed again on every error path, and closed once on shutdown.
\<close>

text \<open>Connections and channels opened and not closed, by the log of the calls.\<close>

definition open_handles :: "amqp_call list \<Rightarrow> int \<times> int" where
  "open_handles calls =
     (int (length (filter (\<lambda>c. \<exists>url. c = Dial url) calls)) - int (length (filter ((=) CloseConnection) calls)),
      int (length (filter ((=) OpenChannel) calls)) - int (length (filter ((=) CloseChannel) calls)))"

definition plus_handles :: "int \<times> int \<Rightarrow> int \<times> int \<Rightarrow> int \<times> int" where
  "plus_handles a b = (fst a + fst b, snd a + snd b)"

lemma open_handles_append: "open_handles (xs @ ys) = plus_handles (open_handles xs) (open_handles ys)"
  by (simp add: open_handles_def plus_handles_def)

lemma open_handles_simps [simp]:
  "open_handles [Dial url] = (1, 0)" "open_handles [OpenChannel] = (0, 1)"
  "open_handles [CloseChannel] = (0, -1)" "open_handles [CloseConnection] = (-1, 0)"
  "open_handles [ExchangeDeclare n k] = (0, 0)" "open_handles [QueueDeclare n args] = (0, 0)"
  "open_handles [QueueBind q k e] = (0, 0)" "open_handles [Qos k0] = (0, 0)"
  "open_handles [Consume q w] = (0, 0)" "open_handles [QueueDeclarePassive q] = (0, 0)"
  by (simp_all add: open_handles_def)

lemma plus_handles_simps [simp]:
  "plus_handles a (0, 0) = a" "fst (plus_handles a b) = fst a + fst b" "snd (plus_handles a b) = snd a + snd b"
  by (simp_all add: plus_handles_def)

lemma open_handles_Cons [simp]:
  "open_handles (c # d # cs) = plus_handles (open_handles [c]) (open_handles (d # cs))"
  using open_handles_append [of "[c]" "d # cs"] by simp

definition handles :: "'a amqp_scheme \<Rightarrow> int \<times> int" where
  "handles s = open_handles (amqp_log s)"

lemma run_amqp_handles:
  "run_state (amqp_do c) s = (e, s') \<Longrightarrow>
     handles s' = (if e = None then plus_handles (handles s) (open_handles [c]) else handles s)"
  by (auto simp: handles_def amqp_do_cases open_handles_append split: option.splits)

lemma keeps_handles [frame]:
  "open_handles [c] = (0, 0) \<Longrightarrow> keeps handles (amqp_do c)"
  by (simp add: keeps_def handles_def amqp_do_cases open_handles_append split: option.split)

lemma setup_keeps_handles: "keeps handles (rabbitPublisher_setup cfg)"
proof -
  have one: "keeps handles (setup_channel cfg ch)" for ch
    unfolding setup_channel_def Let_def by (intro frame; simp)
  have all: "keeps handles (setup_channels cfg chs)" for chs
    by (induction chs) (auto intro!: frame one)
  show ?thesis unfolding rabbitPublisher_setup_def by (intro frame all; simp)
qed

lemma consume_keeps_handles: "keeps handles (consume_channels cfg chs)"
  by (induction chs) (auto intro!: frame)

text \<open>C34. No connection leaks: whichever call fails, \<open>NewPublisher\<close> and \<open>NewConsumer\<close> return an
  error only after closing what they opened, and on success hold one connection and one
  channel; \<open>Start\<close> opens nothing; \<open>Close\<close> and \<open>Shutdown\<close> close both.\<close>

theorem no_connection_leak:
  "(case run_state (NewPublisher codec cfg) s of (r, s') \<Rightarrow>
      handles s' = (case r of Inl e \<Rightarrow> handles s | Inr p \<Rightarrow> plus_handles (handles s) (1, 1))) \<and>
   (case run_state (NewConsumer cfg) s of (r, s') \<Rightarrow>
      handles s' = (case r of Some e \<Rightarrow> handles s | None \<Rightarrow> plus_handles (handles s) (1, 1))) \<and>
   handles (run_final (consumer_Start con) s) = handles s \<and>
   handles (run_final rabbitPublisher_Close s) = plus_handles (handles s) (-1, -1) \<and>
   handles (run_final consumer_Shutdown s) = plus_handles (handles s) (-1, -1)"
proof (intro conjI)
  show "case run_state (NewConsumer cfg) s of (r, s') \<Rightarrow>
      handles s' = (case r of Some e \<Rightarrow> handles s | None \<Rightarrow> plus_handles (handles s) (1, 1))"
    by (auto simp: NewConsumer_def amqp_do_cases handles_def open_handles_append plus_handles_def
        split: option.split)
  show "handles (run_final (consumer_Start con) s) = handles s"
    unfolding consumer_Start_def by (rule keepsD [OF consume_keeps_handles])
  show "handles (run_final rabbitPublisher_Close s) = plus_handles (handles s) (-1, -1)"
    "handles (run_final consumer_Shutdown s) = plus_handles (handles s) (-1, -1)"
    by (simp_all add: rabbitPublisher_Close_def consumer_Shutdown_def handles_def open_handles_append
        plus_handles_def)
  show "case run_state (NewPublisher codec cfg) s of (r, s') \<Rightarrow>
      handles s' = (case r of Inl e \<Rightarrow> handles s | Inr p \<Rightarrow> plus_handles (handles s) (1, 1))"
  proof -
    obtain e1 s1 where d: "run_state (amqp_do (Dial (rmq_URL cfg))) s = (e1, s1)" by fastforce
    obtain e2 s2 where c: "run_state (amqp_do OpenChannel) s1 = (e2, s2)" by fastforce
    obtain e3 s3 where u: "run_state (rabbitPublisher_setup cfg) s2 = (e3, s3)" by fastforce
    have h: "handles s1 = (if e1 = None then plus_handles (handles s) (1, 0) else handles s)"
      "handles s2 = (if e2 = None then plus_handles (handles s1) (0, 1) else handles s1)"
      "handles s3 = handles s2"
      using run_amqp_handles [OF d] run_amqp_handles [OF c] keepsE [OF setup_keeps_handles u] by auto
    show ?thesis
    proof (cases e1)
      case (Some err)
      then show ?thesis using d h(1) by (simp add: NewPublisher_def)
    next
      case None
      show ?thesis
      proof (cases e2)
        case (Some err)
        with \<open>e1 = None\<close> d c h show ?thesis
          by (simp add: NewPublisher_def handles_def open_handles_append plus_handles_def)
      next
        case None
        with \<open>e1 = None\<close> d c u h show ?thesis
          by (cases e3) (simp_all add: NewPublisher_def handles_def open_handles_append plus_handles_def)
      qed
    qed
  qed
qed

end
