(* ===== verification/Notification_Query.thy ===== *)
theory Notification_Query
  imports Notification_Props
begin

text \<open>
  Properties of the reading side of the notification repository: the query \<open>List\<close>
  builds selects the rows its filters describe, its pages partition the result when no two
  rows share a creation time and may repeat a row when they do, the scheduler's selection,
  and the counters.
\<close>

section \<open>The query\<close>

definition matches :: "list_request \<Rightarrow> notification \<Rightarrow> bool" where
  "matches r n \<longleftrightarrow>
     (\<forall>x. l_Status r = Some x \<longrightarrow> n_Status n = x) \<and>
     (\<forall>x. l_Channel r = Some x \<longrightarrow> n_Channel n = x) \<and>
     (\<forall>x. l_BatchID r = Some x \<longrightarrow> n_BatchID n = Some x) \<and>
     (\<forall>x. l_StartDate r = Some x \<longrightarrow> x \<le> n_CreatedAt n) \<and>
     (\<forall>x. l_EndDate r = Some x \<longrightarrow> n_CreatedAt n \<le> x)"

text \<open>
  What building keeps true: one argument per condition, each condition numbered by its
  own argument, \<open>idx\<close> the number of the next.
\<close>

definition numbered :: "builder \<Rightarrow> bool" where
  "numbered b \<longleftrightarrow> (case b of (conditions, args, idx) \<Rightarrow>
     idx = Suc (length args) \<and> length conditions = length args \<and>
     (\<forall>i < length conditions. \<exists>c op. conditions ! i = Condition c op (Suc i)))"

lemma numbered_add: "numbered b \<Longrightarrow> numbered (add_condition c op arg v b)"
  by (auto simp: numbered_def add_condition_def nth_append less_Suc_eq split: prod.splits option.splits)

lemma numbered_list_builder: "numbered (list_builder r)"
proof -
  have "numbered ([], [], 1)" by (simp add: numbered_def)
  then show ?thesis unfolding list_builder_def Let_def by (intro numbered_add)
qed

lemma arg_at_append: "k \<le> length args \<Longrightarrow> arg_at (args @ xs) k = arg_at args k"
  by (auto simp: arg_at_def nth_append)

lemma arg_at_next: "arg_at (args @ x # xs) (Suc (length args)) = Some x"
  by (simp add: arg_at_def nth_append)

lemma eval_condition_append:
  "k \<le> length args \<Longrightarrow>
     eval_condition (args @ xs) n (Condition c op k) = eval_condition args n (Condition c op k)"
  by (simp add: arg_at_append)

lemma list_where_append:
  assumes "numbered (conditions, args, idx)"
  shows "list_where conditions (args @ xs) n = list_where conditions args n"
proof -
  have "eval_condition (args @ xs) n (conditions ! i) = eval_condition args n (conditions ! i)"
    if "i < length conditions" for i
    using assms that eval_condition_append by (fastforce simp: numbered_def simp del: eval_condition.simps)
  then show ?thesis by (simp add: list_where_def list_all_length)
qed

lemma list_where_add:
  assumes "numbered b" "add_condition c op arg v b = (conditions', args', idx')"
  shows "list_where conditions' args' n \<longleftrightarrow>
    list_where (fst b) (fst (snd b)) n \<and>
    (case v of None \<Rightarrow> True | Some x \<Rightarrow>
       (case column_value c n of None \<Rightarrow> False | Some y \<Rightarrow> compare_values op y (arg x)))"
proof -
  obtain conditions args idx where b: "b = (conditions, args, idx)" by (cases b)
  show ?thesis
  proof (cases v)
    case None
    with assms b show ?thesis by (simp add: add_condition_def)
  next
    case (Some x)
    with assms b have e: "conditions' = conditions @ [Condition c op idx]" "args' = args @ [arg x]"
      "idx = Suc (length args)"
      by (auto simp: add_condition_def numbered_def)
    have "list_where conditions args' n = list_where conditions args n"
      unfolding e using assms(1) b by (simp add: list_where_append)
    then show ?thesis
      using Some b
      by (simp add: e list_where_def arg_at_next split: option.split)
  qed
qed

lemma list_where_matches:
  assumes "list_builder r = (conditions, args, idx)"
  shows "list_where conditions (args @ xs) n \<longleftrightarrow> matches r n"
proof -
  define b0 :: builder where "b0 = ([], [], 1)"
  define b1 where "b1 = add_condition ColStatus OpEq ArgText (l_Status r) b0"
  define b2 where "b2 = add_condition ColChannel OpEq ArgText (l_Channel r) b1"
  define b3 where "b3 = add_condition ColBatchID OpEq ArgUUID (l_BatchID r) b2"
  define b4 where "b4 = add_condition ColCreatedAt OpGe ArgTime (l_StartDate r) b3"
  define b5 where "b5 = add_condition ColCreatedAt OpLe ArgTime (l_EndDate r) b4"
  have "numbered b0" by (simp add: b0_def numbered_def)
  then have nums: "numbered b0" "numbered b1" "numbered b2" "numbered b3" "numbered b4"
    by (simp_all add: b1_def b2_def b3_def b4_def numbered_add)
  let ?w = "\<lambda>b. list_where (fst b) (fst (snd b)) n"
  have step: "?w (add_condition c op arg v b) \<longleftrightarrow> ?w b \<and> (case v of None \<Rightarrow> True | Some x \<Rightarrow>
       (case column_value c n of None \<Rightarrow> False | Some y \<Rightarrow> compare_values op y (arg x)))"
    if "numbered b" for c op arg b and v :: "'v option"
    using list_where_add [OF that, of c op arg v] by (metis prod.collapse)
  have "list_builder r = b5"
    by (simp add: list_builder_def b0_def b1_def b2_def b3_def b4_def b5_def Let_def)
  moreover have "?w b0" by (simp add: b0_def list_where_def)
  moreover have "numbered (list_builder r)" by (rule numbered_list_builder)
  ultimately have "list_where conditions (args @ xs) n \<longleftrightarrow> ?w b5"
    using assms list_where_append by fastforce
  also have "\<dots> \<longleftrightarrow> matches r n"
    using nums \<open>?w b0\<close>
    by (auto simp: b5_def b4_def b3_def b2_def b1_def step matches_def numbered_add
        split: option.splits)
  finally show ?thesis .
qed

text \<open>C24. The query that \<open>List\<close> assembles from the filters present selects exactly the rows
  that meet all of them, and the two placeholders at its end are the ones of the page size
  and the offset.\<close>

theorem list_query_correct:
  "(case list_builder r of (conditions, args, idx) \<Rightarrow>
      list_where conditions (args @ [limit, offset]) n = matches r n \<and>
      arg_at (args @ [limit, offset]) idx = Some limit \<and>
      arg_at (args @ [limit, offset]) (idx + 1) = Some offset)"
proof -
  obtain conditions args idx where b: "list_builder r = (conditions, args, idx)"
    by (cases "list_builder r")
  then have "idx = Suc (length args)"
    using numbered_list_builder [of r] by (simp add: numbered_def)
  then show ?thesis
    using list_where_matches [OF b] by (simp add: b arg_at_def nth_append)
qed

section \<open>Pages\<close>

definition full_list :: "list_request \<Rightarrow> notification list \<Rightarrow> notification list" where
  "full_list r rows = sort_key (\<lambda>n. - n_CreatedAt n) (filter (matches r) rows)"

lemma matches_Normalize [simp]: "matches (Normalize r) = matches r"
  by (simp add: matches_def fun_eq_iff)

lemma list_result:
  assumes "run_result (notificationRepo_List r) s = Inr (ns, tot)"
  defines "f \<equiv> Normalize r" and "offset \<equiv> wrap64 (wrap64 (l_Page (Normalize r) - 1) * l_PageSize (Normalize r))"
  shows "tot = int (length (filter (matches r) (pg_notifications s)))"
    and "0 \<le> offset"
    and "\<exists>v. ns = take (nat (l_PageSize f)) (drop (nat offset)
           (select_sorted v (\<lambda>n. - n_CreatedAt n) (matches r) (pg_notifications s)))"
proof -
  obtain conditions args idx where b: "list_builder f = (conditions, args, idx)"
    by (cases "list_builder f")
  have w: "list_where conditions (args @ xs) = matches r" for xs
    using list_where_matches [OF b] by (simp add: fun_eq_iff f_def)
  have w0: "list_where conditions args = matches r"
    using w [of "[]"] by simp
  have idx: "idx = Suc (length args)"
    using numbered_list_builder [of f] b by (simp add: numbered_def)
  show "tot = int (length (filter (matches r) (pg_notifications s)))" "0 \<le> offset"
    "\<exists>v. ns = take (nat (l_PageSize f)) (drop (nat offset)
           (select_sorted v (\<lambda>n. - n_CreatedAt n) (matches r) (pg_notifications s)))"
    using assms(1) Normalize_bounds [of r] w w0
    by (auto simp: notificationRepo_List_def b f_def [symmetric] run_pg_notifications_stmt Let_def
        list_page_def idx arg_at_def nth_append offset_def split: option.splits if_splits)
qed

lemma select_sorted_full:
  assumes "inj_on n_CreatedAt (set rows)"
  shows "select_sorted v (\<lambda>n. - n_CreatedAt n) (matches r) rows = full_list r rows"
  unfolding select_sorted_def full_list_def
  by (rule sort_key_mset_unique)
    (use assms in \<open>auto simp: inj_on_def\<close>)

lemma concat_pages: "concat (map (\<lambda>p. take k (drop (p * k) xs)) [0..<m]) = take (m * k) xs"
proof (induction m)
  case (Suc m)
  then show ?case by (simp add: take_drop_append_pages add.commute)
qed simp

text \<open>The pages of a listing, fetched one after the other while the table does not change,
  are together exactly the matching rows, newest first, none missing and none twice,
  provided no two rows were created at the same instant. This holds whatever order the
  engine visits the rows in, query by query.\<close>

theorem pages_partition:
  assumes pages: "\<And>p. p < m \<Longrightarrow>
      run_result (notificationRepo_List (r\<lparr>l_Page := 1 + int p\<rparr>)) (st p) = Inr (pages p, tot)"
    and rows: "\<And>p. p < m \<Longrightarrow> pg_notifications (st p) = rows"
    and size: "1 \<le> l_PageSize r" "l_PageSize r \<le> 100"
    and enough: "0 < m" "int (length (full_list r rows)) \<le> int m * l_PageSize r"
    and range: "int m * l_PageSize r < 9223372036854775808"
    and apart: "inj_on n_CreatedAt (set rows)"
  shows "concat (map pages [0..<m]) = full_list r rows \<and> tot = int (length (full_list r rows))"
proof -
  define k where "k = nat (l_PageSize r)"
  have k: "l_PageSize r = int k" "1 \<le> k" using size by (simp_all add: k_def)
  have m_small: "matches (r\<lparr>l_Page := q\<rparr>) = matches r" for q
    by (simp add: matches_def fun_eq_iff)
  then have full: "full_list (r\<lparr>l_Page := q\<rparr>) rows = full_list r rows" for q
    by (simp add: full_list_def)
  have page: "pages p = take k (drop (p * k) (full_list r rows)) \<and>
      tot = int (length (full_list r rows))" if p: "p < m" for p
  proof -
    let ?q = "r\<lparr>l_Page := 1 + int p\<rparr>"
    have N: "Normalize ?q = ?q" by (rule Normalize_id) (use size in simp_all)
    have "int p * int k < int m * int k" using p k(2) by simp
    then have "int (p * k) < 9223372036854775808" using range k(1) by simp
    moreover have "p \<le> p * k" using k(2) by (cases k) simp_all
    then have "int p \<le> int (p * k)" by (rule of_nat_mono)
    ultimately have off: "wrap64 (wrap64 (int p) * int k) = int (p * k)"
      by (simp add: wrap64_nonneg)
    from list_result(3) [OF pages [OF p]] obtain v where
      "pages p = take k (drop (p * k) (select_sorted v (\<lambda>n. - n_CreatedAt n) (matches ?q) rows))"
      unfolding rows [OF p] N by (auto simp: k(1) off nat_mult_distrib)
    moreover have "tot = int (length (filter (matches r) rows))"
      using list_result(1) [OF pages [OF p]] rows [OF p] m_small by simp
    ultimately show ?thesis
      using select_sorted_full [OF apart, of _ ?q] full by (simp add: full_list_def)
  qed
  then have "map pages [0..<m] = map (\<lambda>p. take k (drop (p * k) (full_list r rows))) [0..<m]"
    by simp
  then have "concat (map pages [0..<m]) = take (m * k) (full_list r rows)"
    by (simp only: concat_pages)
  moreover have "length (full_list r rows) \<le> m * k"
    using enough(2) unfolding k(1) by (simp flip: of_nat_mult)
  ultimately show ?thesis using page [OF enough(1)] by simp
qed

definition page_request :: "int \<Rightarrow> int \<Rightarrow> list_request" where
  "page_request page psize = \<lparr>l_Status = None, l_Channel = None, l_BatchID = None,
     l_StartDate = None, l_EndDate = None, l_Page = page, l_PageSize = psize\<rparr>"

text \<open>Listing without filters on a state without driver errors.\<close>

lemma run_List_unfiltered:
  assumes "pg_fault s (pg_calls s) = None" "pg_fault s (Suc (pg_calls s)) = None"
    "1 \<le> page" "1 \<le> psize" "psize \<le> 100"
  shows "run_result (notificationRepo_List (page_request page psize)) s =
    (let offset = wrap64 (wrap64 (page - 1) * psize)
     in if offset < 0 then Inl (PqError ''2201X'' ''pq: OFFSET must not be negative'')
        else Inr (take (nat psize) (drop (nat offset)
               (select_sorted (pg_scan s (Suc (pg_calls s))) (\<lambda>n. - n_CreatedAt n) (\<lambda>_. True)
                  (pg_notifications s))),
             int (length (pg_notifications s))))"
proof -
  let ?r = "page_request page psize"
  have N: "Normalize ?r = ?r"
    by (rule Normalize_id) (use assms in \<open>simp_all add: page_request_def\<close>)
  have b: "list_builder ?r = ([], [], 1)"
    by (simp add: list_builder_def page_request_def add_condition_def)
  have w: "list_where [] args = (\<lambda>_. True)" for args
    by (simp add: list_where_def fun_eq_iff)
  show ?thesis
    using assms
    by (simp add: notificationRepo_List_def N b w run_pg_notifications_stmt list_page_def arg_at_def
        Let_def) (simp add: page_request_def)
qed

definition two_rows :: "notification list" where
  "two_rows = [(sample 1 StatusSent)\<lparr>n_CreatedAt := 10\<rparr>, (sample 2 StatusSent)\<lparr>n_CreatedAt := 20\<rparr>]"

lemma two_rows_list:
  "run_result (notificationRepo_List (page_request (1 + int p) 1)) (calm_pg two_rows []) =
     Inr (take 1 (drop p [two_rows ! 1, two_rows ! 0]), 2)" if "p < 2"
proof -
  have "wrap64 (int p) = int p" using that by (simp add: wrap64_nonneg)
  then show ?thesis
    using that
    by (subst run_List_unfiltered)
      (simp_all add: calm_defs Let_def select_sorted_def two_rows_def)
qed

theorem pages_partition_witness:
  "concat (map (\<lambda>p. take 1 (drop p [two_rows ! 1, two_rows ! 0])) [0..<2]) =
     full_list (page_request 1 1) two_rows \<and>
   (2 :: int) = int (length (full_list (page_request 1 1) two_rows))"
proof (rule pages_partition [where st = "\<lambda>_. calm_pg two_rows []"])
  fix p :: nat assume "p < 2"
  then show "run_result (notificationRepo_List (page_request 1 1\<lparr>l_Page := 1 + int p\<rparr>))
      (calm_pg two_rows []) = Inr (take 1 (drop p [two_rows ! 1, two_rows ! 0]), 2)"
    using two_rows_list [of p] by (simp add: page_request_def)
qed (auto simp: calm_defs page_request_def full_list_def two_rows_def matches_def)

text \<open>Rows of one batch share their creation time, and then pages can disagree: for two
  such rows the engine may give the same row as page 1 and as page 2, and the other row on
  no page.\<close>

theorem pages_unstable:
  "\<exists>s :: pg. length (pg_notifications s) = 2 \<and> distinct (pg_notifications s) \<and>
     (\<forall>k. pg_fault s k = None) \<and>
     (let (first, s1) = run_state (notificationRepo_List (page_request 1 1)) s;
          (second, _) = run_state (notificationRepo_List (page_request 2 1)) s1
      in first = Inr ([sample 1 StatusSent], 2) \<and> second = Inr ([sample 1 StatusSent], 2))"
proof -
  define s where "s = (calm_pg [sample 1 StatusSent, sample 2 StatusSent] [])
    \<lparr>pg_scan := (\<lambda>k n. if k < 2 then uint (n_ID n) else - uint (n_ID n))\<rparr>"
  have faults: "pg_fault s k = None" for k by (simp add: s_def calm_defs)
  have calls: "pg_calls s = 0" by (simp add: s_def calm_defs)
  have rows: "pg_notifications s = [sample 1 StatusSent, sample 2 StatusSent]"
    by (simp add: s_def calm_defs)
  obtain r1 s1 where r1: "run_state (notificationRepo_List (page_request 1 1)) s = (r1, s1)"
    by fastforce
  have s1: "pg_calls s1 = 2" "pg_notifications s1 = pg_notifications s" "pg_fault s1 = pg_fault s"
    "pg_scan s1 = pg_scan s"
    using r1 faults calls
    by (auto simp: notificationRepo_List_def run_pg_notifications_stmt Let_def split: prod.splits)
  have "r1 = Inr ([sample 1 StatusSent], 2)"
    using run_List_unfiltered [of s 1 1] r1 faults calls rows
    by (simp add: s_def calm_defs select_sorted_def sample_def zero_notification_def wrap64_def)
  moreover have "run_result (notificationRepo_List (page_request 2 1)) s1 = Inr ([sample 1 StatusSent], 2)"
    using run_List_unfiltered [of s1 2 1] faults rows s1
    by (simp add: s_def calm_defs select_sorted_def sample_def zero_notification_def wrap64_def)
  moreover have "distinct (pg_notifications s)"
    by (simp add: rows sample_def zero_notification_def)
  ultimately show ?thesis
    using faults rows r1 by (intro exI [of _ s]) (auto simp: split: prod.splits)
qed

text \<open>The offset is computed in 64 bits: a page number far past the end wraps around to a
  negative offset, and the engine rejects the query instead of answering with an empty page.\<close>

theorem list_offset_overflow:
  assumes "pg_fault s (pg_calls s) = None" "pg_fault s (Suc (pg_calls s)) = None"
  shows "run_result (notificationRepo_List (page_request 92233720368547760 100)) s =
    Inl (PqError ''2201X'' ''pq: OFFSET must not be negative'')"
  using run_List_unfiltered [OF assms, of 92233720368547760 100] by (simp add: wrap64_def)

theorem list_offset_overflow_witness:
  "run_result (notificationRepo_List (page_request 92233720368547760 100)) (calm_pg [] []) =
    Inl (PqError ''2201X'' ''pq: OFFSET must not be negative'')"
  by (rule list_offset_overflow) (simp_all add: calm_defs)

section \<open>The scheduler's selection\<close>

text \<open>When the driver reports no error, \<open>GetPending\<close> returns the oldest due
  notifications: at most the limit, all of them when they fit, each pending with no schedule
  or one that has passed, in creation order, and none it leaves out is older than one it
  returns.\<close>

theorem get_pending_oldest_due:
  assumes "run_result (notificationRepo_GetPending limit) s = Inr ns"
  shows "\<exists>now. set ns \<subseteq> {n \<in> set (pg_notifications s). due now n} \<and>
    sorted (map n_CreatedAt ns) \<and>
    length ns = min (nat limit) (length (filter (due now) (pg_notifications s))) \<and>
    (\<forall>m \<in> set (pg_notifications s). due now m \<longrightarrow>
       m \<in> set ns \<or> (\<forall>n \<in> set ns. n_CreatedAt n \<le> n_CreatedAt m))"
proof -
  have "pending_spec limit (pg_notifications s) (Inr ns)
      (pg_notifications (run_final (notificationRepo_GetPending limit) s))"
    using run_GetPending [OF prod.collapse [symmetric]] assms by metis
  then obtain t where t: "mset ns \<subseteq># mset (filter (due t) (pg_notifications s))"
    "sorted (map n_CreatedAt ns)"
    "length ns = min (nat limit) (length (filter (due t) (pg_notifications s)))"
    "\<forall>m \<in> set (pg_notifications s). due t m \<longrightarrow>
       m \<in> set ns \<or> (\<forall>n \<in> set ns. n_CreatedAt n \<le> n_CreatedAt m)"
    by (auto simp: pending_spec_def)
  from t(1) have "set ns \<subseteq> {n \<in> set (pg_notifications s). due t n}"
    by (metis set_filter set_mset_mono set_mset_mset)
  with t(2-) show ?thesis by blast
qed

theorem get_pending_oldest_due_witness:
  "\<exists>now. set [sample 3 StatusPending] \<subseteq> {n \<in> set [sample 3 StatusPending, sample 4 StatusSent]. due now n}"
proof -
  let ?s = "calm_pg [sample 3 StatusPending, sample 4 StatusSent] []"
  have "run_result (notificationRepo_GetPending 100) ?s = Inr [sample 3 StatusPending]"
    by (simp add: notificationRepo_GetPending_def run_pg_notifications_stmt calm_defs Let_def
        select_sorted_def due_def sample_def zero_notification_def)
  from get_pending_oldest_due [OF this] show ?thesis by (auto simp: calm_defs)
qed

section \<open>Counters\<close>

lemma map_of_group_count:
  "map_of (group_count key rows) k =
     (if k \<in> key ` set rows then Some (int (length (filter (\<lambda>n. key n = k) rows))) else None)"
  by (simp add: group_count_def map_of_map_restrict restrict_map_def)

lemma distinct_group_count: "distinct (map fst (group_count key rows))"
  by (simp add: group_count_def comp_def)

lemma collect_status_lookup:
  "distinct (map fst gs) \<Longrightarrow>
     collect_status gs m s = (case map_of gs s of Some c \<Rightarrow> Some c | None \<Rightarrow> m s)"
proof (induction gs m rule: collect_status.induct)
  case (2 s' c rest m)
  then have "collect_status rest (m(s' \<mapsto> c)) s =
      (case map_of rest s of Some c \<Rightarrow> Some c | None \<Rightarrow> (m(s' \<mapsto> c)) s)"
    by (simp del: fun_upd_apply)
  moreover have "map_of rest s' = None"
    using "2.prems" by (simp add: map_of_eq_None_iff)
  ultimately show ?case by (cases "s = s'") (simp_all split: option.split)
qed simp

lemma collect_channel_status_lookup:
  "distinct (map fst gs) \<Longrightarrow>
     Option.bind (collect_channel_status gs m ch) (\<lambda>mm. mm s) =
       (case map_of gs (ch, s) of Some c \<Rightarrow> Some c | None \<Rightarrow> Option.bind (m ch) (\<lambda>mm. mm s))"
proof (induction gs m rule: collect_channel_status.induct)
  case (2 ch' s' c rest m)
  define m1 where "m1 = (if m ch' = None then m(ch' \<mapsto> Map.empty) else m)"
  define m2 where "m2 = m1(ch' \<mapsto> (the (m1 ch'))(s' \<mapsto> c))"
  have step: "collect_channel_status (((ch', s'), c) # rest) m = collect_channel_status rest m2"
    by (simp only: collect_channel_status.simps Let_def m1_def m2_def)
  have IH: "Option.bind (collect_channel_status rest m2 ch) (\<lambda>mm. mm s) =
      (case map_of rest (ch, s) of Some c \<Rightarrow> Some c | None \<Rightarrow> Option.bind (m2 ch) (\<lambda>mm. mm s))"
    unfolding m2_def using "2.IH" [OF m1_def] "2.prems" by (simp del: fun_upd_apply)
  have absent: "map_of rest (ch', s') = None"
    using "2.prems" by (auto simp: map_of_eq_None_iff)
  have m2: "Option.bind (m2 ch) (\<lambda>mm. mm s) =
      (if (ch, s) = (ch', s') then Some c else Option.bind (m ch) (\<lambda>mm. mm s))"
    by (auto simp: m1_def m2_def)
  show ?case
    unfolding step IH m2 using absent by (cases "(ch, s) = (ch', s')") (auto split: option.split)
qed simp

definition count_rows :: "(notification \<Rightarrow> bool) \<Rightarrow> notification list \<Rightarrow> int" where
  "count_rows p rows = int (length (filter p rows))"

lemma count_rows_pos: "count_rows p rows = 0 \<longleftrightarrow> (\<forall>n \<in> set rows. \<not> p n)"
  by (simp add: count_rows_def filter_empty_conv)

text \<open>The counters by status, and by channel and status, are the numbers of rows: a key is
  present exactly when some row has it, with the number of those rows.\<close>

theorem counters_correct:
  assumes "pg_fault s (pg_calls s) = None" "pg_cut s (pg_calls s) = None"
  shows "(\<exists>m. run_result notificationRepo_CountByStatus s = Inr m \<and>
      (\<forall>st. (case m st of None \<Rightarrow> 0 | Some c \<Rightarrow> c) =
         count_rows (\<lambda>n. n_Status n = st) (pg_notifications s) \<and> m st \<noteq> Some 0)) \<and>
    (\<exists>m. run_result notificationRepo_CountByChannelAndStatus s = Inr m \<and>
      (\<forall>ch st. (case Option.bind (m ch) (\<lambda>mm. mm st) of None \<Rightarrow> 0 | Some c \<Rightarrow> c) =
         count_rows (\<lambda>n. n_Channel n = ch \<and> n_Status n = st) (pg_notifications s)))"
proof
  let ?rows = "pg_notifications s"
  let ?m = "collect_status (group_count n_Status ?rows) Map.empty"
  have "?m st = (if st \<in> n_Status ` set ?rows then Some (count_rows (\<lambda>n. n_Status n = st) ?rows)
      else None)" for st
    by (simp add: collect_status_lookup distinct_group_count map_of_group_count count_rows_def)
  then show "\<exists>m. run_result notificationRepo_CountByStatus s = Inr m \<and>
      (\<forall>st. (case m st of None \<Rightarrow> 0 | Some c \<Rightarrow> c) =
         count_rows (\<lambda>n. n_Status n = st) ?rows \<and> m st \<noteq> Some 0)"
    using assms
    by (intro exI [of _ ?m]) (auto simp: notificationRepo_CountByStatus_def run_pg_notifications_stmt
        count_rows_pos image_iff)
next
  let ?rows = "pg_notifications s"
  let ?key = "\<lambda>n. (n_Channel n, n_Status n)"
  let ?m = "collect_channel_status (group_count ?key ?rows) Map.empty"
  have "Option.bind (?m ch) (\<lambda>mm. mm st) = (if (ch, st) \<in> ?key ` set ?rows
      then Some (count_rows (\<lambda>n. n_Channel n = ch \<and> n_Status n = st) ?rows) else None)" for ch st
    by (simp add: collect_channel_status_lookup distinct_group_count map_of_group_count count_rows_def)
  then show "\<exists>m. run_result notificationRepo_CountByChannelAndStatus s = Inr m \<and>
      (\<forall>ch st. (case Option.bind (m ch) (\<lambda>mm. mm st) of None \<Rightarrow> 0 | Some c \<Rightarrow> c) =
         count_rows (\<lambda>n. n_Channel n = ch \<and> n_Status n = st) ?rows)"
    using assms
    by (intro exI [of _ ?m]) (auto simp: notificationRepo_CountByChannelAndStatus_def
        run_pg_notifications_stmt count_rows_pos image_iff)
qed

theorem counters_correct_witness:
  "\<exists>m. run_result notificationRepo_CountByStatus (calm_pg two_rows []) = Inr m \<and>
     (case m StatusSent of None \<Rightarrow> 0 | Some c \<Rightarrow> c) = 2"
proof -
  have "pg_fault (calm_pg two_rows []) (pg_calls (calm_pg two_rows [])) = None"
    "pg_cut (calm_pg two_rows []) (pg_calls (calm_pg two_rows [])) = None"
    by (simp_all add: calm_defs)
  from counters_correct [OF this] obtain m where
    "run_result notificationRepo_CountByStatus (calm_pg two_rows []) = Inr m"
    "(case m StatusSent of None \<Rightarrow> 0 | Some c \<Rightarrow> c) =
       count_rows (\<lambda>n. n_Status n = StatusSent) (pg_notifications (calm_pg two_rows []))"
    by blast
  then show ?thesis
    by (auto simp: count_rows_def calm_defs two_rows_def sample_def)
qed

text \<open>The loops do not ask whether the rows ended or the connection did: lost before the first row,
  it makes every count zero, with no error.\<close>

theorem counters_truncated:
  assumes "pg_fault s (pg_calls s) = None" "pg_cut s (pg_calls s) = Some 0"
  shows "run_result notificationRepo_CountByStatus s = Inr Map.empty \<and>
    run_result notificationRepo_CountByChannelAndStatus s = Inr Map.empty"
  using assms
  by (simp add: notificationRepo_CountByStatus_def notificationRepo_CountByChannelAndStatus_def
      run_pg_notifications_stmt arrived_def)

end
