(* ===== verification/Health.thy ===== *)
theory Health
  imports Api_Response Connections Notification_Query Provider
begin

text \<open>
  \<open>internal/handler/health.go\<close>: the health check, with its cached connection to RabbitMQ, and
  the metrics. \<open>api\<close> adds to the outside world the handler's own field and what the broker
  answers: whether the cached connection is closed, asked for the \<open>k\<close>-th time, and the depth
  of a queue. The \<open>float64\<close> numbers here are not negative, and fractions of two naturals.
\<close>

record api = web +
  hc_conn :: bool \<comment> \<open>\<open>amqpConn != nil\<close>\<close>
  hc_closed :: "nat \<Rightarrow> bool"
  hc_asks :: nat
  hc_depth :: "nat \<Rightarrow> int"

section \<open>The cached connection\<close>

definition IsClosed :: "('a api_scheme, bool) state" where
  "IsClosed = State (\<lambda>s. (hc_closed s (hc_asks s), s\<lparr>hc_asks := Suc (hc_asks s)\<rparr>))"

text \<open>The second half of the function: dial and remember the connection.\<close>

definition redial :: "string \<Rightarrow> ('a api_scheme, go_error option) state" where
  "redial url = do {
     e \<leftarrow> amqp_do (Dial url);
     case e of
       Some err \<Rightarrow> return (Some err)
     | None \<Rightarrow> do { modify (\<lambda>s. s\<lparr>hc_conn := True\<rparr>); return None }
   }"

definition getAMQPConn :: "string \<Rightarrow> ('a api_scheme, go_error option) state" where
  "getAMQPConn url = do {
     cached \<leftarrow> gets hc_conn;
     if cached then do {
       closed \<leftarrow> IsClosed;
       if \<not> closed then return None else redial url
     }
     else redial url
   }"

section \<open>Health\<close>

definition db_Ping :: "('a pg_scheme, go_error option) state" where
  "db_Ping = do { (fault, now) \<leftarrow> pg_call; return fault }"

definition redis_Ping :: "('a redis_scheme, go_error option) state" where
  "redis_Ping = State (\<lambda>s. (rd_fault s (rd_calls s), s\<lparr>rd_calls := Suc (rd_calls s)\<rparr>))"

record health_response =
  hr_Status :: string
  hr_Services :: "(string \<times> string) list"

definition verdict :: "go_error option \<Rightarrow> string" where
  "verdict e = (case e of None \<Rightarrow> ''healthy'' | Some err \<Rightarrow> ''unhealthy: '' @ error_text err)"

text \<open>The loop over the map: \<open>degraded\<close> as soon as one service is not healthy.\<close>

fun overall :: "(string \<times> string) list \<Rightarrow> string \<times> int" where
  "overall [] = (''healthy'', 200)"
| "overall ((k, v) # vs) = (if v \<noteq> ''healthy'' then (''degraded'', 503) else overall vs)"

definition Health :: "string \<Rightarrow> ('a api_scheme, int \<times> health_response) state" where
  "Health url = do {
     e1 \<leftarrow> db_Ping;
     e2 \<leftarrow> redis_Ping;
     e3 \<leftarrow> getAMQPConn url;
     let services = [(''postgres'', verdict e1), (''redis'', verdict e2), (''rabbitmq'', verdict e3)];
     let (status, code) = overall services;
     return (code, \<lparr>hr_Status = status, hr_Services = services\<rparr>)
   }"

section \<open>Metrics\<close>

record channel_metrics =
  cm_Sent :: int
  cm_Failed :: int
  cm_Pending :: int
  cm_Queued :: int

record metrics_response =
  mr_QueueDepth :: "channel \<rightharpoonup> int"
  mr_SuccessRate :: "channel \<rightharpoonup> nat \<times> nat"
  mr_FailureRate :: "channel \<rightharpoonup> nat \<times> nat"
  mr_AvgLatencyMs :: "channel \<rightharpoonup> nat \<times> nat"
  mr_TotalSent :: int
  mr_TotalFailed :: int
  mr_TotalPending :: int
  mr_PerChannel :: "channel \<rightharpoonup> channel_metrics"

text \<open>The variables of the loop over the counts. Reading a missing key of a Go map gives zero.\<close>

record tally =
  ta_ct :: "channel \<rightharpoonup> int"
  ta_cs :: "channel \<rightharpoonup> int"
  ta_cf :: "channel \<rightharpoonup> int"
  ta_sent :: int
  ta_failed :: int
  ta_pending :: int
  ta_per :: "channel \<rightharpoonup> channel_metrics"

definition at0 :: "('k \<rightharpoonup> int) \<Rightarrow> 'k \<Rightarrow> int" where
  "at0 m k = (case m k of None \<Rightarrow> 0 | Some v \<Rightarrow> v)"

definition per_channel :: "tally \<Rightarrow> channel \<Rightarrow> channel_metrics" where
  "per_channel a ch =
     (case ta_per a ch of None \<Rightarrow> \<lparr>cm_Sent = 0, cm_Failed = 0, cm_Pending = 0, cm_Queued = 0\<rparr> | Some cm \<Rightarrow> cm)"

definition tally_row :: "(channel \<times> status) \<times> int \<Rightarrow> tally \<Rightarrow> tally" where
  "tally_row row a =
     (case row of ((ch, st), c) \<Rightarrow>
        let a1 = a\<lparr>ta_ct := (ta_ct a)(ch \<mapsto> at0 (ta_ct a) ch + c)\<rparr>;
            cm = per_channel a ch;
            (a2, cm2) =
              (if st = StatusSent
               then (a1\<lparr>ta_cs := (ta_cs a)(ch \<mapsto> at0 (ta_cs a) ch + c), ta_sent := ta_sent a + c\<rparr>,
                     cm\<lparr>cm_Sent := cm_Sent cm + c\<rparr>)
               else if st = StatusFailed
               then (a1\<lparr>ta_cf := (ta_cf a)(ch \<mapsto> at0 (ta_cf a) ch + c), ta_failed := ta_failed a + c\<rparr>,
                     cm\<lparr>cm_Failed := cm_Failed cm + c\<rparr>)
               else if st = StatusPending
               then (a1\<lparr>ta_pending := ta_pending a + c\<rparr>, cm\<lparr>cm_Pending := cm_Pending cm + c\<rparr>)
               else if st = StatusQueued
               then (a1\<lparr>ta_pending := ta_pending a + c\<rparr>, cm\<lparr>cm_Queued := cm_Queued cm + c\<rparr>)
               else (a1, cm))
        in a2\<lparr>ta_per := (ta_per a2)(ch \<mapsto> cm2)\<rparr>)"

definition tally_all :: "((channel \<times> status) \<times> int) list \<Rightarrow> tally" where
  "tally_all stats = fold tally_row stats
     \<lparr>ta_ct = Map.empty, ta_cs = Map.empty, ta_cf = Map.empty, ta_sent = 0, ta_failed = 0, ta_pending = 0,
      ta_per = Map.empty\<rparr>"

text \<open>\<open>float64(part) / float64(completed) * 100\<close>, for a channel with completed deliveries.\<close>

definition percent :: "int \<Rightarrow> int \<Rightarrow> nat \<times> nat" where
  "percent part completed =
     (let (p, q) = float_quotient (nat (float64_of_int part)) (nat (float64_of_int completed))
      in float_quotient (p * 100) q)"

definition rates :: "tally \<Rightarrow> (channel \<rightharpoonup> int) \<Rightarrow> channel \<Rightarrow> (nat \<times> nat) option" where
  "rates a part ch =
     (case ta_ct a ch of
        None \<Rightarrow> None
      | Some _ \<Rightarrow>
          let completed = at0 (ta_cs a) ch + at0 (ta_cf a) ch
          in if completed > 0 then Some (percent (at0 part ch) completed) else None)"

fun queue_depths :: "rabbitmq_config \<Rightarrow> channel list \<Rightarrow> (channel \<rightharpoonup> int) \<Rightarrow> ('a api_scheme, channel \<rightharpoonup> int) state" where
  "queue_depths cfg [] m = return m"
| "queue_depths cfg (ch # chs) m = do {
     depth \<leftarrow> gets (\<lambda>s. hc_depth s (amqp_calls s));
     e \<leftarrow> amqp_do (QueueDeclarePassive (queue_name cfg ch));
     queue_depths cfg chs (case e of None \<Rightarrow> m(ch \<mapsto> depth) | Some err \<Rightarrow> m)
   }"

definition broker_depths :: "rabbitmq_config \<Rightarrow> string \<Rightarrow> ('a api_scheme, channel \<rightharpoonup> int) state" where
  "broker_depths cfg url = do {
     e \<leftarrow> getAMQPConn url;
     case e of
       Some err \<Rightarrow> return Map.empty
     | None \<Rightarrow> do {
         e2 \<leftarrow> amqp_do OpenChannel;
         case e2 of
           Some err \<Rightarrow> return Map.empty
         | None \<Rightarrow> do {
             m \<leftarrow> queue_depths cfg [''sms'', ''email'', ''push''] Map.empty;
             amqp_close CloseChannel;
             return m
           }
       }
   }"

text \<open>\<open>math.Round(x * 100) / 100\<close>, for the average the database computed.\<close>

definition round_cents :: "nat \<times> nat \<Rightarrow> nat \<times> nat" where
  "round_cents x =
     (let (p, q) = float_quotient (fst x * 100) (snd x) in float_quotient ((2 * p + q) div (2 * q)) 100)"

text \<open>The second query: the average latency of the rows of a channel that have a \<open>sent_at\<close>.
  \<open>avg\<close> is PostgreSQL's average of durations in milliseconds, as the driver converts it.\<close>

definition latency_rows :: "(duration list \<Rightarrow> nat \<times> nat) \<Rightarrow> notification list \<Rightarrow> (channel \<times> nat \<times> nat) list" where
  "latency_rows avg rows =
     (let sent = filter (\<lambda>n. n_SentAt n \<noteq> None) rows
      in map (\<lambda>ch. (ch, avg (map (\<lambda>n. the (n_SentAt n) - n_CreatedAt n) (filter (\<lambda>n. n_Channel n = ch) sent))))
           (remdups (map n_Channel sent)))"

definition Metrics ::
  "(duration list \<Rightarrow> nat \<times> nat) \<Rightarrow> rabbitmq_config \<Rightarrow> string \<Rightarrow>
     ('a api_scheme, int \<times> (api_error + metrics_response)) state"
where
  "Metrics avg cfg url = do {
     r1 \<leftarrow> pg_notifications_stmt (\<lambda>now rows. (Inr (group_count (\<lambda>n. (n_Channel n, n_Status n)) rows), rows));
     case r1 of
       Inl err \<Rightarrow> return (500, Inl \<lparr>ae_Code = ErrCodeMetrics, ae_Message = error_text err, ae_Details = []\<rparr>)
     | Inr stats \<Rightarrow> do {
         let a = tally_all stats;
         depth \<leftarrow> broker_depths cfg url;
         r2 \<leftarrow> pg_notifications_stmt (\<lambda>now rows. (Inr (latency_rows avg rows), rows));
         return (case r2 of
             Inl err \<Rightarrow> (500, Inl \<lparr>ae_Code = ErrCodeMetrics, ae_Message = error_text err, ae_Details = []\<rparr>)
           | Inr lats \<Rightarrow> (200, Inr
               \<lparr>mr_QueueDepth = depth, mr_SuccessRate = rates a (ta_cs a), mr_FailureRate = rates a (ta_cf a),
                mr_AvgLatencyMs = fold (\<lambda>(ch, x) m. m(ch \<mapsto> round_cents x)) lats Map.empty,
                mr_TotalSent = ta_sent a, mr_TotalFailed = ta_failed a, mr_TotalPending = ta_pending a,
                mr_PerChannel = ta_per a\<rparr>))
       }
   }"

end
