(* ===== verification/Notification_Handler.thy ===== *)
theory Notification_Handler
  imports Api_Response
begin

text \<open>
  \<open>internal/handler/notification.go\<close>: the handlers of the notification routes. A handler takes
  what gin made of the request: \<open>http_lib\<close> holds the bindings of a body and of a query
  string and \<open>uuid.Parse\<close>, which answer \<open>None\<close> for an error.
\<close>

record http_lib =
  bind_create :: "string \<Rightarrow> create_request option"
  bind_batch :: "string \<Rightarrow> batch_create_request option"
  bind_query :: "string \<Rightarrow> list_request option"
  bind_template :: "string \<Rightarrow> create_template_request option"
  uuid_Parse :: "string \<Rightarrow> uuid option"

text \<open>The interface \<open>service.NotificationService\<close>, and the service's methods under it.\<close>

record 's notification_service =
  ns_Create :: "create_request \<Rightarrow> ('s, go_error + notification) state"
  ns_CreateBatch :: "batch_create_request \<Rightarrow> ('s, go_error + batch_create_response) state"
  ns_GetByID :: "uuid \<Rightarrow> ('s, go_error + notification) state"
  ns_GetByBatchID :: "uuid \<Rightarrow> ('s, go_error + notification list) state"
  ns_Cancel :: "uuid \<Rightarrow> ('s, go_error option) state"
  ns_List :: "list_request \<Rightarrow> ('s, go_error + notification list \<times> int) state"

definition service_methods :: "('a runtime_scheme) service \<Rightarrow> ('a runtime_scheme) notification_service" where
  "service_methods svc = \<lparr>ns_Create = notificationService_Create svc,
     ns_CreateBatch = notificationService_CreateBatch svc, ns_GetByID = notificationService_GetByID svc,
     ns_GetByBatchID = notificationService_GetByBatchID svc, ns_Cancel = notificationService_Cancel svc,
     ns_List = notificationService_List svc\<rparr>"

section \<open>The handlers\<close>

definition handler_Create :: "http_lib \<Rightarrow> 's notification_service \<Rightarrow> string \<Rightarrow> ('s, answer) state" where
  "handler_Create lib svc body =
     (case bind_create lib body of
        None \<Rightarrow> return (respondError 400 ErrCodeInvalidRequest ''invalid request body'' [])
      | Some req \<Rightarrow> do {
          r \<leftarrow> ns_Create svc req;
          return (case r of
              Inl err \<Rightarrow> handleServiceError err
            | Inr n \<Rightarrow> respondSuccess 201 (PNotification n) None)
        })"

definition handler_CreateBatch :: "http_lib \<Rightarrow> 's notification_service \<Rightarrow> string \<Rightarrow> ('s, answer) state" where
  "handler_CreateBatch lib svc body =
     (case bind_batch lib body of
        None \<Rightarrow> return (respondError 400 ErrCodeInvalidRequest ''invalid request body'' [])
      | Some req \<Rightarrow> do {
          r \<leftarrow> ns_CreateBatch svc req;
          return (case r of
              Inl err \<Rightarrow> handleServiceError err
            | Inr resp \<Rightarrow> respondSuccess 201 (PBatch resp) None)
        })"

definition handler_GetByID :: "http_lib \<Rightarrow> 's notification_service \<Rightarrow> string \<Rightarrow> ('s, answer) state" where
  "handler_GetByID lib svc param =
     (case uuid_Parse lib param of
        None \<Rightarrow> return (respondError 400 ErrCodeInvalidID ''invalid UUID format'' [])
      | Some i \<Rightarrow> do {
          r \<leftarrow> ns_GetByID svc i;
          return (case r of
              Inl err \<Rightarrow> handleServiceError err
            | Inr n \<Rightarrow> respondSuccess 200 (PNotification n) None)
        })"

definition handler_GetByBatchID :: "http_lib \<Rightarrow> 's notification_service \<Rightarrow> string \<Rightarrow> ('s, answer) state" where
  "handler_GetByBatchID lib svc param =
     (case uuid_Parse lib param of
        None \<Rightarrow> return (respondError 400 ErrCodeInvalidID ''invalid batch UUID format'' [])
      | Some i \<Rightarrow> do {
          r \<leftarrow> ns_GetByBatchID svc i;
          return (case r of
              Inl err \<Rightarrow> handleServiceError err
            | Inr ns \<Rightarrow> respondSuccess 200 (NotificationListResponse ns) None)
        })"

definition handler_Cancel :: "http_lib \<Rightarrow> 's notification_service \<Rightarrow> string \<Rightarrow> ('s, answer) state" where
  "handler_Cancel lib svc param =
     (case uuid_Parse lib param of
        None \<Rightarrow> return (respondError 400 ErrCodeInvalidID ''invalid UUID format'' [])
      | Some i \<Rightarrow> do {
          r \<leftarrow> ns_Cancel svc i;
          return (case r of
              Some err \<Rightarrow> handleServiceError err
            | None \<Rightarrow> respondSuccess 200 (PMessage ''notification cancelled'') None)
        })"

text \<open>\<open>int(math.Ceil(float64(total) / float64(filter.PageSize)))\<close>\<close>

definition total_pages :: "int \<Rightarrow> int \<Rightarrow> int" where
  "total_pages n pageSize = int (ceil_quotient (nat (float64_of_int n)) (nat (float64_of_int pageSize)))"

definition handler_List :: "http_lib \<Rightarrow> 's notification_service \<Rightarrow> string \<Rightarrow> ('s, answer) state" where
  "handler_List lib svc query =
     (case bind_query lib query of
        None \<Rightarrow> return (respondError 400 ErrCodeInvalidFilter ''invalid filter parameters'' [])
      | Some f \<Rightarrow> do {
          r \<leftarrow> ns_List svc f;
          return (case r of
              Inl err \<Rightarrow> respondError 500 ErrCodeInternal ''failed to list notifications'' []
            | Inr (ns, matching) \<Rightarrow>
                let f1 = Normalize f
                in respondSuccess 200 (NotificationListResponse ns)
                     (Some \<lparr>m_Page = l_Page f1, m_PageSize = l_PageSize f1, m_Total = matching,
                        m_TotalPages = total_pages matching (l_PageSize f1)\<rparr>))
        })"

section \<open>The routes\<close>

datatype notification_call =
    PostNotification string
  | PostBatch string
  | GetNotification string
  | GetBatch string
  | DeleteNotification string
  | GetNotifications string

fun notification_routes ::
  "http_lib \<Rightarrow> 's notification_service \<Rightarrow> notification_call \<Rightarrow> ('s, answer) state"
where
  "notification_routes lib svc (PostNotification body) = handler_Create lib svc body"
| "notification_routes lib svc (PostBatch body) = handler_CreateBatch lib svc body"
| "notification_routes lib svc (GetNotification i) = handler_GetByID lib svc i"
| "notification_routes lib svc (GetBatch i) = handler_GetByBatchID lib svc i"
| "notification_routes lib svc (DeleteNotification i) = handler_Cancel lib svc i"
| "notification_routes lib svc (GetNotifications q) = handler_List lib svc q"

end
