(* ===== verification/Consumer_Spec.thy ===== *)
theory Consumer_Spec
  imports Consumer
begin

text \<open>
  What processing one message does, proved for any repository, provider and limiter that
  keep their contracts (the locale \<open>consumer_env\<close>): the message is settled exactly once, in
  a way that follows from the delivery alone; and when the store works, the row goes through
  exactly the states the code names.
\<close>

section \<open>The contracts\<close>

text \<open>A store together with the states \<open>calm\<close> in which none of its calls fails.\<close>

locale reliable_store = notification_store repo rows
  for repo :: "'s notification_repo" and rows +
  fixes calm :: "'s \<Rightarrow> bool"
  assumes calm_get: "calm s \<Longrightarrow> run_state (repo_GetByID repo i) s = (r, s') \<Longrightarrow>
      calm s' \<and> (i \<in> n_ID ` set (rows s) \<longrightarrow> (\<exists>m. r = Inr m))"
    and calm_update: "calm s \<Longrightarrow> run_state (repo_UpdateStatus repo i st p l) s = (ro, s') \<Longrightarrow>
      calm s' \<and> (\<exists>t. rows s' = updated (\<lambda>n. n_ID n = i) (set_status st p l) t (rows s))"
    and calm_increment: "calm s \<Longrightarrow> \<forall>m \<in> set (rows s). n_RetryCount m < 2147483647 \<Longrightarrow>
      run_state (repo_IncrementRetry repo i e) s = (ro, s') \<Longrightarrow>
      calm s' \<and> (\<exists>t. rows s' = updated (\<lambda>n. n_ID n = i) (bump_retry e) t (rows s))"

text \<open>What the broker knows of the program: the calls made and those that will fail.\<close>

definition broker :: "'a amqp_scheme \<Rightarrow> amqp_call list \<times> nat \<times> (nat \<Rightarrow> go_error option)" where
  "broker s = (amqp_log s, amqp_calls s, amqp_fault s)"

lemma keeps_broker_time: "keeps broker time_Now"
  by (simp add: keeps_def broker_def)

lemma keeps_broker_select: "keeps broker (select_done_or_after d)"
  by (simp add: keeps_def broker_def select_done_or_after_def)

locale consumer_env = reliable_store repo rows calm
  for repo :: "('a amqp_scheme) notification_repo" and rows and calm +
  fixes con :: "('a amqp_scheme) consumer"
    and outside :: "'a amqp_scheme \<Rightarrow> 'o" \<comment> \<open>what the provider's answer depends on\<close>
  assumes con_parts: "con_repo con = repo"
    and keeps_broker: "keeps broker (repo_GetByID repo i)" "keeps broker (repo_UpdateStatus repo i st p l)"
      "keeps broker (repo_IncrementRetry repo i e)" "keeps broker (prov_Send (con_provider con) q)"
      "keeps broker (rl_Allow (con_limiter con) ch)"
    and keeps_rows: "keeps rows (prov_Send (con_provider con) q)"
      "keeps rows (rl_Allow (con_limiter con) ch)" "keeps rows (select_done_or_after d)"
      "keeps rows time_Now" "keeps rows (amqp_do c)"
    and keeps_calm: "keeps calm (prov_Send (con_provider con) q)"
      "keeps calm (rl_Allow (con_limiter con) ch)" "keeps calm (select_done_or_after d)"
      "keeps calm time_Now" "keeps calm (amqp_do c)"
    and keeps_outside: "keeps outside (repo_GetByID repo i)" "keeps outside (repo_UpdateStatus repo i st p l)"
      "keeps outside (rl_Allow (con_limiter con) ch)" "keeps outside (select_done_or_after d)"
      "keeps outside time_Now" "keeps outside (amqp_do c)"

section \<open>Settling\<close>

text \<open>Exactly one more call to the broker was made, and it was \<open>c\<close>.\<close>

definition settled :: "'a amqp_scheme \<Rightarrow> 'a amqp_scheme \<Rightarrow> amqp_call \<Rightarrow> bool" where
  "settled s s' c \<longleftrightarrow> amqp_calls s' = Suc (amqp_calls s) \<and>
     amqp_log s' = amqp_log s @ (if amqp_fault s (amqp_calls s) = None then [c] else [])"

lemma settled_amqp_do:
  "broker s1 = broker s \<Longrightarrow> run_state (amqp_do c) s1 = (e, s') \<Longrightarrow> settled s s' c"
  by (auto simp: settled_def broker_def amqp_do_cases split: option.splits)

text \<open>
  How the code settles a delivery attempt: acknowledge a success, requeue a failure worth
  another attempt, reject any other (which dead-letters it). \<open>k\<close> is the number of failed
  attempts before this one.
\<close>

definition settlement :: "int \<Rightarrow> nat \<Rightarrow> int \<Rightarrow> go_error + delivery_response \<Rightarrow> amqp_call" where
  "settlement maxRetries tag k r =
     (case r of
        Inr resp \<Rightarrow> Ack tag
      | Inl e \<Rightarrow> Nack tag (is_retryable e \<and> wrap64 (k + 1) < maxRetries))"

section \<open>The row of the message\<close>

definition replace_row :: "uuid \<Rightarrow> notification \<Rightarrow> notification list \<Rightarrow> notification list" where
  "replace_row i m rs = map (\<lambda>x. if n_ID x = i then m else x) rs"

lemma replace_row_id:
  assumes "distinct (map n_ID rs)" "m \<in> set rs"
  shows "replace_row (n_ID m) m rs = rs"
proof -
  have "x = m" if "x \<in> set rs" "n_ID x = n_ID m" for x
    using distinct_map_filter_unique [OF assms(1) that(1) assms(2) that(2)] .
  then show ?thesis unfolding replace_row_def by (intro map_idI) auto
qed

lemma updated_replace:
  assumes "n_ID m = i"
  shows "updated (\<lambda>n. n_ID n = i) f t (replace_row i m rs) =
    replace_row i ((f t m)\<lparr>n_UpdatedAt := t\<rparr>) rs"
  using assms by (simp add: updated_def replace_row_def)

lemma set_status_fields [simp]:
  "n_LastError (set_status st p l t n) = l"
  "n_ProviderMsgID (set_status st p l t n) = (case p of None \<Rightarrow> n_ProviderMsgID n | Some x \<Rightarrow> Some x)"
  "n_SentAt (set_status st p l t n) = (if st = StatusSent then Some t else n_SentAt n)"
  by (simp_all add: set_status_def Let_def)

text \<open>The row after a delivery attempt with result \<open>r\<close>; \<open>again\<close>: it will be tried again.\<close>

definition attempted_row ::
  "bool \<Rightarrow> go_error + delivery_response \<Rightarrow> notification \<Rightarrow> notification \<Rightarrow> bool"
where
  "attempted_row again r m m' \<longleftrightarrow> message_part m' = message_part m \<and>
     (case r of
        Inr resp \<Rightarrow> n_Status m' = StatusSent \<and> n_ProviderMsgID m' = Some (dr_MessageID resp) \<and>
          n_LastError m' = None \<and> n_SentAt m' \<noteq> None \<and> n_RetryCount m' = n_RetryCount m
      | Inl e \<Rightarrow> n_Status m' = (if again then StatusQueued else StatusFailed) \<and>
          n_LastError m' = Some (error_text e) \<and> n_RetryCount m' = n_RetryCount m + 1)"

text \<open>The table \<open>rs\<close> with the row of one notification replaced by \<open>m\<close>.\<close>

definition holds_row :: "notification list \<Rightarrow> notification \<Rightarrow> notification list \<Rightarrow> bool" where
  "holds_row rs m rs' \<longleftrightarrow> rs' = replace_row (n_ID m) m rs"

lemma holds_row_updated:
  assumes "holds_row rs m rs1" "rs2 = updated (\<lambda>n. n_ID n = n_ID m) f t rs1"
    "n_ID (f t m) = n_ID m"
  shows "holds_row rs ((f t m)\<lparr>n_UpdatedAt := t\<rparr>) rs2"
  using assms by (simp add: holds_row_def updated_replace)

lemma holds_row_bound:
  "holds_row rs m rs' \<Longrightarrow> \<forall>x \<in> set rs. n_RetryCount x < b \<Longrightarrow> n_RetryCount m < b \<Longrightarrow>
     \<forall>x \<in> set rs'. n_RetryCount x < b"
  by (auto simp: holds_row_def replace_row_def)

context consumer_env
begin

lemma status_step:
  assumes "calm s" "holds_row rs m (rows s)"
    "run_state (repo_UpdateStatus repo (n_ID m) st p l) s = (r, s')"
  obtains t where "calm s'" "holds_row rs ((set_status st p l t m)\<lparr>n_UpdatedAt := t\<rparr>) (rows s')"
proof -
  from calm_update [OF assms(1,3)] obtain t where "calm s'"
    and u: "rows s' = updated (\<lambda>n. n_ID n = n_ID m) (set_status st p l) t (rows s)" by auto
  with that holds_row_updated [OF assms(2) u] show thesis by simp
qed

lemma failure_rows:
  assumes "calm s" "holds_row rs m (rows s)" "n_ID n = n_ID m"
    "\<forall>x \<in> set rs. n_RetryCount x < 2147483647" "n_RetryCount m < 2147483647"
    "run_state (handleFailure con msg n e) s = (u, s')"
  shows "\<exists>m'. holds_row rs m' (rows s') \<and> attempted_row
    (is_retryable e \<and> wrap64 (n_RetryCount n + 1) < w_MaxRetries (con_workerCfg con)) (Inl e) m m'"
proof -
  let ?msg = "error_text e"
    and ?again = "is_retryable e \<and> wrap64 (n_RetryCount n + 1) < w_MaxRetries (con_workerCfg con)"
  obtain r1 s1 where i: "run_state (repo_IncrementRetry repo (n_ID n) ?msg) s = (r1, s1)" by fastforce
  from calm_increment [OF assms(1) holds_row_bound [OF assms(2,4,5)] i] assms(3) obtain t where
    c1: "calm s1" and u1: "rows s1 = updated (\<lambda>x. n_ID x = n_ID m) (bump_retry ?msg) t (rows s)"
    by auto
  define m1 where "m1 = (bump_retry ?msg t m)\<lparr>n_UpdatedAt := t\<rparr>"
  have h1: "holds_row rs m1 (rows s1)"
    unfolding m1_def by (rule holds_row_updated [OF assms(2) u1]) (simp add: bump_retry_def)
  have m1: "n_ID m1 = n_ID m" "n_RetryCount m1 = n_RetryCount m + 1" "message_part m1 = message_part m"
    by (simp_all add: m1_def bump_retry_def message_part_def)
  let ?st = "if ?again then StatusQueued else StatusFailed"
  obtain r2 s2 where u: "run_state (repo_UpdateStatus repo (n_ID m1) ?st None (Some ?msg)) s1 = (r2, s2)"
    by fastforce
  obtain t2 where h2: "holds_row rs ((set_status ?st None (Some ?msg) t2 m1)\<lparr>n_UpdatedAt := t2\<rparr>) (rows s2)"
    using status_step [OF c1 h1 u] by metis
  have "rows s' = rows s2"
  proof (cases ?again)
    case False
    obtain r3 s3 where a: "run_state (amqp_do (Nack (d_Tag msg) False)) s2 = (r3, s3)" by fastforce
    have "s' = s3" using assms(3,6) False i u a m1(1)
      by (auto simp: handleFailure_def Let_def con_parts is_retryable_def)
    then show ?thesis using keepsE [OF keeps_rows(5) a] by simp
  next
    case True
    obtain b s3 where w: "run_state (select_done_or_after (backoff con (wrap64 (n_RetryCount n + 1)))) s2 = (b, s3)"
      by fastforce
    obtain r4 s4 where a: "run_state (amqp_do (Nack (d_Tag msg) True)) s3 = (r4, s4)" by fastforce
    have "s' = s4" using assms(3,6) True i u w a m1(1)
      by (auto simp: handleFailure_def Let_def con_parts is_retryable_def)
    then show ?thesis using keepsE [OF keeps_rows(5) a] keepsE [OF keeps_rows(3) w] by simp
  qed
  with h2 m1 show ?thesis
    by (intro exI [of _ "(set_status ?st None (Some ?msg) t2 m1)\<lparr>n_UpdatedAt := t2\<rparr>"])
      (simp add: attempted_row_def)
qed

lemma wait_run:
  assumes "run_state (wait_allowed fuel (con_limiter con) ch) s = (go, s')"
  shows "broker s' = broker s \<and> rows s' = rows s \<and> calm s' = calm s \<and> outside s' = outside s"
  using assms
proof (induction fuel arbitrary: s)
  case (Suc fuel)
  obtain r s1 where a: "run_state (rl_Allow (con_limiter con) ch) s = (r, s1)" by fastforce
  then have s1: "broker s1 = broker s" "rows s1 = rows s" "calm s1 = calm s" "outside s1 = outside s"
    using keepsE [OF keeps_outside(3) a] keepsE [OF keeps_broker(5) a] keepsE [OF keeps_rows(2) a] keepsE [OF keeps_calm(2) a] by auto
  show ?case
  proof (cases "\<exists>wait. r = Inr (False, wait)")
    case False
    with Suc.prems a s1 show ?thesis by (auto split: sum.splits prod.splits if_splits)
  next
    case True
    then obtain d where r: "r = Inr (False, d)" by blast
    obtain b s2 where b: "run_state (select_done_or_after d) s1 = (b, s2)" by fastforce
    then have s2: "broker s2 = broker s" "rows s2 = rows s" "calm s2 = calm s" "outside s2 = outside s"
      using keepsE [OF keeps_outside(4) b] keepsE [OF keeps_broker_select b] keepsE [OF keeps_rows(3) b] keepsE [OF keeps_calm(3) b] s1
      by auto
    with Suc.prems a r b Suc.IH [of s2] show ?thesis by (auto split: if_splits)
  qed
qed simp

lemma failure_settles:
  assumes "run_state (handleFailure con msg n e) s = (u, s')"
  shows "settled s s' (settlement (w_MaxRetries (con_workerCfg con)) (d_Tag msg) (n_RetryCount n) (Inl e))"
proof -
  let ?msg = "error_text e"
  obtain r1 s1 where i: "run_state (repo_IncrementRetry repo (n_ID n) ?msg) s = (r1, s1)" by fastforce
  have b1: "broker s1 = broker s" using keepsE [OF keeps_broker(3) i] .
  show ?thesis
  proof (cases "is_retryable e \<and> wrap64 (n_RetryCount n + 1) < w_MaxRetries (con_workerCfg con)")
    case False
    obtain r2 s2 where u: "run_state (repo_UpdateStatus repo (n_ID n) StatusFailed None (Some ?msg)) s1 = (r2, s2)"
      by fastforce
    obtain r3 s3 where a: "run_state (amqp_do (Nack (d_Tag msg) False)) s2 = (r3, s3)" by fastforce
    have "s' = s3"
      using assms False i u a by (auto simp: handleFailure_def Let_def con_parts is_retryable_def)
    moreover have "broker s2 = broker s" using keepsE [OF keeps_broker(2) u] b1 by simp
    ultimately show ?thesis
      using settled_amqp_do [OF _ a] False by (auto simp: settlement_def)
  next
    case True
    obtain r2 s2 where u: "run_state (repo_UpdateStatus repo (n_ID n) StatusQueued None (Some ?msg)) s1 = (r2, s2)"
      by fastforce
    obtain b s3 where w: "run_state (select_done_or_after (backoff con (wrap64 (n_RetryCount n + 1)))) s2 = (b, s3)"
      by fastforce
    obtain r4 s4 where a: "run_state (amqp_do (Nack (d_Tag msg) True)) s3 = (r4, s4)" by fastforce
    have "s' = s4"
      using assms True i u w a by (auto simp: handleFailure_def Let_def con_parts is_retryable_def)
    moreover have "broker s3 = broker s"
      using keepsE [OF keeps_broker(2) u] keepsE [OF keeps_broker_select w] b1 by simp
    ultimately show ?thesis
      using settled_amqp_do [OF _ a] True by (auto simp: settlement_def)
  qed
qed

lemma deliver_run:
  assumes "run_state (deliver con msg n) s = (u, s')"
  obtains s1 r s2 where "run_state (prov_Send (con_provider con) (delivery_of n)) s1 = (r, s2)"
    "outside s1 = outside s"
    "settled s s' (settlement (w_MaxRetries (con_workerCfg con)) (d_Tag msg) (n_RetryCount n) r)"
    "\<And>rs m. calm s \<Longrightarrow> holds_row rs m (rows s) \<Longrightarrow> n_ID n = n_ID m \<Longrightarrow>
       \<forall>x \<in> set rs. n_RetryCount x < 2147483647 \<Longrightarrow> n_RetryCount m < 2147483647 \<Longrightarrow>
       \<exists>m'. holds_row rs m' (rows s') \<and>
         attempted_row (settlement (w_MaxRetries (con_workerCfg con)) (d_Tag msg) (n_RetryCount n) r = Nack (d_Tag msg) True) r m m'"
proof -
  obtain t0 s0 where t0: "run_state time_Now s = (t0, s0)" by fastforce
  obtain r s2 where p: "run_state (prov_Send (con_provider con) (delivery_of n)) s0 = (r, s2)" by fastforce
  obtain t3 s3 where t3: "run_state time_Now s2 = (t3, s3)" by fastforce
  have out: "outside s0 = outside s" using keepsE [OF keeps_outside(5) t0] .
  have b: "broker s3 = broker s"
    using keepsE [OF keeps_broker_time t0] keepsE [OF keeps_broker(4) p] keepsE [OF keeps_broker_time t3]
    by simp
  have c: "rows s3 = rows s" "calm s3 = calm s"
    using keepsE [OF keeps_rows(4) t0] keepsE [OF keeps_rows(1) p] keepsE [OF keeps_rows(4) t3]
      keepsE [OF keeps_calm(4) t0] keepsE [OF keeps_calm(1) p] keepsE [OF keeps_calm(4) t3] by auto
  show thesis
  proof (cases r)
    case (Inl e)
    then have h: "run_state (handleFailure con msg n e) s3 = (u, s')"
      using assms t0 p t3 by (simp add: deliver_def del: run_time_Now)
    have "settled s s' (settlement (w_MaxRetries (con_workerCfg con)) (d_Tag msg) (n_RetryCount n) r)"
      using failure_settles [OF h] b Inl by (simp add: settled_def broker_def)
    then show thesis
      by (rule that [OF p out]) (use failure_rows [OF _ _ _ _ _ h] c Inl in \<open>simp add: settlement_def\<close>)
  next
    case (Inr resp)
    obtain r4 s4 where u: "run_state (repo_UpdateStatus repo (n_ID n) StatusSent (Some (dr_MessageID resp)) None) s3 = (r4, s4)"
      by fastforce
    obtain r5 s5 where a: "run_state (amqp_do (Ack (d_Tag msg))) s4 = (r5, s5)" by fastforce
    have s': "s' = s5" using assms t0 p t3 u a Inr
      by (simp add: deliver_def con_parts del: run_time_Now)
    have "broker s4 = broker s" using keepsE [OF keeps_broker(2) u] b by simp
    then have "settled s s' (settlement (w_MaxRetries (con_workerCfg con)) (d_Tag msg) (n_RetryCount n) r)"
      using settled_amqp_do [OF _ a] s' Inr by (simp add: settlement_def)
    then show thesis
    proof (rule that [OF p out])
      fix rs m
      assume h: "calm s" "holds_row rs m (rows s)" "n_ID n = n_ID m"
      from h c have "calm s3" "holds_row rs m (rows s3)" by simp_all
      from status_step [OF this u [unfolded h(3)]] obtain t where
        t: "holds_row rs ((set_status StatusSent (Some (dr_MessageID resp)) None t m)\<lparr>n_UpdatedAt := t\<rparr>) (rows s4)"
        by metis
      have "rows s' = rows s4" using keepsE [OF keeps_rows(5) a] s' by simp
      with t Inr show "\<exists>m'. holds_row rs m' (rows s') \<and>
         attempted_row (settlement (w_MaxRetries (con_workerCfg con)) (d_Tag msg) (n_RetryCount n) r = Nack (d_Tag msg) True) r m m'"
        by (intro exI [of _ "(set_status StatusSent (Some (dr_MessageID resp)) None t m)\<lparr>n_UpdatedAt := t\<rparr>"])
          (simp add: attempted_row_def)
    qed
  qed
qed

lemma delivery_of_retry [simp]: "delivery_of (n\<lparr>n_RetryCount := k\<rparr>) = delivery_of n"
  by (simp add: delivery_of_def)

text \<open>
  The steps of a run that decoded the message: the state \<open>s3\<close> when the wait for the limiter
  ends, with the retry count taken over from the row and the row marked as sending.
\<close>

definition before_delivery ::
  "'a amqp_scheme \<Rightarrow> notification \<Rightarrow> notification \<Rightarrow> 'a amqp_scheme \<Rightarrow> bool"
where
  "before_delivery s n n1 s3 \<longleftrightarrow> broker s3 = broker s \<and> outside s3 = outside s \<and> n_ID n1 = n_ID n \<and>
     delivery_of n1 = delivery_of n \<and>
     (n_RetryCount n1 = n_RetryCount n \<or>
      (\<exists>m \<in> set (rows s). n_ID m = n_ID n \<and> n_RetryCount n1 = n_RetryCount m)) \<and>
     (\<forall>m. calm s \<and> distinct (map n_ID (rows s)) \<and> m \<in> set (rows s) \<and> n_ID m = n_ID n \<longrightarrow>
        calm s3 \<and> n_RetryCount n1 = n_RetryCount m \<and>
        (\<exists>t. holds_row (rows s) ((set_status StatusSending None None t m)\<lparr>n_UpdatedAt := t\<rparr>) (rows s3)))"

text \<open>Reading the row, setting it to sending and waiting come before the delivery.\<close>

lemma before_delivery_run:
  assumes g: "run_state (repo_GetByID repo (n_ID n)) s = (f, s1)"
    and n1_def: "n1 = (case f of Inr m \<Rightarrow> n\<lparr>n_RetryCount := n_RetryCount m\<rparr> | Inl e \<Rightarrow> n)"
    and u: "run_state (repo_UpdateStatus repo (n_ID n1) StatusSending None None) s1 = (ro, s2)"
    and w: "run_state (wait_allowed fuel (con_limiter con) ch) s2 = (go, s3)"
  shows "before_delivery s n n1 s3"
proof -
  have s1: "rows s1 = rows s" using keepsE [OF keeps_reads(1) g] .
  have n1: "delivery_of n1 = delivery_of n" "n_ID n1 = n_ID n"
    by (simp_all add: n1_def split: sum.split)
  have k: "n_RetryCount n1 = n_RetryCount n \<or>
      (\<exists>m \<in> set (rows s). n_ID m = n_ID n \<and> n_RetryCount n1 = n_RetryCount m)"
    using get_by_id [OF g] by (auto simp: n1_def lookup_spec_def split: sum.split)
  have b: "broker s3 = broker s" "outside s3 = outside s"
    using keepsE [OF keeps_broker(1) g] keepsE [OF keeps_broker(2) u] keepsE [OF keeps_outside(1) g]
      keepsE [OF keeps_outside(2) u] wait_run [OF w] by simp_all
  have "calm s3 \<and> n_RetryCount n1 = n_RetryCount m \<and>
        (\<exists>t. holds_row (rows s) ((set_status StatusSending None None t m)\<lparr>n_UpdatedAt := t\<rparr>) (rows s3))"
    if h: "calm s" "distinct (map n_ID (rows s))" "m \<in> set (rows s)" "n_ID m = n_ID n" for m
  proof -
    from calm_get [OF h(1) g] h(3,4) obtain m' where c1: "calm s1" and f: "f = Inr m'"
      by (metis image_eqI)
    with get_by_id [OF g] have "m' \<in> set (rows s)" "n_ID m' = n_ID m"
      using h(4) by (auto simp: lookup_spec_def)
    then have "m' = m" using distinct_map_filter_unique [OF h(2) _ h(3)] by blast
    then have "n_RetryCount n1 = n_RetryCount m" using f by (simp add: n1_def)
    moreover have "holds_row (rows s) m (rows s1)"
      using replace_row_id [OF h(2,3)] s1 by (simp add: holds_row_def)
    from status_step [OF c1 this, of StatusSending None None ro s2] u n1(2) h(4) obtain t where
      "calm s2" "holds_row (rows s) ((set_status StatusSending None None t m)\<lparr>n_UpdatedAt := t\<rparr>) (rows s2)"
      by metis
    ultimately show ?thesis using wait_run [OF w] by auto
  qed
  then show ?thesis
    unfolding before_delivery_def using b n1 k by blast
qed

lemma process_cases:
  assumes "run_state (processMessage fuel con msg ch) s = (Some u, s')"
  obtains (bad) e where "unmarshal (con_codec con) (d_Body msg) = Inl e"
      "settled s s' (Nack (d_Tag msg) False)" "rows s' = rows s"
  | (stopped) n n1 s3 where "unmarshal (con_codec con) (d_Body msg) = Inr n"
      "before_delivery s n n1 s3" "settled s s' (Nack (d_Tag msg) True)" "rows s' = rows s3"
      "outside s' = outside s"
  | (delivered) n n1 s3 where "unmarshal (con_codec con) (d_Body msg) = Inr n"
      "before_delivery s n n1 s3" "run_state (deliver con msg n1) s3 = ((), s')"
proof (cases "unmarshal (con_codec con) (d_Body msg)")
  case (Inl e)
  obtain a s1 where a: "run_state (amqp_do (Nack (d_Tag msg) False)) s = (a, s1)" by fastforce
  with assms Inl have "s' = s1" by (simp add: processMessage_def)
  with bad [OF Inl] settled_amqp_do [OF refl a] keepsE [OF keeps_rows(5) a] show thesis by simp
next
  case (Inr n)
  obtain f s1 where g: "run_state (repo_GetByID repo (n_ID n)) s = (f, s1)" by fastforce
  define n1 where "n1 = (case f of Inr m \<Rightarrow> n\<lparr>n_RetryCount := n_RetryCount m\<rparr> | Inl e \<Rightarrow> n)"
  obtain ro s2 where u: "run_state (repo_UpdateStatus repo (n_ID n1) StatusSending None None) s1 = (ro, s2)"
    by fastforce
  obtain go s3 where w: "run_state (wait_allowed fuel (con_limiter con) ch) s2 = (go, s3)" by fastforce
  have before: "before_delivery s n n1 s3" using before_delivery_run [OF g n1_def u w] .
  then have b: "broker s3 = broker s" "outside s3 = outside s" by (simp_all add: before_delivery_def)
  note step = processMessage_def Inr con_parts g n1_def [symmetric] u w
  have "go \<noteq> None" using assms by (cases go) (auto simp: step Let_def)
  then consider "go = Some False" | "go = Some True" by auto
  then show thesis
  proof cases
    case 1
    obtain a s4 where a: "run_state (amqp_do (Nack (d_Tag msg) True)) s3 = (a, s4)" by fastforce
    with assms 1 have "s' = s4" by (auto simp: step Let_def)
    with stopped [OF Inr before] settled_amqp_do [OF b(1) a] keepsE [OF keeps_rows(5) a]
      keepsE [OF keeps_outside(6) a] b(2) show thesis by simp
  next
    case 2
    with assms have "run_state (deliver con msg n1) s3 = ((), s')"
      by (auto simp: step Let_def split: prod.splits)
    with delivered [OF Inr before] show thesis by simp
  qed
qed

text \<open>Whatever fails, a processed message is settled exactly once.\<close>

lemma process_settles:
  assumes "run_state (processMessage fuel con msg ch) s = (Some u, s')"
  shows "\<exists>call. settled s s' call \<and>
    (case unmarshal (con_codec con) (d_Body msg) of
       Inl e \<Rightarrow> call = Nack (d_Tag msg) False
     | Inr n \<Rightarrow> call = Nack (d_Tag msg) True \<or>
         (\<exists>s1 r s2 k. run_state (prov_Send (con_provider con) (delivery_of n)) s1 = (r, s2) \<and>
            outside s1 = outside s \<and>
            (k = n_RetryCount n \<or> (\<exists>m \<in> set (rows s). n_ID m = n_ID n \<and> k = n_RetryCount m)) \<and>
            call = settlement (w_MaxRetries (con_workerCfg con)) (d_Tag msg) k r))"
  using assms
proof (cases rule: process_cases)
  case (delivered n n1 s3)
  obtain s5 r s6 where
    p: "run_state (prov_Send (con_provider con) (delivery_of n1)) s5 = (r, s6)" "outside s5 = outside s3"
      "settled s3 s' (settlement (w_MaxRetries (con_workerCfg con)) (d_Tag msg) (n_RetryCount n1) r)"
    by (rule deliver_run [OF delivered(3)]) (rule that; assumption)
  have b: "broker s3 = broker s" "delivery_of n1 = delivery_of n" "outside s3 = outside s" and
    k: "n_RetryCount n1 = n_RetryCount n \<or>
      (\<exists>m \<in> set (rows s). n_ID m = n_ID n \<and> n_RetryCount n1 = n_RetryCount m)"
    using delivered(2) by (auto simp: before_delivery_def)
  have st: "settled s s' (settlement (w_MaxRetries (con_workerCfg con)) (d_Tag msg) (n_RetryCount n1) r)"
    using p(3) b(1) by (simp add: settled_def broker_def)
  have out: "outside s5 = outside s" using p(2) b(3) by simp
  have send: "run_state (prov_Send (con_provider con) (delivery_of n)) s5 = (r, s6)"
    using p(1) b(2) by simp
  have "\<exists>s1 r s2 k'. run_state (prov_Send (con_provider con) (delivery_of n)) s1 = (r, s2) \<and>
      outside s1 = outside s \<and>
      (k' = n_RetryCount n \<or> (\<exists>m \<in> set (rows s). n_ID m = n_ID n \<and> k' = n_RetryCount m)) \<and>
      settlement (w_MaxRetries (con_workerCfg con)) (d_Tag msg) (n_RetryCount n1) r' =
        settlement (w_MaxRetries (con_workerCfg con)) (d_Tag msg) k' r" if "r' = r" for r'
    by (intro exI conjI, rule send, rule out, rule k) (simp add: that)
  from this [OF refl] st delivered(1) show ?thesis
    by (intro exI [of _ "settlement (w_MaxRetries (con_workerCfg con)) (d_Tag msg) (n_RetryCount n1) r"])
      simp
next
  case (bad e)
  then show ?thesis by (intro exI [of _ "Nack (d_Tag msg) False"]) simp
next
  case (stopped n n1 s3)
  then show ?thesis by (intro exI [of _ "Nack (d_Tag msg) True"]) simp
qed

text \<open>When the store works, the row of the message follows the result of the delivery.\<close>

lemma process_rows:
  assumes calm: "calm s" and ids: "distinct (map n_ID (rows s))" and m: "m \<in> set (rows s)"
    and body: "unmarshal (con_codec con) (d_Body msg) = Inr n" "n_ID m = n_ID n"
    and bound: "\<forall>x \<in> set (rows s). n_RetryCount x < 2147483647"
    and run: "run_state (processMessage fuel con msg ch) s = (Some u, s')"
  shows "\<exists>m'. rows s' = replace_row (n_ID n) m' (rows s) \<and>
    (settled s s' (Nack (d_Tag msg) True) \<and> n_Status m' = StatusSending \<and> outside s' = outside s \<and>
       n_RetryCount m' = n_RetryCount m \<and> message_part m' = message_part m \<or>
     (\<exists>s1 r s2. run_state (prov_Send (con_provider con) (delivery_of n)) s1 = (r, s2) \<and>
        outside s1 = outside s \<and>
        settled s s' (settlement (w_MaxRetries (con_workerCfg con)) (d_Tag msg) (n_RetryCount m) r) \<and>
        attempted_row (settlement (w_MaxRetries (con_workerCfg con)) (d_Tag msg) (n_RetryCount m) r = Nack (d_Tag msg) True) r m m'))"
  using run
proof (cases rule: process_cases)
  case (bad e)
  with body show ?thesis by simp
next
  case (stopped n0 n1 s3)
  with body have "n0 = n" by simp
  with stopped(2) calm ids m body(2) obtain t where
    "holds_row (rows s) ((set_status StatusSending None None t m)\<lparr>n_UpdatedAt := t\<rparr>) (rows s3)"
    by (auto simp: before_delivery_def)
  with stopped(3,4,5) body(2) show ?thesis
    by (intro exI [of _ "(set_status StatusSending None None t m)\<lparr>n_UpdatedAt := t\<rparr>"])
      (simp add: holds_row_def)
next
  case (delivered n0 n1 s3)
  with body have n0: "n0 = n" by simp
  with delivered(2) calm ids m body(2) obtain t where c3: "calm s3" "n_RetryCount n1 = n_RetryCount m"
    and h3: "holds_row (rows s) ((set_status StatusSending None None t m)\<lparr>n_UpdatedAt := t\<rparr>) (rows s3)"
    by (auto simp: before_delivery_def)
  let ?m = "(set_status StatusSending None None t m)\<lparr>n_UpdatedAt := t\<rparr>"
  have n1: "broker s3 = broker s" "n_ID n1 = n_ID n" "delivery_of n1 = delivery_of n" "outside s3 = outside s"
    using delivered(2) n0 by (auto simp: before_delivery_def)
  obtain s5 r s6 where
    p: "run_state (prov_Send (con_provider con) (delivery_of n1)) s5 = (r, s6)" "outside s5 = outside s3"
      "settled s3 s' (settlement (w_MaxRetries (con_workerCfg con)) (d_Tag msg) (n_RetryCount n1) r)"
    and rows: "\<And>rs m. calm s3 \<Longrightarrow> holds_row rs m (rows s3) \<Longrightarrow> n_ID n1 = n_ID m \<Longrightarrow>
       \<forall>x \<in> set rs. n_RetryCount x < 2147483647 \<Longrightarrow> n_RetryCount m < 2147483647 \<Longrightarrow>
       \<exists>m'. holds_row rs m' (rows s') \<and>
         attempted_row (settlement (w_MaxRetries (con_workerCfg con)) (d_Tag msg) (n_RetryCount n1) r = Nack (d_Tag msg) True) r m m'"
    by (rule deliver_run [OF delivered(3)]) (rule that; assumption)
  from rows [OF c3(1) h3 _ bound] n1(2) body(2) bound m obtain m' where
    m': "holds_row (rows s) m' (rows s')"
      "attempted_row (settlement (w_MaxRetries (con_workerCfg con)) (d_Tag msg) (n_RetryCount n1) r = Nack (d_Tag msg) True) r ?m m'"
    by auto
  have part: "message_part m' = message_part m"
    using m'(2) by (simp add: attempted_row_def)
  then have "n_ID m' = n_ID n" using body(2) by (simp add: message_part_def)
  then have "rows s' = replace_row (n_ID n) m' (rows s)" using m'(1) by (simp add: holds_row_def)
  moreover have "settled s s' (settlement (w_MaxRetries (con_workerCfg con)) (d_Tag msg) (n_RetryCount m) r)"
    using p(3) n1(1) c3(2) by (simp add: settled_def broker_def)
  moreover have "outside s5 = outside s" using p(2) n1(4) by simp
  moreover have "attempted_row (settlement (w_MaxRetries (con_workerCfg con)) (d_Tag msg) (n_RetryCount m) r = Nack (d_Tag msg) True) r m m'"
    using m'(2) c3(2) by (simp add: attempted_row_def split: sum.splits)
  moreover have "run_state (prov_Send (con_provider con) (delivery_of n)) s5 = (r, s6)"
    using p(1) n1(3) by simp
  ultimately show ?thesis by blast
qed

end

end
