(* ===== verification/Consumer_Props.thy ===== *)
theory Consumer_Props
  imports Consumer_Spec
begin

text \<open>
  The consumer of \<open>cmd/worker/main.go\<close>: PostgreSQL, the webhook and the Redis limiter. The
  interpretation of \<open>consumer_env\<close> carries the general facts over; the properties follow.
\<close>

section \<open>The worker's consumer\<close>

definition worker_consumer ::
  "webhook_lib \<Rightarrow> json_codec \<Rightarrow> (int \<Rightarrow> int \<Rightarrow> int) \<Rightarrow> config \<Rightarrow> ('a web_scheme) consumer"
where
  "worker_consumer lib codec conv c =
     \<lparr>con_repo = notificationRepo,
      con_provider = NewWebhookProvider lib (prov_WebhookURL (c_Provider c)),
      con_limiter = NewRedisRateLimiter (w_RateLimitPerSec (c_Worker c)),
      con_cfg = c_RabbitMQ c, con_workerCfg = c_Worker c, con_codec = codec, con_conv = conv\<rparr>"

lemma worker_consumer_parts [simp]:
  "con_repo (worker_consumer lib codec conv c) = notificationRepo"
  "con_provider (worker_consumer lib codec conv c) = NewWebhookProvider lib (prov_WebhookURL (c_Provider c))"
  "con_limiter (worker_consumer lib codec conv c) = NewRedisRateLimiter (w_RateLimitPerSec (c_Worker c))"
  "con_workerCfg (worker_consumer lib codec conv c) = c_Worker c"
  "con_codec (worker_consumer lib codec conv c) = codec"
  "con_conv (worker_consumer lib codec conv c) = conv"
  by (simp_all add: worker_consumer_def)

section \<open>The contracts hold\<close>

definition pg_calm :: "'a pg_scheme \<Rightarrow> bool" where
  "pg_calm s \<longleftrightarrow> pg_fault s = (\<lambda>_. None)"

lemma keeps_pg_stmt_broker [frame]:
  "keeps broker (pg_notifications_stmt f)" "keeps pg_calm (pg_notifications_stmt f)"
  by (simp_all add: keeps_def broker_def pg_calm_def run_pg_notifications_stmt Let_def
      split: option.splits prod.splits)

lemma repo_keeps_broker [frame]:
  "keeps broker (notificationRepo_GetByID i)" "keeps broker (notificationRepo_UpdateStatus i st p l)"
  "keeps broker (notificationRepo_IncrementRetry i e)"
  unfolding notificationRepo_GetByID_def notificationRepo_UpdateStatus_def
    notificationRepo_IncrementRetry_def
  by (intro frame)+

lemma keeps_Send:
  "keeps broker (webhookProvider_Send lib url q)" "keeps pg_notifications (webhookProvider_Send lib url q)"
  "keeps pg_calm (webhookProvider_Send lib url q)"
  by (auto simp: keeps_def broker_def pg_calm_def webhookProvider_Send_def read_reply_def
      split: sum.split option.split http_outcome.split)

lemma keeps_Allow:
  "keeps broker (redisRateLimiter_Allow m ch)" "keeps pg_notifications (redisRateLimiter_Allow m ch)"
  "keeps pg_calm (redisRateLimiter_Allow m ch)"
  by (auto simp: keeps_def broker_def pg_calm_def redisRateLimiter_Allow_def script_Run_def Let_def
      split: option.split prod.split sum.split)

lemma keeps_calm_prims:
  "keeps pg_calm time_Now" "keeps pg_calm (select_done_or_after d)" "keeps pg_calm (amqp_do c)"
  by (simp_all add: keeps_def pg_calm_def select_done_or_after_def amqp_do_def split: option.split)

lemma calm_GetByID:
  "pg_calm s \<Longrightarrow> run_state (notificationRepo_GetByID i) s = (r, s') \<Longrightarrow>
     pg_calm s' \<and> (i \<in> n_ID ` set (pg_notifications s) \<longrightarrow> (\<exists>m. r = Inr m))"
  by (auto simp: notificationRepo_GetByID_def run_pg_notifications_stmt pg_calm_def select_one_def
      filter_empty_conv split: list.splits)

lemma calm_UpdateStatus:
  "pg_calm s \<Longrightarrow> run_state (notificationRepo_UpdateStatus i st p l) s = (ro, s') \<Longrightarrow>
     pg_calm s' \<and> (\<exists>t. pg_notifications s' = updated (\<lambda>n. n_ID n = i) (set_status st p l) t (pg_notifications s))"
  by (auto simp: notificationRepo_UpdateStatus_def run_pg_notifications_stmt pg_calm_def update_rows_eq)

lemma calm_IncrementRetry:
  "pg_calm s \<Longrightarrow> \<forall>m \<in> set (pg_notifications s). n_RetryCount m < 2147483647 \<Longrightarrow>
     run_state (notificationRepo_IncrementRetry i e) s = (ro, s') \<Longrightarrow>
     pg_calm s' \<and> (\<exists>t. pg_notifications s' = updated (\<lambda>n. n_ID n = i) (bump_retry e) t (pg_notifications s))"
  by (auto simp: notificationRepo_IncrementRetry_def run_pg_notifications_stmt pg_calm_def
      increment_rows_def update_rows_eq Let_def split: if_splits)

text \<open>What the webhook answers depends on: the replies to come and the requests made so far.\<close>

definition web_side :: "'a web_scheme \<Rightarrow> (nat \<Rightarrow> http_outcome) \<times> (string \<times> string) list" where
  "web_side s = (web_reply s, web_requests s)"

lemma keeps_web_side:
  "keeps web_side (pg_notifications_stmt f)" "keeps web_side (gets g)" "keeps web_side time_Now"
  "keeps web_side (select_done_or_after d)" "keeps web_side (amqp_do call)" "keeps web_side (redisRateLimiter_Allow m ch)"
  by (auto simp: keeps_def web_side_def amqp_do_def run_pg_notifications_stmt select_done_or_after_def
      redisRateLimiter_Allow_def script_Run_def Let_def split: option.split prod.split sum.split)

lemma repo_keeps_web_side:
  "keeps web_side (notificationRepo_GetByID i)" "keeps web_side (notificationRepo_UpdateStatus i st p l)"
  unfolding notificationRepo_GetByID_def notificationRepo_UpdateStatus_def
  by (intro frame keeps_web_side)+

interpretation pg_consumer: consumer_env notificationRepo pg_notifications pg_calm
    "worker_consumer lib codec conv c" web_side
  for lib and codec and conv and c
proof unfold_locales
qed (erule (1) calm_GetByID calm_UpdateStatus | erule (2) calm_IncrementRetry
    | simp add: repo_keeps_broker keeps_Send keeps_Allow keeps_calm_prims keeps_time_Now
        keeps_select keeps_amqp_do keeps_web_side repo_keeps_web_side NewWebhookProvider_def NewRedisRateLimiter_def)+

section \<open>Properties\<close>


text \<open>C4. When the database works, the row of the message goes through the states of the code and
  no other row changes: sent with the provider's identifier and no error; or failed attempts
  plus one, with the error, and queued again when the message is, else failed for good; or
  left in sending when the shutdown interrupts the wait for the rate limiter. The status the
  row had before, cancelled included, plays no part.\<close>

theorem message_row:
  fixes s :: "'a web_scheme"
  assumes "pg_fault s = (\<lambda>_. None)" "store_ok (pg_notifications s)" "m \<in> set (pg_notifications s)"
    "unmarshal codec (d_Body msg) = Inr n" "n_ID m = n_ID n"
    "\<forall>x \<in> set (pg_notifications s). n_RetryCount x < 2147483647"
    "run_state (processMessage fuel (worker_consumer lib codec conv c) msg ch) s = (Some u, s')"
  shows "\<exists>m'. pg_notifications s' = replace_row (n_ID n) m' (pg_notifications s) \<and>
    (settled s s' (Nack (d_Tag msg) True) \<and> n_Status m' = StatusSending \<and>
       web_requests s' = web_requests s \<and>
       n_RetryCount m' = n_RetryCount m \<and> message_part m' = message_part m \<or>
     (\<exists>(s1 :: 'a web_scheme) r s2.
        run_state (webhookProvider_Send lib (prov_WebhookURL (c_Provider c)) (delivery_of n)) s1 = (r, s2) \<and>
        web_reply s1 = web_reply s \<and> web_requests s1 = web_requests s \<and>
        settled s s' (settlement (w_MaxRetries (c_Worker c)) (d_Tag msg) (n_RetryCount m) r) \<and>
        attempted_row (settlement (w_MaxRetries (c_Worker c)) (d_Tag msg) (n_RetryCount m) r =
          Nack (d_Tag msg) True) r m m'))"
proof -
  have "pg_calm s" "distinct (map n_ID (pg_notifications s))"
    "unmarshal (con_codec (worker_consumer lib codec conv c)) (d_Body msg) = Inr n"
    using assms by (simp_all add: pg_calm_def store_ok_def)
  from pg_consumer.process_rows [OF this(1,2) assms(3) this(3) assms(5-7)] show ?thesis
    unfolding worker_consumer_parts NewWebhookProvider_def web_side_def by auto
qed

section \<open>Waiting ends\<close>

lemma Allow_keeps_selects:
  "keeps (\<lambda>s. (rt_done s, rt_selects s)) (redisRateLimiter_Allow m ch)"
  by (auto simp: keeps_def redisRateLimiter_Allow_def script_Run_def Let_def
      split: option.split prod.split sum.split)

lemma wait_ends:
  assumes "rt_done s (rt_selects s + j)"
  shows "\<exists>b s'. run_state (wait_allowed (Suc j) (NewRedisRateLimiter m) ch) s = (Some b, s')"
  using assms
proof (induction j arbitrary: s)
  case 0
  obtain r s1 where a: "run_state (redisRateLimiter_Allow m ch) s = (r, s1)" by fastforce
  with keepsE [OF Allow_keeps_selects a] 0 show ?case
    by (auto simp: NewRedisRateLimiter_def select_done_or_after_def split: sum.split)
next
  case (Suc j)
  obtain r s1 where a: "run_state (redisRateLimiter_Allow m ch) s = (r, s1)" by fastforce
  from keepsE [OF Allow_keeps_selects a] have s1: "rt_done s1 = rt_done s" "rt_selects s1 = rt_selects s"
    by simp_all
  let ?lim = "NewRedisRateLimiter m"
    and ?again = "\<lambda>d. s1\<lparr>rt_selects := Suc (rt_selects s1), rt_sleeps := d # rt_sleeps s1\<rparr>"
  show ?case
  proof (cases "\<exists>d. r = Inr (False, d)")
    case False
    with a show ?thesis
      by (subst wait_allowed.simps(2))
        (auto simp: NewRedisRateLimiter_def simp del: wait_allowed.simps split: sum.split)
  next
    case True
    then obtain d where r: "r = Inr (False, d)" by blast
    have "run_state (wait_allowed (Suc (Suc j)) ?lim ch) s =
        (if rt_done s (rt_selects s) then (Some False, s1\<lparr>rt_selects := Suc (rt_selects s1)\<rparr>)
         else run_state (wait_allowed (Suc j) ?lim ch) (?again d))"
      using a r s1 by (subst wait_allowed.simps(2))
        (simp add: NewRedisRateLimiter_def select_done_or_after_def del: wait_allowed.simps)
    moreover have "\<exists>b s'. run_state (wait_allowed (Suc j) ?lim ch) (?again d) = (Some b, s')"
      using Suc.IH [of "?again d"] Suc.prems s1 by simp
    ultimately show ?thesis by auto
  qed
qed

definition selects :: "'a runtime_scheme \<Rightarrow> (nat \<Rightarrow> bool) \<times> nat" where
  "selects s = (rt_done s, rt_selects s)"

lemma keeps_selects:
  "keeps selects (pg_notifications_stmt f)" "keeps selects (gets g)"
  by (auto simp: keeps_def selects_def run_pg_notifications_stmt Let_def split: option.split prod.split)

lemma repo_keeps_selects:
  "keeps selects (notificationRepo_GetByID i)" "keeps selects (notificationRepo_UpdateStatus i st p l)"
  unfolding notificationRepo_GetByID_def notificationRepo_UpdateStatus_def
  by (intro frame keeps_selects)+

text \<open>C20. Processing a message always ends once the worker is told to stop: if the context is done
  at the \<open>j\<close>-th wait from now, \<open>j + 1\<close> rounds of the rate-limit loop are enough, and more
  fuel gives the same result.\<close>

theorem processing_ends:
  assumes "rt_done s (rt_selects s + j)"
  shows "\<exists>s'. \<forall>extra. run_state (processMessage (Suc j + extra) (worker_consumer lib codec conv c) msg ch) s = (Some (), s')"
proof -
  let ?con = "worker_consumer lib codec conv c"
  have "\<exists>s'. run_state (processMessage (Suc j) ?con msg ch) s = (Some (), s')"
  proof (cases "unmarshal codec (d_Body msg)")
    case (Inl e)
    then show ?thesis by (simp add: processMessage_def split: prod.split)
  next
    case (Inr n)
    obtain f s1 where g: "run_state (notificationRepo_GetByID (n_ID n)) s = (f, s1)" by fastforce
    define n1 where "n1 = (case f of Inr m \<Rightarrow> n\<lparr>n_RetryCount := n_RetryCount m\<rparr> | Inl e \<Rightarrow> n)"
    obtain ro s2 where u: "run_state (notificationRepo_UpdateStatus (n_ID n1) StatusSending None None) s1 = (ro, s2)"
      by fastforce
    have "rt_done s2 (rt_selects s2 + j)"
      using keepsE [OF repo_keeps_selects(1) g] keepsE [OF repo_keeps_selects(2) u] assms
      by (simp add: selects_def)
    from wait_ends [OF this] obtain b s3 where
      w: "run_state (wait_allowed (Suc j) (con_limiter ?con) ch) s2 = (Some b, s3)"
      unfolding worker_consumer_parts by blast
    have "run_state (processMessage (Suc j) ?con msg ch) s =
        (if b then run_state (do { deliver ?con msg n1; return (Some ()) }) s3
         else run_state (do { amqp_do (Nack (d_Tag msg) True); return (Some ()) }) s3)"
      using Inr g u w by (simp add: processMessage_def Let_def n1_def [symmetric]
          del: wait_allowed.simps split: prod.split)
    then show ?thesis by (auto split: prod.split)
  qed
  then show ?thesis using process_more by blast
qed

end
