(* ===== verification/Startup.thy ===== *)
theory Startup
  imports Health Scheduler Notification_Handler Consumer_Props
begin

text \<open>
  Start-up of the two servers, \<open>cmd/worker/main.go\<close> and \<open>cmd/api/main.go\<close>, with
  \<open>internal/telemetry/tracer.go\<close>: which services are reached in which order, when the process
  exits instead, and which calls it has deferred by the time it serves. \<open>os.Exit\<close> runs no
  deferred call.
\<close>

section \<open>The services a process reaches\<close>

text \<open>
  The calls of the start-up that go neither to RabbitMQ nor to the tables. Each is made at
  most once, so the error one returns is a function of the call. \<open>ps_log\<close> lists those that
  returned no error, latest last.
\<close>

datatype service_call =
    NewExporter string \<comment> \<open>\<open>otlptracehttp.New\<close> with its endpoint\<close>
  | NewResource string \<comment> \<open>\<open>resource.New\<close> with the name of the service\<close>
  | SetTracerProvider string
  | SetPropagator
  | ConnectDB string \<comment> \<open>\<open>sqlx.Connect\<close>\<close>
  | SetPool int int duration \<comment> \<open>open and idle connections, lifetime\<close>
  | NewRedisClient string string int
  | PingRedis

record process = api +
  ps_log :: "service_call list"
  ps_fault :: "service_call \<Rightarrow> go_error option"

definition service_do :: "service_call \<Rightarrow> ('a process_scheme, go_error option) state" where
  "service_do c = State (\<lambda>s.
     case ps_fault s c of
       Some e \<Rightarrow> (Some e, s)
     | None \<Rightarrow> (None, s\<lparr>ps_log := ps_log s @ [c]\<rparr>))"

definition service_set :: "service_call \<Rightarrow> ('a process_scheme, unit) state" where
  "service_set c = modify (\<lambda>s. s\<lparr>ps_log := ps_log s @ [c]\<rparr>)"

definition InitTracer :: "string \<Rightarrow> string \<Rightarrow> ('a process_scheme, go_error option) state" where
  "InitTracer serviceName otlpEndpoint = do {
     e1 \<leftarrow> service_do (NewExporter otlpEndpoint);
     case e1 of
       Some err \<Rightarrow> return (Some (Wrapped ''create otlp exporter'' err))
     | None \<Rightarrow> do {
         e2 \<leftarrow> service_do (NewResource serviceName);
         case e2 of
           Some err \<Rightarrow> return (Some (Wrapped ''create resource'' err))
         | None \<Rightarrow> do {
             service_set (SetTracerProvider serviceName);
             service_set SetPropagator;
             return None
           }
       }
   }"

section \<open>Start-up\<close>

text \<open>A deferred call, and the stack of them. A start-up ends with \<open>os.Exit\<close> and its code, or
  with what the process serves with and its deferred calls, latest first.\<close>

datatype deferred = ShutdownTracer | CloseDB | CloseRedis | ClosePublisher | CancelContext

text \<open>The first part of both programs: tracing, which is optional, the database and Redis.\<close>

definition open_services :: "config \<Rightarrow> ('a process_scheme, int + deferred list) state" where
  "open_services cfg = do {
     t \<leftarrow> InitTracer (ServiceName (c_Telemetry cfg)) (OTLPEndpoint (c_Telemetry cfg));
     let d0 = (case t of Some err \<Rightarrow> [] | None \<Rightarrow> [ShutdownTracer]);
     e1 \<leftarrow> service_do (ConnectDB (DSN (c_Database cfg)));
     case e1 of
       Some err \<Rightarrow> return (Inl 1)
     | None \<Rightarrow> do {
         service_set (SetPool 25 5 (5 * 60 * time_Second));
         service_set (NewRedisClient (rds_Addr (c_Redis cfg)) (rds_Password (c_Redis cfg)) (rds_DB (c_Redis cfg)));
         e2 \<leftarrow> service_do PingRedis;
         case e2 of
           Some err \<Rightarrow> return (Inl 1)
         | None \<Rightarrow> return (Inr (CloseRedis # CloseDB # d0))
       }
   }"

record 's worker_parts =
  wp_consumer :: "'s consumer"
  wp_scheduler :: "'s scheduler"
  wp_deferred :: "deferred list"

definition worker_start ::
  "webhook_lib \<Rightarrow> json_codec \<Rightarrow> (int \<Rightarrow> int \<Rightarrow> int) \<Rightarrow> config \<Rightarrow>
   ('a process_scheme, int + ('a process_scheme) worker_parts) state"
where
  "worker_start lib codec conv cfg = do {
     o1 \<leftarrow> open_services cfg;
     case o1 of
       Inl code \<Rightarrow> return (Inl code)
     | Inr ds \<Rightarrow> do {
         p \<leftarrow> NewPublisher codec (c_RabbitMQ cfg);
         case p of
           Inl err \<Rightarrow> return (Inl 1)
         | Inr pub \<Rightarrow> do {
             e1 \<leftarrow> NewConsumer (c_RabbitMQ cfg);
             case e1 of
               Some err \<Rightarrow> return (Inl 1)
             | None \<Rightarrow> do {
                 let con = worker_consumer lib codec conv cfg;
                 e2 \<leftarrow> consumer_Start con;
                 case e2 of
                   Some err \<Rightarrow> return (Inl 1)
                 | None \<Rightarrow> return (Inr
                     \<lparr>wp_consumer = con, wp_scheduler = NewScheduler notificationRepo pub,
                      wp_deferred = CancelContext # ClosePublisher # ds\<rparr>)
               }
           }
       }
   }"

record 's api_parts =
  ap_service :: "'s notification_service"
  ap_templates :: "'s template_repo"
  ap_broker_url :: string
  ap_deferred :: "deferred list"

definition api_start ::
  "json_codec \<Rightarrow> (string \<Rightarrow> bool) \<Rightarrow> ((string \<times> string) list \<Rightarrow> (string \<times> string) list) \<Rightarrow> config \<Rightarrow>
   ('a process_scheme, int + ('a process_scheme) api_parts) state"
where
  "api_start codec mail_ok order cfg = do {
     o1 \<leftarrow> open_services cfg;
     case o1 of
       Inl code \<Rightarrow> return (Inl code)
     | Inr ds \<Rightarrow> do {
         p \<leftarrow> NewPublisher codec (c_RabbitMQ cfg);
         case p of
           Inl err \<Rightarrow> return (Inl 1)
         | Inr pub \<Rightarrow> return (Inr
             \<lparr>ap_service = service_methods
                \<lparr>svc_repo = notificationRepo, svc_tmplRepo = templateRepo, svc_publisher = pub,
                 svc_mail_ok = mail_ok, svc_order = order\<rparr>,
              ap_templates = templateRepo, ap_broker_url = rmq_URL (c_RabbitMQ cfg),
              ap_deferred = ClosePublisher # ds\<rparr>)
       }
   }"

section \<open>What the start-up calls\<close>

lemma run_service_do [simp]:
  "run_state (service_do c) s =
     (case ps_fault s c of Some e \<Rightarrow> (Some e, s) | None \<Rightarrow> (None, s\<lparr>ps_log := ps_log s @ [c]\<rparr>))"
  by (simp add: service_do_def)

lemma run_service_set [simp]: "run_state (service_set c) s = ((), s\<lparr>ps_log := ps_log s @ [c]\<rparr>)"
  by (simp add: service_set_def)

lemma run_InitTracer:
  "\<exists>xs. run_final (InitTracer name endpoint) s = s\<lparr>ps_log := ps_log s @ xs\<rparr>"
  by (simp add: InitTracer_def split: option.split) (auto intro: exI [of _ "[]"])

lemma open_services_log:
  assumes "run_state (open_services cfg) s = (r, s')"
  shows "amqp_log s' = amqp_log s \<and> amqp_fault s' = amqp_fault s \<and> amqp_calls s' = amqp_calls s \<and>
    (case r of
       Inl code \<Rightarrow> code = 1
     | Inr ds \<Rightarrow> ConnectDB (DSN (c_Database cfg)) \<in> set (ps_log s') \<and> PingRedis \<in> set (ps_log s') \<and>
         (ds = [CloseRedis, CloseDB, ShutdownTracer] \<or> ds = [CloseRedis, CloseDB])) \<and>
    ((\<exists>ds. r = Inr ds) \<longleftrightarrow> ps_fault s (ConnectDB (DSN (c_Database cfg))) = None \<and> ps_fault s PingRedis = None)"
proof -
  obtain e s1 where t: "run_state (InitTracer (ServiceName (c_Telemetry cfg)) (OTLPEndpoint (c_Telemetry cfg))) s = (e, s1)"
    by fastforce
  moreover obtain xs where "s1 = s\<lparr>ps_log := ps_log s @ xs\<rparr>"
    using run_InitTracer [of "ServiceName (c_Telemetry cfg)" "OTLPEndpoint (c_Telemetry cfg)" s] t by auto
  ultimately show ?thesis
    using assms by (auto simp: open_services_def Let_def split: option.splits)
qed

definition consume_calls :: "rabbitmq_config \<Rightarrow> channel list \<Rightarrow> amqp_call list" where
  "consume_calls cfg chs = map (\<lambda>ch. Consume (queue_name cfg ch) (''worker-'' @ ch)) chs"

lemma consume_channels_log:
  "run_state (consume_channels cfg chs) s = (e, s') \<Longrightarrow>
     \<exists>k. amqp_log s' = amqp_log s @ take k (consume_calls cfg chs) \<and> (e = None \<longrightarrow> length chs \<le> k)"
proof (induction chs arbitrary: s)
  case (Cons ch chs)
  show ?case
  proof (cases "amqp_fault s (amqp_calls s)")
    case None
    let ?s1 = "s\<lparr>amqp_calls := Suc (amqp_calls s), amqp_log := amqp_log s @ [Consume (queue_name cfg ch) (''worker-'' @ ch)]\<rparr>"
    have "run_state (consume_channels cfg chs) ?s1 = (e, s')" using Cons.prems None by (simp add: amqp_do_cases)
    from Cons.IH [OF this] obtain k where "amqp_log s' = amqp_log ?s1 @ take k (consume_calls cfg chs)"
      "e = None \<longrightarrow> length chs \<le> k" by blast
    then show ?thesis by (intro exI [of _ "Suc k"]) (simp add: consume_calls_def)
  next
    case (Some err)
    with Cons.prems show ?thesis by (intro exI [of _ 0]) (auto simp: amqp_do_cases)
  qed
qed (simp add: consume_calls_def)

text \<open>The queues consumed, by the log of the calls.\<close>

definition consumes :: "amqp_call list \<Rightarrow> amqp_call list" where
  "consumes calls = filter (\<lambda>c. \<exists>q t. c = Consume q t) calls"

lemma consumes_simps [simp]:
  "consumes [] = []" "consumes (xs @ ys) = consumes xs @ consumes ys"
  "consumes [Consume q t] = [Consume q t]"
  by (simp_all add: consumes_def)

lemma consumes_none_iff: "consumes xs = [] \<longleftrightarrow> (\<forall>q t. Consume q t \<notin> set xs)"
  by (auto simp: consumes_def filter_empty_conv)

text \<open>\<open>adds_no_consumer m\<close>: every call \<open>m\<close> adds to the log is something else than consuming.\<close>

definition adds_no_consumer :: "('a amqp_scheme, 'r) state \<Rightarrow> bool" where
  "adds_no_consumer m \<longleftrightarrow> (\<forall>s. \<exists>xs. amqp_log (run_final m s) = amqp_log s @ xs \<and> consumes xs = [])"

lemma adds_no_consumer_keeps: "keeps amqp_log m \<Longrightarrow> adds_no_consumer m"
  by (simp add: adds_no_consumer_def keeps_def)

lemma adds_no_consumer_do:
  "\<forall>q t. c \<noteq> Consume q t \<Longrightarrow> adds_no_consumer (amqp_do c)"
  "\<forall>q t. c \<noteq> Consume q t \<Longrightarrow> adds_no_consumer (amqp_close c)"
  by (simp_all add: adds_no_consumer_def amqp_do_cases consumes_def split: option.split)

lemma adds_no_consumer_bind:
  assumes "adds_no_consumer m" "\<And>x. adds_no_consumer (k x)"
  shows "adds_no_consumer (State_Monad.bind m k)"
  unfolding adds_no_consumer_def
proof
  fix s
  obtain x s1 where m: "run_state m s = (x, s1)" by fastforce
  with assms(1) obtain xs where "amqp_log s1 = amqp_log s @ xs" "consumes xs = []"
    unfolding adds_no_consumer_def by (metis snd_conv)
  moreover obtain ys where "amqp_log (run_final (k x) s1) = amqp_log s1 @ ys" "consumes ys = []"
    using assms(2) unfolding adds_no_consumer_def by metis
  ultimately show "\<exists>zs. amqp_log (run_final (State_Monad.bind m k) s) = amqp_log s @ zs \<and> consumes zs = []"
    using m by (intro exI [of _ "xs @ ys"]) simp
qed

lemma adds_no_consumer_return: "adds_no_consumer (return x)"
  by (simp add: adds_no_consumer_def)

lemma adds_no_consumer_option:
  "adds_no_consumer m \<Longrightarrow> (\<And>x. adds_no_consumer (k x)) \<Longrightarrow> adds_no_consumer (case v of None \<Rightarrow> m | Some x \<Rightarrow> k x)"
  by (cases v) simp_all

lemmas no_consumer = adds_no_consumer_bind adds_no_consumer_return adds_no_consumer_option
  adds_no_consumer_do

lemma setup_no_consumer: "adds_no_consumer (rabbitPublisher_setup cfg)"
proof -
  have one: "adds_no_consumer (setup_channel cfg ch)" for ch
    unfolding setup_channel_def by (intro no_consumer allI; simp)
  have all: "adds_no_consumer (setup_channels cfg chs)" for chs
    by (induction chs) (auto intro!: no_consumer one)
  show ?thesis unfolding rabbitPublisher_setup_def by (intro no_consumer all allI; simp)
qed

lemma open_no_consumer:
  "adds_no_consumer (NewPublisher codec cfg)" "adds_no_consumer (NewConsumer cfg)"
  unfolding NewPublisher_def NewConsumer_def by (intro no_consumer setup_no_consumer allI; simp)+

lemma NewPublisher_log:
  assumes "run_state (NewPublisher codec cfg) s = (Inr p, s')"
  shows "p = rabbitPublisher codec cfg \<and>
    amqp_log s' = amqp_log s @ Dial (rmq_URL cfg) # OpenChannel # ExchangeDeclare (rmq_Exchange cfg) ''topic'' #
      topology cfg [ChannelSMS, ChannelEmail, ChannelPush]"
proof -
  obtain s2 where "run_state (rabbitPublisher_setup cfg) s2 = (None, s')" "p = rabbitPublisher codec cfg"
    "amqp_log s2 = amqp_log s @ [Dial (rmq_URL cfg), OpenChannel]"
    using assms by (auto simp: NewPublisher_def amqp_do_cases split: option.splits prod.splits)
  with run_setup [of cfg s2 s'] show ?thesis by simp
qed

lemma NewConsumer_log:
  "run_state (NewConsumer cfg) s = (None, s') \<Longrightarrow>
     amqp_log s' = amqp_log s @ [Dial (rmq_URL cfg), OpenChannel, Qos (rmq_PrefetchCount cfg)]"
  by (auto simp: NewConsumer_def amqp_do_cases split: option.splits)

lemma adds_no_consumerD:
  assumes "adds_no_consumer m" "run_state m s = (r, s')" "consumes (amqp_log s) = []"
  shows "consumes (amqp_log s') = []"
  using assms unfolding adds_no_consumer_def by (metis consumes_simps(1,2) append_Nil snd_conv)

lemma con_cfg_worker_consumer: "con_cfg (worker_consumer lib codec conv cfg) = c_RabbitMQ cfg"
  by (simp add: worker_consumer_def)

lemma keeps_ps_log [frame]:
  "keeps ps_log (amqp_do c)" "keeps ps_log (amqp_close c)"
  by (simp_all add: keeps_def amqp_do_cases split: option.split)

lemma setup_keeps_ps_log [frame]: "keeps ps_log (rabbitPublisher_setup cfg)"
proof -
  have one: "keeps ps_log (setup_channel cfg ch)" for ch
    unfolding setup_channel_def by (intro frame)
  have all: "keeps ps_log (setup_channels cfg chs)" for chs
    by (induction chs) (auto intro!: frame one)
  show ?thesis unfolding rabbitPublisher_setup_def by (intro frame all)
qed

lemma rabbit_keeps_ps_log:
  "keeps ps_log (NewPublisher codec cfg)" "keeps ps_log (NewConsumer cfg)"
  "keeps ps_log (consume_channels cfg chs)"
proof -
  show "keeps ps_log (NewPublisher codec cfg)" "keeps ps_log (NewConsumer cfg)"
    unfolding NewPublisher_def NewConsumer_def by (intro frame)+
  show "keeps ps_log (consume_channels cfg chs)"
    by (induction chs) (auto intro!: frame)
qed

section \<open>Properties\<close>

definition worker_log :: "rabbitmq_config \<Rightarrow> amqp_call list" where
  "worker_log cfg = Dial (rmq_URL cfg) # OpenChannel # ExchangeDeclare (rmq_Exchange cfg) ''topic'' #
     topology cfg [ChannelSMS, ChannelEmail, ChannelPush] @
     [Dial (rmq_URL cfg), OpenChannel, Qos (rmq_PrefetchCount cfg)]"

lemma consumes_worker_log [simp]: "consumes (worker_log cfg) = []"
  by (simp add: worker_log_def topology_def consumes_def)

lemma consumes_consume_calls [simp]: "consumes (consume_calls cfg chs) = consume_calls cfg chs"
  by (simp add: consume_calls_def consumes_def)

lemma worker_consumes_log:
  assumes p: "run_state (NewPublisher codec cfg) s = (Inr pub, s1)" and c: "run_state (NewConsumer cfg) s1 = (None, s2)"
    and st: "run_state (consume_channels cfg [ChannelSMS, ChannelEmail, ChannelPush]) s2 = (e, s')"
    and "amqp_log s = []"
  obtains k where
    "amqp_log s' = worker_log cfg @ take k (consume_calls cfg [ChannelSMS, ChannelEmail, ChannelPush])"
    "e = None \<Longrightarrow> take k (consume_calls cfg [ChannelSMS, ChannelEmail, ChannelPush]) =
       consume_calls cfg [ChannelSMS, ChannelEmail, ChannelPush]"
    "ps_log s' = ps_log s"
proof -
  obtain k where k: "amqp_log s' = amqp_log s2 @ take k (consume_calls cfg [ChannelSMS, ChannelEmail, ChannelPush])"
    "e = None \<longrightarrow> 3 \<le> k"
    using consume_channels_log [OF st] by auto
  have "ps_log s' = ps_log s"
    using keepsE [OF rabbit_keeps_ps_log(1) p] keepsE [OF rabbit_keeps_ps_log(2) c]
      keepsE [OF rabbit_keeps_ps_log(3) st] by simp
  moreover have "amqp_log s' = worker_log cfg @ take k (consume_calls cfg [ChannelSMS, ChannelEmail, ChannelPush])"
    using k(1) NewConsumer_log [OF c] NewPublisher_log [OF p] assms(4) by (simp add: worker_log_def)
  moreover have "e = None \<Longrightarrow> take k (consume_calls cfg [ChannelSMS, ChannelEmail, ChannelPush]) =
      consume_calls cfg [ChannelSMS, ChannelEmail, ChannelPush]"
    using k(2) by (simp add: consume_calls_def)
  ultimately show thesis using that by blast
qed

text \<open>C22. A worker that starts consumes the queue of every channel, and no queue is consumed, also
  by a worker that fails half way, before the database and Redis answered, the queues and
  their bindings were declared and the prefetch count was set. A failed start is the exit
  code 1; a worker that serves has deferred the calls that close what it opened, in the
  reverse order.\<close>

theorem worker_start_order:
  assumes "run_state (worker_start lib codec conv cfg) s = (r, s')" "amqp_log s = []"
  shows "(consumes (amqp_log s') \<noteq> [] \<longrightarrow>
      ConnectDB (DSN (c_Database cfg)) \<in> set (ps_log s') \<and> PingRedis \<in> set (ps_log s') \<and>
      (\<exists>k. amqp_log s' = worker_log (c_RabbitMQ cfg) @
         take k (consume_calls (c_RabbitMQ cfg) [ChannelSMS, ChannelEmail, ChannelPush]))) \<and>
    (case r of
       Inl code \<Rightarrow> code = 1
     | Inr wp \<Rightarrow> consumes (amqp_log s') = consume_calls (c_RabbitMQ cfg) [ChannelSMS, ChannelEmail, ChannelPush] \<and>
         (\<exists>tr. set tr \<subseteq> {ShutdownTracer} \<and> wp_deferred wp = [CancelContext, ClosePublisher, CloseRedis, CloseDB] @ tr))"
proof -
  let ?mq = "c_RabbitMQ cfg"
  obtain o1 s1 where o: "run_state (open_services cfg) s = (o1, s1)" by fastforce
  obtain p s2 where p: "run_state (NewPublisher codec ?mq) s1 = (p, s2)" by fastforce
  obtain e s3 where c: "run_state (NewConsumer ?mq) s2 = (e, s3)" by fastforce
  obtain e2 s4 where st: "run_state (consume_channels ?mq [ChannelSMS, ChannelEmail, ChannelPush]) s3 = (e2, s4)"
    by fastforce
  note op = open_services_log [OF o] and step = worker_start_def o p c
  have p0: "consumes (amqp_log s2) = []"
    using adds_no_consumerD [OF open_no_consumer(1) p] op assms(2) by simp
  have c0: "consumes (amqp_log s3) = []" using adds_no_consumerD [OF open_no_consumer(2) c p0] .
  consider code where "o1 = Inl code" | ds err where "o1 = Inr ds" "p = Inl err"
    | ds pub err where "o1 = Inr ds" "p = Inr pub" "e = Some err" | ds pub where "o1 = Inr ds" "p = Inr pub" "e = None"
    by (metis obj_sumE option.exhaust)
  then show ?thesis
  proof cases
    case 1
    with op assms show ?thesis by (auto simp: step)
  next
    case 2
    with p0 assms show ?thesis by (auto simp: step)
  next
    case 3
    with c0 assms show ?thesis by (auto simp: step)
  next
    case 4
    have r: "s' = s4" "r = (case e2 of Some err \<Rightarrow> Inl 1 | None \<Rightarrow> Inr
        \<lparr>wp_consumer = worker_consumer lib codec conv cfg, wp_scheduler = NewScheduler notificationRepo pub,
         wp_deferred = CancelContext # ClosePublisher # ds\<rparr>)"
      using assms(1) 4 st
      by (auto simp: step consumer_Start_def con_cfg_worker_consumer Let_def
          simp del: consume_channels.simps split: option.splits)
    obtain k where "amqp_log s4 = worker_log ?mq @ take k (consume_calls ?mq [ChannelSMS, ChannelEmail, ChannelPush])"
      "e2 = None \<Longrightarrow> take k (consume_calls ?mq [ChannelSMS, ChannelEmail, ChannelPush]) =
         consume_calls ?mq [ChannelSMS, ChannelEmail, ChannelPush]"
      "ps_log s4 = ps_log s1"
      using worker_consumes_log [OF p [unfolded 4] c [unfolded 4] st] op assms(2) by auto
    with r op 4(1) show ?thesis by (cases e2) (auto intro: exI [of _ k])
  qed
qed

text \<open>A start succeeds whenever the database, Redis and RabbitMQ answer, whatever becomes of
  tracing; and it needs the database and Redis.\<close>

theorem start_succeeds:
  assumes "amqp_fault s = (\<lambda>_. None)"
  shows "((\<exists>wp. run_result (worker_start lib codec conv cfg) s = Inr wp) \<longleftrightarrow>
      ps_fault s (ConnectDB (DSN (c_Database cfg))) = None \<and> ps_fault s PingRedis = None) \<and>
    ((\<exists>ap. run_result (api_start codec mail_ok order cfg) s = Inr ap) \<longleftrightarrow>
      ps_fault s (ConnectDB (DSN (c_Database cfg))) = None \<and> ps_fault s PingRedis = None)"
proof -
  obtain o1 s1 where o: "run_state (open_services cfg) s = (o1, s1)" by fastforce
  note op = open_services_log [OF o]
  have calm: "amqp_fault s1 = (\<lambda>_. None)" using op assms by simp
  have mq: "amqp_fault t = (\<lambda>_. None) \<Longrightarrow> run_result (NewPublisher codec mq) t = Inr (rabbitPublisher codec mq) \<and>
      amqp_fault (run_final (NewPublisher codec mq) t) = (\<lambda>_. None)" for t :: "'a process_scheme" and codec mq
    by (simp add: NewPublisher_def rabbitPublisher_setup_def setup_channel_def amqp_do_cases)
  have con: "amqp_fault t = (\<lambda>_. None) \<Longrightarrow> run_result (NewConsumer mq) t = None \<and>
      amqp_fault (run_final (NewConsumer mq) t) = (\<lambda>_. None)" for t :: "'a process_scheme" and mq
    by (simp add: NewConsumer_def amqp_do_cases)
  have st: "amqp_fault t = (\<lambda>_. None) \<Longrightarrow> run_result (consumer_Start con) t = None"
    for t :: "'a process_scheme" and con :: "('a process_scheme) consumer"
    by (simp add: consumer_Start_def amqp_do_cases)
  obtain p s2 where p: "run_state (NewPublisher codec (c_RabbitMQ cfg)) s1 = (p, s2)" by fastforce
  obtain e s3 where c: "run_state (NewConsumer (c_RabbitMQ cfg)) s2 = (e, s3)" by fastforce
  obtain e2 s4 where w: "run_state (consumer_Start (worker_consumer lib codec conv cfg)) s3 = (e2, s4)" by fastforce
  have "p = Inr (rabbitPublisher codec (c_RabbitMQ cfg))" "amqp_fault s2 = (\<lambda>_. None)"
    using mq [OF calm, of codec "c_RabbitMQ cfg"] p by simp_all
  moreover from con [OF this(2), of "c_RabbitMQ cfg"] c have "e = None" "amqp_fault s3 = (\<lambda>_. None)" by simp_all
  moreover from st [OF this(2), of "worker_consumer lib codec conv cfg"] w have "e2 = None" by simp
  ultimately show ?thesis
    using o p c w op by (cases o1) (simp_all add: worker_start_def api_start_def Let_def)
qed

section \<open>Witnesses\<close>

text \<open>Tracing is not available, and RabbitMQ stops answering at its call number \<open>n\<close>.\<close>

definition process_failing_at :: "nat \<Rightarrow> process" where
  "process_failing_at n = \<lparr>rt_now = (\<lambda>_. 1000), rt_reads = 0, rt_uuid = of_nat, rt_uuids = 0,
     rt_uuid_text = (\<lambda>u. nat_digits (unat u)), rt_done = (\<lambda>_. False), rt_selects = 0,
     rt_sleeps = [], pg_notifications = [], pg_templates = [], pg_fault = (\<lambda>_. None),
     pg_now = (\<lambda>_. 1000), pg_scan = (\<lambda>_ _. 0), pg_cut = (\<lambda>_. None), pg_rank = (\<lambda>_. 0), pg_calls = 0,
     amqp_log = [], amqp_fault = (\<lambda>k. if k = n then Some (OpaqueError ''channel/connection is not open'') else None),
     amqp_trace = (\<lambda>_. []), amqp_calls = 0,
     rd_keys = Map.empty, rd_clock = (\<lambda>_. 0), rd_fault = (\<lambda>_. None), rd_calls = 0,
     web_reply = (\<lambda>_. Response 200 ''id''), web_requests = [],
     hc_conn = False, hc_closed = (\<lambda>_. False), hc_asks = 0, hc_depth = (\<lambda>_. 0),
     ps_log = [], ps_fault = (\<lambda>c. if c = NewResource ''notify-engine'' then Some (OpaqueError ''resource'') else None)\<rparr>"

theorem worker_start_order_witness:
  "run_result (worker_start plain_webhook \<lparr>marshal = (\<lambda>n. Inr ''m''), unmarshal = (\<lambda>b. Inl b)\<rparr> (\<lambda>_ _. 0)
      (Load (\<lambda>_. []))) (process_failing_at 19) = Inl 1 \<and>
   PingRedis \<in> set (ps_log (run_final (worker_start plain_webhook \<lparr>marshal = (\<lambda>n. Inr ''m''), unmarshal = (\<lambda>b. Inl b)\<rparr>
      (\<lambda>_ _. 0) (Load (\<lambda>_. []))) (process_failing_at 19)))"
proof -
  let ?run = "run_state (worker_start plain_webhook \<lparr>marshal = (\<lambda>n. Inr ''m''), unmarshal = (\<lambda>b. Inl b)\<rparr> (\<lambda>_ _. 0)
      (Load (\<lambda>_. []))) (process_failing_at 19)"
  have *: "fst ?run = Inl 1 \<and> consumes (amqp_log (snd ?run)) \<noteq> []"
    by (simp add: worker_start_def open_services_def InitTracer_def NewPublisher_def rabbitPublisher_setup_def
        setup_channel_def NewConsumer_def consumer_Start_def worker_consumer_def amqp_do_cases
        process_failing_at_def Load_def getEnv_def consumes_def Let_def)
  have "amqp_log (process_failing_at 19) = []" by (simp add: process_failing_at_def)
  from worker_start_order [OF prod.collapse [symmetric] this] * show ?thesis by blast
qed

theorem start_succeeds_witness:
  "\<exists>ap. run_result (api_start \<lparr>marshal = (\<lambda>n. Inr ''m''), unmarshal = (\<lambda>b. Inl b)\<rparr> (\<lambda>_. True) id
     (Load (\<lambda>_. []))) ((process_failing_at 0)\<lparr>amqp_fault := (\<lambda>_. None)\<rparr>) = Inr ap"
proof -
  have "amqp_fault ((process_failing_at 0)\<lparr>amqp_fault := (\<lambda>_. None)\<rparr>) = (\<lambda>_. None)" by simp
  from start_succeeds [OF this, of plain_webhook "\<lparr>marshal = (\<lambda>n. Inr ''m''), unmarshal = (\<lambda>b. Inl b)\<rparr>" "\<lambda>_ _. 0"
      "Load (\<lambda>_. [])" "\<lambda>_. True" id]
  show ?thesis by (simp add: process_failing_at_def)
qed

end
