(* ===== verification/Service_Cases.thy ===== *)
theory Service_Cases
  imports Service_Props
begin


section \<open>Templates\<close>

lemma resolve_template_result:
  assumes "run_state (resolve_template (NewNotificationService codec cfg p order) req) s = (Inr req1, s')"
    "r_TemplateID req = Some tid"
  shows "\<exists>t \<in> set (pg_templates s). t_ID t = tid \<and> t_Channel t = r_Channel req \<and>
    r_Content req1 = render_text (r_Variables req) (t_Body t) \<and>
    r_Subject req1 = (case t_Subject t of
        None \<Rightarrow> r_Subject req
      | Some sub \<Rightarrow> Some (render_text (order (r_Variables req)) sub))"
proof -
  obtain r0 s0 where g: "run_state (templateRepo_GetByID tid) s = (r0, s0)" by fastforce
  with assms obtain t where t: "r0 = Inr t" "t_Channel t = r_Channel req"
    by (auto simp: resolve_template_def split: sum.splits if_splits)
  with assms g have "r_Content req1 = render_text (r_Variables req) (t_Body t)"
    "r_Subject req1 = (case t_Subject t of
        None \<Rightarrow> r_Subject req | Some sub \<Rightarrow> Some (render_text (order (r_Variables req)) sub))"
    by (auto simp: resolve_template_def Render_def NewNotificationService_def Let_def
        split: option.splits if_splits)
  moreover have "t \<in> set (pg_templates s)" "t_ID t = tid"
    using pg_template_store.t_get [of tid s r0 s0] g t(1) by auto
  ultimately show ?thesis using t(2) by blast
qed

text \<open>A notification created with a template has the template's rendered body as its
  content, and its rendered subject when the template has one; the template is in the table
  and is for the channel of the request.\<close>

theorem create_from_template:
  assumes "run_state (notificationService_Create (NewNotificationService codec cfg mail_ok order) req) s = (Inr n, s')"
    "r_TemplateID req = Some tid" "r_IdempotencyKey req = None"
  shows "\<exists>t \<in> set (pg_templates s). t_ID t = tid \<and> t_Channel t = n_Channel n \<and>
    n_Content n = render_text (r_Variables req) (t_Body t) \<and>
    n_Subject n = (case t_Subject t of
        None \<Rightarrow> r_Subject req
      | Some sub \<Rightarrow> Some (render_text (order (r_Variables req)) sub))"
proof -
  let ?svc = "NewNotificationService codec cfg mail_ok order"
  obtain errs s1 where v: "run_state (validate_request ?svc req) s = (errs, s1)" by fastforce
  have s1: "pg_templates s1 = pg_templates s"
    using v by (auto simp: validate_request_def split: option.splits)
  obtain res s2 where t: "run_state (resolve_template ?svc req) s1 = (res, s2)" by fastforce
  obtain req1 where req1: "res = Inr req1"
    using assms v t by (auto simp: notificationService_Create_def idempotency_check_def
        split: if_splits sum.splits)
  obtain i now where n: "n_Content n = n_Content (stamped now (new_notification i None req1)) \<and>
      n_Subject n = n_Subject (stamped now (new_notification i None req1)) \<and>
      n_Channel n = n_Channel (stamped now (new_notification i None req1))"
    using assms v t req1
    by (auto simp: notificationService_Create_def idempotency_check_def publish_new_def
        notificationRepo_Create_def run_pg_notifications_stmt insert_row_def Let_def
        split: if_splits sum.splits option.splits prod.splits)
  have "r_Channel req1 = r_Channel req"
    using t req1 assms(2) by (auto simp: resolve_template_def Let_def
        split: sum.splits if_splits prod.splits)
  with resolve_template_result [OF t [unfolded req1] assms(2)] s1 n show ?thesis by auto
qed

definition code_template :: template where
  "code_template = \<lparr>t_ID = 9, t_Name = ''code'', t_Channel = ChannelPush, t_Subject = None,
     t_Body = ''Code'', t_CreatedAt = 0, t_UpdatedAt = 0\<rparr>"

definition templated :: amqp where
  "templated = calm_rabbit []\<lparr>pg_templates := [code_template]\<rparr>"

lemma templated_simps [simp]:
  "pg_notifications templated = []" "pg_templates templated = [code_template]"
  "pg_fault templated = (\<lambda>_. None)" "amqp_fault templated = (\<lambda>_. None)"
  "pg_now templated = (\<lambda>_. 1000)"
  by (simp_all add: templated_def)

lemmas template_run = templateRepo_GetByID_def run_pg_templates_stmt select_template_def Render_def

theorem create_from_template_witness:
  "\<exists>n. run_result (notificationService_Create small_service (push_request None (Some 9))) templated = Inr n \<and>
     n_Content n = ''Code''"
proof -
  let ?c = "notificationService_Create small_service (push_request None (Some 9))"
  obtain n where n: "run_result ?c templated = Inr n"
    by (simp add: create_run template_run code_template_def)
  then have "run_state ?c templated = (Inr n, run_final ?c templated)"
    by (simp add: prod_eq_iff)
  from create_from_template [OF this [unfolded small_service_def] push_request_simps(8) push_request_simps(6)]
  show ?thesis using n by (auto simp: code_template_def)
qed

text \<open>\<open>CreateBatch\<close> does not look at templates: the same request that is stored with the
  template's text by \<open>Create\<close> is accepted in a batch and stored with its own content, here
  the empty one.\<close>

theorem batch_ignores_template:
  "map n_Content (pg_notifications (run_final (notificationService_Create small_service
      (push_request None (Some 9)\<lparr>r_Content := []\<rparr>)) templated)) = [''Code''] \<and>
   map n_Content (pg_notifications (run_final (notificationService_CreateBatch small_service
      \<lparr>b_Notifications = [push_request None (Some 9)\<lparr>r_Content := []\<rparr>]\<rparr>) templated)) = [[]]"
proof -
  let ?req = "push_request None (Some 9)\<lparr>r_Content := []\<rparr>"
  have v: "Validate (\<lambda>_. True) t ?req = []" for t
    unfolding Validate_Nil acceptable_def
    by (simp add: acceptable_recipient_def rune_count.simps)
  show ?thesis
    using v by (simp add: create_run template_run code_template_def notificationService_CreateBatch_def
        batch_existing_def notificationRepo_CreateBatch_def updated_def)
qed

section \<open>Keys in a batch\<close>

text \<open>Two items of one batch with the same new key make the whole batch fail: nothing is
  stored, although each item alone, or the two as single requests, would be accepted.\<close>

theorem batch_duplicate_key:
  "(\<exists>e. run_result (notificationService_CreateBatch small_service
      \<lparr>b_Notifications = [push_request (Some ''k'') None, push_request (Some ''k'') None]\<rparr>)
      (calm_rabbit []) = Inl e) \<and>
   pg_notifications (run_final (notificationService_CreateBatch small_service
      \<lparr>b_Notifications = [push_request (Some ''k'') None, push_request (Some ''k'') None]\<rparr>)
      (calm_rabbit [])) = [] \<and>
   (\<exists>resp. run_result (notificationService_CreateBatch small_service
      \<lparr>b_Notifications = [push_request (Some ''k'') None]\<rparr>) (calm_rabbit []) = Inr resp)"
  by (simp add: create_run notificationService_CreateBatch_def batch_existing_def
        notificationRepo_CreateBatch_def calm_rabbit_def calm_amqp_def)

section \<open>Cancelling\<close>

text \<open>Cancelling through the service answers "not found" for every failure: a notification
  that is not there, one that can no longer be cancelled, and a database that cannot be
  reached.\<close>

theorem service_cancel_result:
  "run_result (notificationService_Cancel (NewNotificationService codec cfg mail_ok order) i) s =
     (if pg_fault s (pg_calls s) = None \<and> (\<exists>n \<in> set (pg_notifications s). n_ID n = i \<and> cancellable n)
      then None else Some (NotFoundErr ''notification'' (rt_uuid_text s i)))"
  by (auto simp: notificationService_Cancel_def notificationRepo_Cancel_def run_pg_notifications_stmt
      update_rows_eq filter_empty_conv split: option.split)

section \<open>Progress without failures\<close>





end
