(* ===== verification/Handler_Spec.thy ===== *)
theory Handler_Spec
  imports Notification_Handler Notification_Query Service_Cases
begin

text \<open>
  What the notification routes do to the table and the queue, proved for any service that is
  all or nothing (the locale \<open>notification_api\<close>), and the numbers a listing reports.
\<close>

section \<open>The contract of the service\<close>





section \<open>The real service\<close>






definition plain_http :: http_lib where
  "plain_http = \<lparr>bind_create = (\<lambda>b. if b = ''ok'' then Some (push_request None None) else None),
     bind_batch = (\<lambda>_. None), bind_query = (\<lambda>q. Some (page_request 1 2)), bind_template = (\<lambda>_. None),
     uuid_Parse = (\<lambda>s. if s = ''7'' then Some 7 else None)\<rparr>"


section \<open>The numbers of a listing\<close>

lemma total_pages_exact:
  assumes "0 \<le> n" "n < 2 ^ 45" "1 \<le> k" "k \<le> 100"
  shows "total_pages n k = (n + k - 1) div k"
proof -
  have f: "float64_of_int n = n" "float64_of_int k = k" using assms by (simp_all add: float64_exact)
  have "total_pages n k = int ((nat n + nat k - 1) div nat k)"
    unfolding total_pages_def f using assms by (subst ceil_quotient_exact) auto
  also have "\<dots> = (n + k - 1) div k"
    using assms by (simp add: zdiv_int of_nat_diff nat_add_distrib [symmetric])
  finally show ?thesis .
qed

text \<open>A listing that succeeds reports the page and page k that were really used, the number
  of rows that meet the filters, and that number divided by the page size, rounded up, as the
  number of pages; floating point included, as long as there are fewer than 2 to the 45 rows.\<close>

theorem list_meta:
  assumes "bind_query lib q = Some f" "length (pg_notifications s) < 2 ^ 45"
    "run_state (handler_List lib (service_methods (NewNotificationService codec cfg mail_ok order)) q) s = (a, s')"
    "ar_Success (snd a)"
  defines "n_all \<equiv> int (length (filter (matches f) (pg_notifications s)))"
    and "ps \<equiv> l_PageSize (Normalize f)"
  shows "\<exists>ns. a = respondSuccess 200 (NotificationListResponse ns)
      (Some \<lparr>m_Page = l_Page (Normalize f), m_PageSize = ps, m_Total = n_all,
         m_TotalPages = (n_all + ps - 1) div ps\<rparr>) \<and>
    int (length ns) \<le> ps \<and> (\<forall>n \<in> set ns. n \<in> set (pg_notifications s) \<and> matches f n)"
proof -
  obtain r s1 where l: "run_state (notificationRepo_List f) s = (r, s1)" by fastforce
  with assms(1,3,4) obtain ns tot where r: "r = Inr (ns, tot)"
    and a: "a = respondSuccess 200 (NotificationListResponse ns)
      (Some \<lparr>m_Page = l_Page (Normalize f), m_PageSize = ps, m_Total = tot, m_TotalPages = total_pages tot ps\<rparr>)"
    by (cases r) (auto simp: handler_List_def service_methods_def notificationService_List_def ps_def Let_def)
  have run: "run_result (notificationRepo_List f) s = Inr (ns, tot)" using l r by simp
  have tot: "tot = n_all" using list_result(1) [OF run] by (simp add: n_all_def)
  obtain v k where ns: "ns = take (nat ps) (drop k
      (select_sorted v (\<lambda>n. - n_CreatedAt n) (matches f) (pg_notifications s)))"
    using list_result(3) [OF run] unfolding ps_def by blast
  have ps: "1 \<le> ps" "ps \<le> 100" using Normalize_bounds [of f] by (simp_all add: ps_def)
  have "n_all < 2 ^ 45"
    using le_less_trans [OF length_filter_le assms(2), of "matches f"] by (simp add: n_all_def)
  then have "total_pages tot ps = (n_all + ps - 1) div ps"
    using total_pages_exact [of n_all ps] ps unfolding tot by (simp add: n_all_def)
  moreover have "int (length ns) \<le> ps" using ns ps by simp
  moreover have "\<forall>n \<in> set ns. n \<in> set (pg_notifications s) \<and> matches f n"
    unfolding ns using select_sorted_set [of v "\<lambda>n. - n_CreatedAt n" "matches f" "pg_notifications s"]
    by (auto dest!: in_set_takeD in_set_dropD)
  ultimately show ?thesis using a tot by auto
qed

theorem list_meta_witness:
  "\<exists>ns. run_result (handler_List plain_http (service_methods small_service) ''page=1&page_size=2'')
     (calm_rabbit [sample 7 StatusSent, sample 8 StatusSent, sample 9 StatusFailed]) =
   respondSuccess 200 (NotificationListResponse ns)
     (Some \<lparr>m_Page = 1, m_PageSize = 2, m_Total = 3, m_TotalPages = 2\<rparr>)"
proof -
  let ?s = "calm_rabbit [sample 7 StatusSent, sample 8 StatusSent, sample 9 StatusFailed]"
  let ?run = "run_state (handler_List plain_http (service_methods small_service) ''page=1&page_size=2'') ?s"
  have q: "bind_query plain_http ''page=1&page_size=2'' = Some (page_request 1 2)" by (simp add: plain_http_def)
  have n: "Normalize (page_request 1 2) = page_request 1 2" by (simp add: Normalize_def page_request_def)
  have ok: "ar_Success (snd (fst ?run))"
    using numbered_list_builder [of "page_request 1 2"] n
    by (simp add: handler_List_def q service_methods_def small_service_def NewNotificationService_def
        notificationService_List_def notificationRepo_List_def run_pg_notifications_stmt list_page_def arg_at_def
        list_builder_def add_condition_def page_request_def Normalize_def wrap64_def)
  have m: "matches (page_request 1 2) = (\<lambda>_. True)"
    by (simp add: matches_def page_request_def fun_eq_iff)
  from list_meta [OF q _ prod.collapse [symmetric], of ?s plain_codec default_rabbitmq "\<lambda>_. True" "\<lambda>vs. vs"] ok n
  show ?thesis unfolding m by (auto simp: small_service_def page_request_def)
qed

end
