(* ===== verification/Template_Handler.thy ===== *)
theory Template_Handler
  imports Notification_Handler
begin

text \<open>
  \<open>internal/handler/template.go\<close>: the handlers of the template routes, directly on the
  template repository.
\<close>

section \<open>The handlers\<close>








section \<open>Properties\<close>







end
