(* ===== verification/Health_Props.thy ===== *)
theory Health_Props
  imports Health
begin

text \<open>
  What the health check reports, when it opens a connection, and that the metrics are the
  numbers of rows.
\<close>

section \<open>The health check\<close>

lemma verdict_healthy [simp]: "verdict e = ''healthy'' \<longleftrightarrow> e = None"
  by (simp add: verdict_def split: option.split)

lemma overall_all: "overall vs = (if \<forall>(k, v) \<in> set vs. v = ''healthy'' then (''healthy'', 200) else (''degraded'', 503))"
  by (induction vs rule: overall.induct) auto

text \<open>A connection is at hand: the cached one, open, or a new one.\<close>

definition connection_at_hand :: "'a api_scheme \<Rightarrow> bool" where
  "connection_at_hand s \<longleftrightarrow> hc_conn s \<and> \<not> hc_closed s (hc_asks s) \<or> amqp_fault s (amqp_calls s) = None"

text \<open>The health check answers 200 and "healthy" exactly when the database and Redis answer and a
  connection to RabbitMQ is at hand, and 503 and "degraded" otherwise, naming each service
  that failed. It dials only when there is no cached connection or the cached one is closed,
  at most once, so the cached connection is the only one it leaves open.\<close>

theorem health_check:
  assumes "run_state (Health url) s = ((code, h), s')"
  shows "(code, hr_Status h) =
      (if pg_fault s (pg_calls s) = None \<and> rd_fault s (rd_calls s) = None \<and> connection_at_hand s
       then (200, ''healthy'') else (503, ''degraded'')) \<and>
    (map_of (hr_Services h) ''postgres'' = Some ''healthy'' \<longleftrightarrow> pg_fault s (pg_calls s) = None) \<and>
    (map_of (hr_Services h) ''redis'' = Some ''healthy'' \<longleftrightarrow> rd_fault s (rd_calls s) = None) \<and>
    (map_of (hr_Services h) ''rabbitmq'' = Some ''healthy'' \<longleftrightarrow> connection_at_hand s) \<and>
    amqp_log s' = amqp_log s @
      (if (hc_conn s \<longrightarrow> hc_closed s (hc_asks s)) \<and> amqp_fault s (amqp_calls s) = None then [Dial url] else []) \<and>
    (hc_conn s' \<longleftrightarrow> hc_conn s \<or> connection_at_hand s)"
  using assms
  by (auto simp: Health_def db_Ping_def redis_Ping_def getAMQPConn_def redial_def IsClosed_def amqp_do_cases
      overall_all connection_at_hand_def Let_def split: option.splits if_splits)

definition api_world :: "notification list \<Rightarrow> api" where
  "api_world rows = web.extend (replying_web (\<lambda>_. NoResponse (OpaqueError ''eof'')))
     \<lparr>hc_conn = False, hc_closed = (\<lambda>_. False), hc_asks = 0, hc_depth = (\<lambda>_. 4)\<rparr>\<lparr>pg_notifications := rows\<rparr>"

lemma api_world_simps [simp]:
  "pg_notifications (api_world rows) = rows" "pg_fault (api_world rows) = (\<lambda>_. None)"
  "rd_fault (api_world rows) = (\<lambda>_. None)" "amqp_fault (api_world rows) = (\<lambda>_. None)"
  "hc_conn (api_world rows) = False" "amqp_log (api_world rows) = []"
  by (simp_all add: api_world_def replying_web_def web.extend_def)

theorem health_check_witness:
  "amqp_log (run_final (Health ''amqp://x'') (run_final (Health ''amqp://x'') (api_world []))) = [Dial ''amqp://x''] \<and>
   fst (run_result (Health ''amqp://x'') (api_world [])) = 200"
proof -
  let ?run = "run_state (Health ''amqp://x'') (api_world [])"
  have first: "?run = ((fst (fst ?run), snd (fst ?run)), snd ?run)" by simp
  from health_check [OF this] have h: "fst (fst ?run) = 200" "amqp_log (snd ?run) = [Dial ''amqp://x'']"
    "hc_conn (snd ?run)"
    by (auto simp: connection_at_hand_def)
  have "hc_closed (snd ?run) = (\<lambda>_. False)"
    by (simp add: Health_def db_Ping_def redis_Ping_def getAMQPConn_def redial_def amqp_do_cases
        api_world_def replying_web_def web.extend_def Let_def split: prod.split)
  with h show ?thesis
    by (auto simp: Health_def db_Ping_def redis_Ping_def getAMQPConn_def IsClosed_def Let_def split: prod.split)
qed

section \<open>The counts\<close>

text \<open>Summing the groups of a \<open>GROUP BY\<close> that meet a condition counts the rows that do.\<close>

lemma sum_groups:
  assumes "finite A" "key ` set rows \<subseteq> A"
  shows "(\<Sum>k \<in> A. if P k then int (length (filter (\<lambda>n. key n = k) rows)) else 0) =
    count_rows (\<lambda>n. P (key n)) rows"
  using assms(2)
proof (induction rows)
  case (Cons n rows)
  have "(\<Sum>k \<in> A. if P k then int (length (filter (\<lambda>n. key n = k) (n # rows))) else 0) =
      (\<Sum>k \<in> A. (if P k then int (length (filter (\<lambda>n. key n = k) rows)) else 0) +
        (if key n = k then if P k then 1 else 0 else 0))"
    by (rule sum.cong) auto
  also have "\<dots> = count_rows (\<lambda>n. P (key n)) rows + (if P (key n) then 1 else 0)"
    using Cons assms(1) by (simp add: sum.distrib sum.delta')
  finally show ?case by (simp add: count_rows_def)
qed (simp add: count_rows_def cong: if_cong)

lemma sum_group_count:
  "(\<Sum>(k, c) \<leftarrow> group_count key rows. if P k then c else 0) = count_rows (\<lambda>n. P (key n)) rows"
  using sum_groups [of "key ` set rows" key rows P]
  by (simp add: group_count_def comp_def sum_list_distinct_conv_sum_set)

text \<open>A number that each row of the counts changes by an amount of its own.\<close>

lemma fold_tally:
  fixes f :: "tally \<Rightarrow> int"
  assumes "\<And>row a. f (tally_row row a) = f a + w row"
  shows "f (fold tally_row stats a) = f a + (\<Sum>row \<leftarrow> stats. w row)"
  using assms by (induction stats arbitrary: a) (simp_all add: ac_simps)

definition count_of :: "(channel \<Rightarrow> status \<Rightarrow> bool) \<Rightarrow> notification list \<Rightarrow> int" where
  "count_of P rows = count_rows (\<lambda>n. P (n_Channel n) (n_Status n)) rows"

lemma tally_count:
  fixes f :: "tally \<Rightarrow> int"
  assumes "\<And>ch st c a. f (tally_row ((ch, st), c) a) = f a + (if P ch st then c else 0)"
    "f \<lparr>ta_ct = Map.empty, ta_cs = Map.empty, ta_cf = Map.empty, ta_sent = 0, ta_failed = 0, ta_pending = 0,
      ta_per = Map.empty\<rparr> = 0"
  shows "f (tally_all (group_count (\<lambda>n. (n_Channel n, n_Status n)) rows)) = count_of P rows"
proof -
  have "f (tally_row row a) = f a + (case row of (k, c) \<Rightarrow> if P (fst k) (snd k) then c else 0)" for row a
    using assms(1) by (auto split: prod.split)
  from fold_tally [of f, OF this] assms(2)
    sum_group_count [of "\<lambda>k. P (fst k) (snd k)" "\<lambda>n. (n_Channel n, n_Status n)" rows]
  show ?thesis by (simp add: tally_all_def count_of_def case_prod_unfold)
qed

abbreviation tally_of :: "notification list \<Rightarrow> tally" where
  "tally_of rows \<equiv> tally_all (group_count (\<lambda>n. (n_Channel n, n_Status n)) rows)"

lemma tally_totals:
  "ta_sent (tally_of rows) = count_of (\<lambda>ch st. st = StatusSent) rows"
  "ta_failed (tally_of rows) = count_of (\<lambda>ch st. st = StatusFailed) rows"
  "ta_pending (tally_of rows) = count_of (\<lambda>ch st. st = StatusPending \<or> st = StatusQueued) rows"
  by (rule tally_count; simp add: tally_row_def Let_def)+

lemma tally_maps:
  "at0 (ta_cs (tally_of rows)) k = count_of (\<lambda>ch st. ch = k \<and> st = StatusSent) rows"
  "at0 (ta_cf (tally_of rows)) k = count_of (\<lambda>ch st. ch = k \<and> st = StatusFailed) rows"
  by (rule tally_count; simp add: tally_row_def Let_def at0_def)+

lemma tally_per_channel:
  "cm_Sent (per_channel (tally_of rows) k) = count_of (\<lambda>ch st. ch = k \<and> st = StatusSent) rows"
  "cm_Failed (per_channel (tally_of rows) k) = count_of (\<lambda>ch st. ch = k \<and> st = StatusFailed) rows"
  "cm_Pending (per_channel (tally_of rows) k) = count_of (\<lambda>ch st. ch = k \<and> st = StatusPending) rows"
  "cm_Queued (per_channel (tally_of rows) k) = count_of (\<lambda>ch st. ch = k \<and> st = StatusQueued) rows"
  by (rule tally_count; simp add: tally_row_def per_channel_def Let_def)+

lemma tally_seen:
  "ta_ct (fold tally_row stats a) k \<noteq> None \<longleftrightarrow> ta_ct a k \<noteq> None \<or> k \<in> fst ` fst ` set stats"
  "ta_per (fold tally_row stats a) k \<noteq> None \<longleftrightarrow> ta_per a k \<noteq> None \<or> k \<in> fst ` fst ` set stats"
  by (induction stats arbitrary: a) (auto simp: tally_row_def Let_def image_iff split: prod.splits if_splits)

lemma tally_channels:
  "ta_ct (tally_of rows) k \<noteq> None \<longleftrightarrow> k \<in> n_Channel ` set rows"
  "ta_per (tally_of rows) k \<noteq> None \<longleftrightarrow> k \<in> n_Channel ` set rows"
  unfolding tally_all_def tally_seen by (force simp: group_count_def)+

lemma count_of_bounds: "0 \<le> count_of P rows" "count_of P rows \<le> int (length rows)"
  by (simp_all add: count_of_def count_rows_def)

lemma percent_bounds:
  assumes "0 \<le> a" "a \<le> b" "0 < b" "b < 2 ^ 53" "percent a b = (p, q)"
  shows "0 < q \<and> p \<le> 100 * q"
proof -
  obtain p0 q0 where r: "float_quotient (nat a) (nat b) = (p0, q0)" by fastforce
  from float_quotient_le [of "nat a" 1 "nat b", OF _ _ _ r] assms(1-3) have r0: "p0 \<le> q0" "0 < q0"
    by simp_all
  have "float64_of_int a = a" "float64_of_int b = b" using assms(1-4) by (simp_all add: float64_exact)
  with assms(5) r have "float_quotient (p0 * 100) q0 = (p, q)" by (simp add: percent_def)
  from float_quotient_le [of "p0 * 100" 100 q0, OF _ r0(2) _ this] r0(1) show ?thesis by simp
qed

lemma rates_bounds:
  assumes "length rows < 2 ^ 53" "part = ta_cs (tally_of rows) \<or> part = ta_cf (tally_of rows)"
  shows "(case rates (tally_of rows) part ch of
      None \<Rightarrow> count_of (\<lambda>c st. c = ch \<and> (st = StatusSent \<or> st = StatusFailed)) rows = 0
    | Some (p, q) \<Rightarrow> 0 < q \<and> p \<le> 100 * q \<and>
        0 < count_of (\<lambda>c st. c = ch \<and> (st = StatusSent \<or> st = StatusFailed)) rows)"
proof -
  let ?s = "count_of (\<lambda>c st. c = ch \<and> st = StatusSent) rows"
    and ?f = "count_of (\<lambda>c st. c = ch \<and> st = StatusFailed) rows"
    and ?b = "count_of (\<lambda>c st. c = ch \<and> (st = StatusSent \<or> st = StatusFailed)) rows"
  have sum: "?s + ?f = ?b"
    by (induction rows) (auto simp: count_of_def count_rows_def)
  have which: "at0 part ch = ?s \<or> at0 part ch = ?f" using assms(2) tally_maps by auto
  have nonneg: "0 \<le> ?s" "0 \<le> ?f" by (rule count_of_bounds)+
  have part: "0 \<le> at0 part ch" "at0 part ch \<le> ?b"
    using which nonneg sum by auto
  have "int (length rows) < 2 ^ 53" using assms(1) by simp
  with count_of_bounds(2) have "?b < 2 ^ 53" by (rule le_less_trans)
  have absent: "?b = 0" if "ta_ct (tally_of rows) ch = None"
    using tally_channels(1) [of rows ch] that by (auto simp: count_of_def count_rows_pos image_iff)
  have r: "rates (tally_of rows) part ch =
      (if ta_ct (tally_of rows) ch = None \<or> \<not> 0 < ?b then None else Some (percent (at0 part ch) ?b))"
    unfolding rates_def tally_maps sum Let_def by (cases "ta_ct (tally_of rows) ch") simp_all
  obtain p q where pq: "percent (at0 part ch) ?b = (p, q)" by fastforce
  show ?thesis
  proof (cases "ta_ct (tally_of rows) ch = None \<or> \<not> 0 < ?b")
    case True
    moreover have "0 \<le> ?b" by (rule count_of_bounds)
    ultimately have "?b = 0" using absent by linarith
    with True show ?thesis unfolding r by simp
  next
    case False
    then have "0 < ?b" by simp
    from percent_bounds [OF part this \<open>?b < 2 ^ 53\<close> pq] False show ?thesis unfolding r pq by simp
  qed
qed

lemma depths_keep:
  "keeps (\<lambda>s. (pg_fault s, pg_calls s, pg_notifications s)) (broker_depths cfg url)"
proof -
  have d: "keeps (\<lambda>s. (pg_fault s, pg_calls s, pg_notifications s)) (queue_depths cfg chs m)" for chs m
    by (induction chs arbitrary: m) (auto simp: keeps_def amqp_do_cases split: option.split prod.split)
  have g: "keeps (\<lambda>s. (pg_fault s, pg_calls s, pg_notifications s)) (getAMQPConn url)"
    by (auto simp: keeps_def getAMQPConn_def redial_def IsClosed_def amqp_do_cases split: option.split prod.split)
  have a: "keeps (\<lambda>s. (pg_fault s, pg_calls s, pg_notifications s)) (amqp_do c)"
    "keeps (\<lambda>s. (pg_fault s, pg_calls s, pg_notifications s)) (amqp_close c)" for c
    by (auto simp: keeps_def amqp_do_cases split: option.split)
  show ?thesis unfolding broker_depths_def by (intro frame d g a)
qed

text \<open>C33. The metrics fail, with 500, exactly when one of the two queries does, whatever the broker
  does. Otherwise the totals and the counters of each channel are the numbers of rows, queued
  ones counted as pending in the total, the channels are those of the table, and a rate is
  given exactly for a channel with completed deliveries and lies between 0 and 100, rounding
  included.\<close>

theorem metrics_correct:
  assumes "run_state (Metrics avg cfg url) s = ((code, r), s')" "length (pg_notifications s) < 2 ^ 53"
  shows "pg_notifications s' = pg_notifications s \<and>
    ((\<exists>m. r = Inr m) \<longleftrightarrow> pg_fault s (pg_calls s) = None \<and> pg_fault s (Suc (pg_calls s)) = None) \<and>
    (case r of
       Inl e \<Rightarrow> code = 500 \<and> ae_Code e = ErrCodeMetrics
     | Inr m \<Rightarrow> code = 200 \<and>
         mr_TotalSent m = count_of (\<lambda>ch st. st = StatusSent) (pg_notifications s) \<and>
         mr_TotalFailed m = count_of (\<lambda>ch st. st = StatusFailed) (pg_notifications s) \<and>
         mr_TotalPending m = count_of (\<lambda>ch st. st = StatusPending \<or> st = StatusQueued) (pg_notifications s) \<and>
         dom (mr_PerChannel m) = n_Channel ` set (pg_notifications s) \<and>
         (\<forall>k cm. mr_PerChannel m k = Some cm \<longrightarrow>
            cm_Sent cm = count_of (\<lambda>ch st. ch = k \<and> st = StatusSent) (pg_notifications s) \<and>
            cm_Failed cm = count_of (\<lambda>ch st. ch = k \<and> st = StatusFailed) (pg_notifications s) \<and>
            cm_Pending cm = count_of (\<lambda>ch st. ch = k \<and> st = StatusPending) (pg_notifications s) \<and>
            cm_Queued cm = count_of (\<lambda>ch st. ch = k \<and> st = StatusQueued) (pg_notifications s)) \<and>
         (\<forall>ch rate. mr_SuccessRate m ch = Some rate \<or> mr_FailureRate m ch = Some rate \<longrightarrow>
            0 < snd rate \<and> fst rate \<le> 100 * snd rate) \<and>
         (\<forall>ch. mr_SuccessRate m ch = None \<longleftrightarrow>
            count_of (\<lambda>c st. c = ch \<and> (st = StatusSent \<or> st = StatusFailed)) (pg_notifications s) = 0))"
proof -
  let ?rows = "pg_notifications s" and ?a = "tally_of (pg_notifications s)"
  let ?s1 = "s\<lparr>pg_calls := Suc (pg_calls s)\<rparr>"
  obtain depth s2 where d: "run_state (broker_depths cfg url) ?s1 = (depth, s2)" by fastforce
  have s2: "pg_fault s2 = pg_fault s" "pg_calls s2 = Suc (pg_calls s)" "pg_notifications s2 = ?rows"
    using keepsE [OF depths_keep d] by auto
  show ?thesis
  proof (cases "pg_fault s (pg_calls s) = None \<and> pg_fault s (Suc (pg_calls s)) = None")
    case False
    then show ?thesis using assms(1) d s2
      by (auto simp: Metrics_def run_pg_notifications_stmt Let_def split: option.splits)
  next
    case True
    define m where "m = \<lparr>mr_QueueDepth = depth, mr_SuccessRate = rates ?a (ta_cs ?a), mr_FailureRate = rates ?a (ta_cf ?a),
        mr_AvgLatencyMs = fold (\<lambda>(ch, x) m. m(ch \<mapsto> round_cents x)) (latency_rows avg ?rows) Map.empty,
        mr_TotalSent = ta_sent ?a, mr_TotalFailed = ta_failed ?a, mr_TotalPending = ta_pending ?a,
        mr_PerChannel = ta_per ?a\<rparr>"
    have r: "code = 200" "r = Inr m" "pg_notifications s' = ?rows"
      using assms(1) True d s2 by (auto simp: Metrics_def run_pg_notifications_stmt Let_def m_def)
    have per: "per_channel ?a k = cm" if "ta_per ?a k = Some cm" for k cm
      using that by (simp add: per_channel_def)
    have cms: "\<forall>k cm. mr_PerChannel m k = Some cm \<longrightarrow>
        cm_Sent cm = count_of (\<lambda>ch st. ch = k \<and> st = StatusSent) ?rows \<and>
        cm_Failed cm = count_of (\<lambda>ch st. ch = k \<and> st = StatusFailed) ?rows \<and>
        cm_Pending cm = count_of (\<lambda>ch st. ch = k \<and> st = StatusPending) ?rows \<and>
        cm_Queued cm = count_of (\<lambda>ch st. ch = k \<and> st = StatusQueued) ?rows"
      unfolding tally_per_channel [of ?rows, symmetric] by (simp add: m_def per)
    have chans: "dom (mr_PerChannel m) = n_Channel ` set ?rows"
      using tally_channels(2) [of ?rows] by (auto simp: m_def domIff)
    have rate: "\<forall>ch rate. mr_SuccessRate m ch = Some rate \<or> mr_FailureRate m ch = Some rate \<longrightarrow>
        0 < snd rate \<and> fst rate \<le> 100 * snd rate"
      using rates_bounds [OF assms(2)] by (fastforce simp: m_def split: option.splits prod.splits)
    have none: "\<forall>ch. mr_SuccessRate m ch = None \<longleftrightarrow>
        count_of (\<lambda>c st. c = ch \<and> (st = StatusSent \<or> st = StatusFailed)) ?rows = 0"
      using rates_bounds [OF assms(2), of "ta_cs ?a"] by (fastforce simp: m_def split: option.splits prod.splits)
    show ?thesis
      unfolding r sum.case using True r(3) cms chans rate none
      by (simp add: m_def tally_totals)
  qed
qed

theorem metrics_correct_witness:
  "\<exists>m. snd (run_result (Metrics (\<lambda>ds. (1, 1)) default_rabbitmq ''amqp://x'')
      (api_world [sample 1 StatusSent, sample 2 StatusQueued])) = Inr m \<and> mr_TotalSent m = 1 \<and> mr_TotalPending m = 1"
proof -
  let ?s = "api_world [sample 1 StatusSent, sample 2 StatusQueued]"
  let ?run = "run_state (Metrics (\<lambda>ds. (1, 1)) default_rabbitmq ''amqp://x'') ?s"
  have run: "?run = ((fst (fst ?run), snd (fst ?run)), snd ?run)" by simp
  have "length (pg_notifications ?s) < 2 ^ 53" by simp
  from metrics_correct [OF run this] obtain m where m: "snd (fst ?run) = Inr m" by auto
  with metrics_correct [OF run] show ?thesis
    by (simp add: count_of_def count_rows_def sample_def)
qed

end
