(* ===== verification/Middleware.thy ===== *)
theory Middleware
  imports Environment
begin

text \<open>
  \<open>internal/middleware/middleware.go\<close>: the correlation identifier of a request and the access
  log. \<open>rest\<close> is the rest of the chain of handlers: for \<open>CorrelationID\<close> run with the identifier
  and the headers of the response so far, for \<open>RequestLogger\<close> run to its answer, a status and
  whatever else.
\<close>

definition CorrelationIDHeader :: string where "CorrelationIDHeader = ''X-Correlation-ID''"

type_synonym headers = "string \<rightharpoonup> string"

text \<open>\<open>c.GetHeader\<close>: the empty string for a header that is not there.\<close>

definition GetHeader :: "headers \<Rightarrow> string \<Rightarrow> string" where
  "GetHeader h k = (case h k of None \<Rightarrow> [] | Some v \<Rightarrow> v)"

definition CorrelationID ::
  "headers \<Rightarrow> (string \<Rightarrow> headers \<Rightarrow> ('a runtime_scheme, 'r) state) \<Rightarrow> ('a runtime_scheme, 'r) state"
where
  "CorrelationID request rest = do {
     let cid0 = GetHeader request CorrelationIDHeader;
     cid \<leftarrow> (if cid0 = [] then do { u \<leftarrow> uuid_New; text \<leftarrow> gets rt_uuid_text; return (text u) }
              else return cid0);
     rest cid [CorrelationIDHeader \<mapsto> cid]
   }"

text \<open>The handlers run with the client's identifier when it sent one, else with a fresh one,
  and with that identifier in the response already.\<close>

lemma CorrelationID_run:
  "run_state (CorrelationID request rest) s =
     (case request CorrelationIDHeader of
        Some (c # cs) \<Rightarrow> run_state (rest (c # cs) [CorrelationIDHeader \<mapsto> c # cs]) s
      | _ \<Rightarrow> let cid = rt_uuid_text s (rt_uuid s (rt_uuids s))
             in run_state (rest cid [CorrelationIDHeader \<mapsto> cid]) (s\<lparr>rt_uuids := Suc (rt_uuids s)\<rparr>))"
  by (simp add: CorrelationID_def GetHeader_def Let_def split: option.split list.split)

section \<open>The access log\<close>

record http_request =
  rq_Method :: string
  rq_Path :: string
  rq_Headers :: headers
  rq_ClientIP :: string

record log_line =
  ll_CorrelationID :: string
  ll_Method :: string
  ll_Path :: string
  ll_Status :: int
  ll_LatencyMs :: int
  ll_ClientIP :: string

text \<open>\<open>Duration.Milliseconds\<close> rounds towards zero.\<close>

definition Milliseconds :: "duration \<Rightarrow> int" where
  "Milliseconds d = (if d < 0 then - ((- d) div 1000000) else d div 1000000)"

definition RequestLogger ::
  "(log_line \<Rightarrow> ('a runtime_scheme, unit) state) \<Rightarrow> http_request \<Rightarrow> string \<Rightarrow>
   ('a runtime_scheme, int \<times> 'r) state \<Rightarrow> ('a runtime_scheme, int \<times> 'r) state"
where
  "RequestLogger log_info request cid rest = do {
     start \<leftarrow> time_Now;
     (status, r) \<leftarrow> rest;
     stop \<leftarrow> time_Now;
     log_info \<lparr>ll_CorrelationID = cid, ll_Method = rq_Method request, ll_Path = rq_Path request,
       ll_Status = status, ll_LatencyMs = Milliseconds (stop - start), ll_ClientIP = rq_ClientIP request\<rparr>;
     return (status, r)
   }"

end
