(* ===== verification/Api_Server.thy ===== *)
theory Api_Server
  imports Startup Handler_Spec Template_Handler Health_Props Middleware
begin

text \<open>
  The HTTP side of \<open>cmd/api/main.go\<close>: the routes it registers, \<open>internal/handler/swagger.go\<close>
  among them, behind the middleware. Which registered route a request belongs to, and that
  \<open>Recovery\<close> and the tracing middleware hand on what the handlers answer, is gin's.
\<close>

section \<open>The server's outside world\<close>

record server = process +
  sv_files :: "string \<Rightarrow> string option" \<comment> \<open>\<open>os.ReadFile\<close>, \<open>None\<close> for an error\<close>
  sv_access :: "log_line list"

definition log_access :: "log_line \<Rightarrow> ('a server_scheme, unit) state" where
  "log_access l = modify (\<lambda>s. s\<lparr>sv_access := sv_access s @ [l]\<rparr>)"

section \<open>Swagger\<close>







section \<open>The routes\<close>




section \<open>What a call leaves alone\<close>

definition sent_messages :: "'a amqp_scheme \<Rightarrow> publishing list" where
  "sent_messages s = published (amqp_log s)"

text \<open>The access log, and the notifications together with the messages sent.\<close>

definition outcome_of :: "'a amqp_scheme \<Rightarrow> notification list \<times> publishing list" where
  "outcome_of s = (pg_notifications s, sent_messages s)"


lemma keeps_outcome [frame]:
  "\<forall>m. c \<noteq> Publish m \<Longrightarrow> keeps outcome_of (amqp_do c)"
  "\<forall>m. c \<noteq> Publish m \<Longrightarrow> keeps outcome_of (amqp_close c)"
  "keeps outcome_of (pg_templates_stmt g)" "keeps outcome_of pg_call" "keeps outcome_of uuid_New"
  "keeps outcome_of redis_Ping" "keeps outcome_of IsClosed" "keeps outcome_of time_Now"
  "keeps outcome_of (modify (\<lambda>s. s\<lparr>hc_conn := True\<rparr>))"
  "keeps outcome_of (log_access l)"
  by (cases c; auto simp: keeps_def outcome_of_def sent_messages_def amqp_do_cases published_append
      run_pg_templates_stmt redis_Ping_def IsClosed_def log_access_def Let_def split: option.split prod.split)+





lemma template_repo_keeps_outcome [frame]:
  "keeps outcome_of (templateRepo_Create t)" "keeps outcome_of (templateRepo_GetByID i)"
  "keeps outcome_of templateRepo_List" "keeps outcome_of (templateRepo_Delete i)"
  unfolding templateRepo_Create_def templateRepo_GetByID_def templateRepo_List_def templateRepo_Delete_def Let_def
  by (intro frame)+




section \<open>Every request\<close>



definition idle_server :: server where
  "idle_server = process.extend ((process_failing_at 0)\<lparr>amqp_fault := (\<lambda>_. None)\<rparr>) (server.fields (\<lambda>_. None) [])"


lemma idle_server_simps [simp]:
  "amqp_fault idle_server = (\<lambda>_. None)" "pg_notifications idle_server = []"
  "ps_fault idle_server = (\<lambda>c. if c = NewResource ''notify-engine'' then Some (OpaqueError ''resource'') else None)"
  by (simp_all add: idle_server_def process.defs server.defs process_failing_at_def)


end
