(* ===== verification/Api_Shutdown.thy ===== *)
theory Api_Shutdown
  imports Startup
begin

text \<open>
  The end of \<open>cmd/api/main.go\<close>: the goroutine that listens, the wait for a signal,
  \<open>http.Server.Shutdown\<close> with its ten seconds and the deferred calls, next to the requests
  being handled. \<open>Shutdown\<close> stops listening and then waits until no request is handled or the
  context is done.
\<close>

datatype api_stmt =
    ApiAwaitSignal
  | StopListening
  | DrainRequests
  | ApiDeferred deferred

definition api_main_end :: "deferred list \<Rightarrow> api_stmt list" where
  "api_main_end ds = [ApiAwaitSignal, StopListening, DrainRequests] @ map ApiDeferred (CancelContext # ds)"

record api_proc =
  ac_main :: "api_stmt list"
  ac_listening :: bool
  ac_requests :: nat \<comment> \<open>being handled\<close>
  ac_expired :: bool \<comment> \<open>ten seconds since the shutdown began\<close>
  ac_open :: "deferred set"
  ac_exit :: "int option" \<comment> \<open>\<open>os.Exit\<close>\<close>

definition api_running :: "api_proc \<Rightarrow> bool" where
  "api_running s \<longleftrightarrow> ac_main s \<noteq> [] \<and> ac_exit s = None"

fun api_effect :: "api_stmt \<Rightarrow> api_proc \<Rightarrow> api_proc" where
  "api_effect StopListening s = s\<lparr>ac_listening := False\<rparr>"
| "api_effect (ApiDeferred d) s = s\<lparr>ac_open := ac_open s - {d}\<rparr>"
| "api_effect _ s = s"

text \<open>A listener that fails is the only way to end with a code of its own.\<close>

inductive api_step :: "api_proc \<Rightarrow> api_proc \<Rightarrow> bool" where
  main: "api_running s \<Longrightarrow> ac_main s = c # cs \<Longrightarrow> c = DrainRequests \<longrightarrow> ac_requests s = 0 \<or> ac_expired s \<Longrightarrow>
    api_step s (api_effect c s\<lparr>ac_main := cs\<rparr>)"
| expire: "api_running s \<Longrightarrow> hd (ac_main s) = DrainRequests \<Longrightarrow> \<not> ac_expired s \<Longrightarrow>
    api_step s (s\<lparr>ac_expired := True\<rparr>)"
| accept: "api_running s \<Longrightarrow> ac_listening s \<Longrightarrow> api_step s (s\<lparr>ac_requests := Suc (ac_requests s)\<rparr>)"
| answer: "api_running s \<Longrightarrow> ac_requests s = Suc k \<Longrightarrow> api_step s (s\<lparr>ac_requests := k\<rparr>)"
| listen_fails: "api_running s \<Longrightarrow> ac_listening s \<Longrightarrow> api_step s (s\<lparr>ac_exit := Some 1\<rparr>)"

definition api_serving :: "deferred list \<Rightarrow> api_proc" where
  "api_serving ds = \<lparr>ac_main = api_main_end ds, ac_listening = True, ac_requests = 0, ac_expired = False,
     ac_open = set ds, ac_exit = None\<rparr>"

section \<open>The invariant\<close>

definition drained :: "api_proc \<Rightarrow> bool" where
  "drained s \<longleftrightarrow> \<not> ac_listening s \<and> (ac_requests s = 0 \<or> ac_expired s)"

definition api_proc_ok :: "deferred list \<Rightarrow> api_proc \<Rightarrow> bool" where
  "api_proc_ok ds s \<longleftrightarrow> suffix (ac_main s) (api_main_end ds) \<and>
     (StopListening \<notin> set (ac_main s) \<longrightarrow> \<not> ac_listening s) \<and>
     (DrainRequests \<notin> set (ac_main s) \<longrightarrow> drained s) \<and>
     (\<not> set ds \<subseteq> ac_open s \<longrightarrow> drained s)"

lemma api_main_cases:
  assumes "suffix (c # cs) (api_main_end ds)"
  shows "c = ApiAwaitSignal \<and> cs = StopListening # DrainRequests # map ApiDeferred (CancelContext # ds) \<or>
    c = StopListening \<and> cs = DrainRequests # map ApiDeferred (CancelContext # ds) \<or>
    c = DrainRequests \<and> cs = map ApiDeferred (CancelContext # ds) \<or>
    (\<exists>d. c = ApiDeferred d \<and> set cs \<subseteq> range ApiDeferred)"
proof -
  have "set (c # cs) \<subseteq> range ApiDeferred" if "suffix (c # cs) (map ApiDeferred (CancelContext # ds))"
    using set_mono_suffix [OF that] by auto
  then show ?thesis
    using assms unfolding api_main_end_def append_Cons append_Nil suffix_Cons [of _ ApiAwaitSignal]
      suffix_Cons [of _ StopListening] suffix_Cons [of _ DrainRequests]
    by (elim disjE) auto
qed

lemma api_step_ok: "api_step s s' \<Longrightarrow> api_proc_ok ds s \<Longrightarrow> api_proc_ok ds s'"
proof (induction rule: api_step.induct)
  case (main s c cs)
  then have sfx: "suffix (c # cs) (api_main_end ds)" by (simp add: api_proc_ok_def)
  from api_main_cases [OF sfx] suffix_ConsD [OF sfx] main show ?case
    by (elim disjE) (auto simp: api_proc_ok_def drained_def)
qed (auto simp: api_proc_ok_def drained_def)

lemma api_steps_ok: "api_step\<^sup>*\<^sup>* s s' \<Longrightarrow> api_proc_ok ds s \<Longrightarrow> api_proc_ok ds s'"
  by (induction rule: rtranclp_induct) (auto intro: api_step_ok)

lemma api_serving_ok: "api_proc_ok ds (api_serving ds)"
  by (simp add: api_proc_ok_def api_serving_def api_main_end_def)

text \<open>What the main thread still needs: its calls, and the ten seconds.\<close>

definition api_left :: "api_proc \<Rightarrow> nat" where
  "api_left s = length (ac_main s) + (if ac_expired s then 0 else 1)"

lemma api_main_step:
  assumes "api_running s"
  shows "\<exists>s'. api_step s s' \<and> Suc (api_left s') = api_left s \<and> ac_exit s' = None"
proof -
  obtain c cs where main: "ac_main s = c # cs" using assms by (cases "ac_main s") (auto simp: api_running_def)
  have keep: "ac_exit (api_effect c s) = ac_exit s" "ac_expired (api_effect c s) = ac_expired s"
    by (cases c; simp)+
  show ?thesis
  proof (cases "c = DrainRequests \<and> \<not> ac_expired s")
    case True
    with api_step.expire [OF assms] main assms show ?thesis
      by (intro exI [of _ "s\<lparr>ac_expired := True\<rparr>"]) (simp add: api_left_def api_running_def)
  next
    case False
    with api_step.main [OF assms main] keep main assms show ?thesis
      by (intro exI [of _ "api_effect c s\<lparr>ac_main := cs\<rparr>"]) (simp add: api_left_def api_running_def)
  qed
qed

lemma api_ends:
  assumes "ac_exit s = None"
  shows "\<exists>k s'. k \<le> api_left s \<and> (api_step ^^ k) s s' \<and> ac_main s' = []"
  using assms
proof (induction "api_left s" arbitrary: s)
  case 0
  then show ?case by (intro exI [of _ 0] exI [of _ s]) (simp add: api_left_def)
next
  case (Suc n)
  show ?case
  proof (cases "ac_main s = []")
    case True
    then show ?thesis by (intro exI [of _ 0] exI [of _ s]) simp
  next
    case False
    then obtain s1 where s1: "api_step s s1" "Suc (api_left s1) = api_left s" "ac_exit s1 = None"
      using api_main_step [of s] Suc.prems by (auto simp: api_running_def)
    with Suc.hyps obtain k s' where "k \<le> api_left s1" "(api_step ^^ k) s1 s'" "ac_main s' = []"
      by (metis Suc_inject)
    with s1 show ?thesis
      by (intro exI [of _ "Suc k"] exI [of _ s']) (simp add: relpowp_Suc_I2 del: relpowp.simps)
  qed
qed

text \<open>C31. The API server closes nothing while it serves: once any of its deferred calls was made, no
  request is accepted any more and none is being handled, unless the ten seconds of the
  shutdown are over; and whatever the requests do, the signal brings the process to its end
  within the calls of its main thread and those ten seconds.\<close>

theorem api_shutdown_drains:
  assumes "api_step\<^sup>*\<^sup>* (api_serving ds) s"
  shows "(\<not> set ds \<subseteq> ac_open s \<longrightarrow> \<not> ac_listening s \<and> (ac_requests s = 0 \<or> ac_expired s)) \<and>
    (ac_exit s = None \<longrightarrow> (\<exists>k s'. k \<le> Suc (length (ac_main s)) \<and> (api_step ^^ k) s s' \<and> ac_main s' = []))"
proof (intro conjI impI)
  assume "\<not> set ds \<subseteq> ac_open s"
  with api_steps_ok [OF assms api_serving_ok] show "\<not> ac_listening s" "ac_requests s = 0 \<or> ac_expired s"
    by (simp_all add: api_proc_ok_def drained_def)
next
  assume "ac_exit s = None"
  moreover have "api_left s \<le> Suc (length (ac_main s))" by (simp add: api_left_def)
  ultimately show "\<exists>k s'. k \<le> Suc (length (ac_main s)) \<and> (api_step ^^ k) s s' \<and> ac_main s' = []"
    using api_ends [of s] by (metis le_trans)
qed

theorem api_shutdown_drains_witness:
  "\<exists>k s'. k \<le> 9 \<and> (api_step ^^ k) (api_serving [ClosePublisher, CloseRedis, CloseDB, ShutdownTracer]) s' \<and> ac_main s' = []"
  using api_shutdown_drains [of "[ClosePublisher, CloseRedis, CloseDB, ShutdownTracer]", OF rtranclp.rtrancl_refl]
  by (simp add: api_serving_def api_main_end_def eval_nat_numeral)

end
