(* ===== verification/Shutdown.thy ===== *)
theory Shutdown
  imports Startup
begin

text \<open>
  The worker process from the moment it serves to its end: the main thread of
  \<open>cmd/worker/main.go\<close> from its wait for a signal on, its deferred calls included, next to the
  workers of \<open>internal/queue/consumer.go\<close> and the loop of \<open>internal/queue/scheduler.go\<close>, as
  threads whose steps interleave. What a worker does with a message is one step here (the
  theory \<open>System\<close> has its parts); this theory is about who runs and holds what when the
  services are closed. A message is the number of its delivery.
\<close>

section \<open>Threads and states\<close>

datatype main_stmt =
    AwaitSignal
  | CancelCtx
  | SchedulerStop
  | CloseDone \<comment> \<open>\<open>Consumer.Shutdown\<close>, its four calls\<close>
  | WaitGroup
  | CloseConsumerChannel
  | CloseConsumerConn
  | Deferred deferred

text \<open>\<open>Choosing\<close> and \<open>Selecting\<close> are the \<open>select\<close> statements of the loops.\<close>

datatype worker_place = Choosing | Handling nat | WorkerOut
datatype scheduler_place = Selecting | Polling | SchedulerOut

definition shutdown_code :: "main_stmt list" where
  "shutdown_code = [CloseDone, WaitGroup, CloseConsumerChannel, CloseConsumerConn]"

definition worker_main_end :: "deferred list \<Rightarrow> main_stmt list" where
  "worker_main_end ds = AwaitSignal # CancelCtx # SchedulerStop # shutdown_code @ map Deferred ds"

record proc =
  pr_main :: "main_stmt list" \<comment> \<open>what the main thread has still to do\<close>
  pr_cancelled :: bool \<comment> \<open>the context\<close>
  pr_stopped :: bool \<comment> \<open>the scheduler's \<open>done\<close> is closed\<close>
  pr_done :: bool \<comment> \<open>the consumer's \<open>done\<close> is closed\<close>
  pr_workers :: "worker_place multiset"
  pr_scheduler :: scheduler_place
  pr_up :: bool \<comment> \<open>the consumer's connection and channel\<close>
  pr_ready :: "nat multiset" \<comment> \<open>messages the broker has to deliver\<close>
  pr_fetched :: "nat multiset" \<comment> \<open>delivered to the client library, not yet taken by a worker\<close>
  pr_settled :: "nat multiset" \<comment> \<open>acknowledged or dead-lettered\<close>
  pr_arrived :: "nat multiset" \<comment> \<open>all messages the queues ever received\<close>
  pr_open :: "deferred set" \<comment> \<open>the deferred calls still to come\<close>

fun handled :: "worker_place \<Rightarrow> nat multiset" where
  "handled (Handling m) = {#m#}"
| "handled _ = {#}"

definition in_hand :: "proc \<Rightarrow> nat multiset" where
  "in_hand s = (\<Sum>w \<in># pr_workers s. handled w)"

text \<open>The channel goes down, closed or lost: the broker takes back every message that is not
  settled, and the library closes the channel of deliveries.\<close>

definition link_down :: "proc \<Rightarrow> proc" where
  "link_down s = (if pr_up s
     then s\<lparr>pr_up := False, pr_ready := pr_ready s + pr_fetched s + in_hand s, pr_fetched := {#}\<rparr> else s)"

definition deferred_effect :: "deferred \<Rightarrow> proc \<Rightarrow> proc" where
  "deferred_effect d s =
     s\<lparr>pr_cancelled := (d = CancelContext \<or> pr_cancelled s), pr_open := pr_open s - {d}\<rparr>"

fun main_effect :: "main_stmt \<Rightarrow> proc \<Rightarrow> proc" where
  "main_effect AwaitSignal s = s"
| "main_effect CancelCtx s = s\<lparr>pr_cancelled := True\<rparr>"
| "main_effect SchedulerStop s = s\<lparr>pr_stopped := True\<rparr>"
| "main_effect CloseDone s = s\<lparr>pr_done := True\<rparr>"
| "main_effect WaitGroup s = s"
| "main_effect CloseConsumerChannel s = link_down s"
| "main_effect CloseConsumerConn s = s"
| "main_effect (Deferred d) s = deferred_effect d s"

section \<open>Steps\<close>

text \<open>\<open>closing_step\<close>: the steps that bring the process to its end. \<open>serving_step\<close>: the others. A
  \<open>select\<close> with several cases ready takes any of them, so a worker may still take a message
  when the context is cancelled.\<close>

inductive closing_step :: "proc \<Rightarrow> proc \<Rightarrow> bool" where
  main: "pr_main s = c # cs \<Longrightarrow> c = WaitGroup \<longrightarrow> set_mset (pr_workers s) \<subseteq> {WorkerOut} \<Longrightarrow>
    closing_step s (main_effect c s\<lparr>pr_main := cs\<rparr>)"
| settle: "pr_workers s = add_mset (Handling m) W \<Longrightarrow>
    closing_step s (s\<lparr>pr_workers := add_mset Choosing W,
      pr_settled := (if pr_up s then add_mset m (pr_settled s) else pr_settled s)\<rparr>)"
| put_back: "pr_workers s = add_mset (Handling m) W \<Longrightarrow>
    closing_step s (s\<lparr>pr_workers := add_mset Choosing W,
      pr_ready := (if pr_up s then add_mset m (pr_ready s) else pr_ready s)\<rparr>)"
| leave: "pr_workers s = add_mset Choosing W \<Longrightarrow>
    pr_cancelled s \<or> pr_done s \<or> \<not> pr_up s \<Longrightarrow>
    closing_step s (s\<lparr>pr_workers := add_mset WorkerOut W\<rparr>)"

inductive serving_step :: "proc \<Rightarrow> proc \<Rightarrow> bool" where
  arrive: "serving_step s (s\<lparr>pr_ready := add_mset m (pr_ready s), pr_arrived := add_mset m (pr_arrived s)\<rparr>)"
| fetch: "pr_up s \<Longrightarrow> pr_ready s = add_mset m R \<Longrightarrow>
    serving_step s (s\<lparr>pr_ready := R, pr_fetched := add_mset m (pr_fetched s)\<rparr>)"
| take: "pr_workers s = add_mset Choosing W \<Longrightarrow> pr_fetched s = add_mset m F \<Longrightarrow>
    serving_step s (s\<lparr>pr_workers := add_mset (Handling m) W, pr_fetched := F\<rparr>)"
| lose_link: "pr_up s \<Longrightarrow> serving_step s (link_down s)"
| tick: "pr_scheduler s = Selecting \<Longrightarrow> serving_step s (s\<lparr>pr_scheduler := Polling\<rparr>)"
| polled: "pr_scheduler s = Polling \<Longrightarrow> serving_step s (s\<lparr>pr_scheduler := Selecting\<rparr>)"
| scheduler_leaves: "pr_scheduler s = Selecting \<Longrightarrow> pr_cancelled s \<or> pr_stopped s \<Longrightarrow>
    serving_step s (s\<lparr>pr_scheduler := SchedulerOut\<rparr>)"

definition proc_step :: "proc \<Rightarrow> proc \<Rightarrow> bool" where
  "proc_step s s' \<longleftrightarrow> closing_step s s' \<or> serving_step s s'"

text \<open>A worker process with \<open>n\<close> workers per channel that has just started. The process ends
  with its main thread: it has no step any more.\<close>

definition serving :: "nat \<Rightarrow> deferred list \<Rightarrow> nat multiset \<Rightarrow> proc" where
  "serving n ds ms = \<lparr>pr_main = worker_main_end ds, pr_cancelled = False, pr_stopped = False,
     pr_done = False, pr_workers = replicate_mset (3 * n) Choosing, pr_scheduler = Selecting, pr_up = True,
     pr_ready = ms, pr_fetched = {#}, pr_settled = {#}, pr_arrived = ms, pr_open = set ds\<rparr>"

inductive reaches :: "proc \<Rightarrow> proc \<Rightarrow> bool" for s where
  same: "reaches s s"
| step: "reaches s s1 \<Longrightarrow> pr_main s1 \<noteq> [] \<Longrightarrow> proc_step s1 s2 \<Longrightarrow> reaches s s2"

section \<open>The invariant\<close>

lemma suffix_deferred: "suffix cs (map Deferred ds) \<Longrightarrow> c \<in> set cs \<Longrightarrow> \<exists>d. c = Deferred d"
  using set_mono_suffix by fastforce

lemma main_cases:
  assumes "suffix (c # cs) (worker_main_end ds)"
  shows "c = AwaitSignal \<and> cs = CancelCtx # SchedulerStop # shutdown_code @ map Deferred ds \<or>
    c = CancelCtx \<and> cs = SchedulerStop # shutdown_code @ map Deferred ds \<or>
    c = SchedulerStop \<and> cs = shutdown_code @ map Deferred ds \<or>
    c = CloseDone \<and> cs = WaitGroup # CloseConsumerChannel # CloseConsumerConn # map Deferred ds \<or>
    c = WaitGroup \<and> cs = CloseConsumerChannel # CloseConsumerConn # map Deferred ds \<or>
    c = CloseConsumerChannel \<and> cs = CloseConsumerConn # map Deferred ds \<or>
    c = CloseConsumerConn \<and> cs = map Deferred ds \<or>
    (\<exists>d. c = Deferred d \<and> set cs \<subseteq> range Deferred)"
proof -
  have "set (c # cs) \<subseteq> range Deferred" if "suffix (c # cs) (map Deferred ds)"
    using suffix_deferred [OF that] by blast
  then show ?thesis
    using assms by (auto simp: worker_main_end_def shutdown_code_def suffix_Cons)
qed

lemma main_suffix: "suffix (c # cs) (worker_main_end ds) \<Longrightarrow> suffix cs (worker_main_end ds)"
  by (rule suffix_ConsD)

text \<open>Where the main thread is, and what is true then.\<close>

definition past :: "main_stmt \<Rightarrow> proc \<Rightarrow> bool" where
  "past c s \<longleftrightarrow> c \<notin> set (pr_main s)"

definition all_out :: "proc \<Rightarrow> bool" where
  "all_out s \<longleftrightarrow> set_mset (pr_workers s) \<subseteq> {WorkerOut}"

definition accounted :: "proc \<Rightarrow> bool" where
  "accounted s \<longleftrightarrow> pr_arrived s = pr_ready s + pr_fetched s + pr_settled s + (if pr_up s then in_hand s else {#}) \<and>
     (\<not> pr_up s \<longrightarrow> pr_fetched s = {#})"

definition proc_ok :: "deferred list \<Rightarrow> proc \<Rightarrow> bool" where
  "proc_ok ds s \<longleftrightarrow> suffix (pr_main s) (worker_main_end ds) \<and> accounted s \<and>
     (past CancelCtx s \<longrightarrow> pr_cancelled s) \<and> (past WaitGroup s \<longrightarrow> all_out s) \<and>
     (past CloseConsumerChannel s \<longrightarrow> \<not> pr_up s) \<and>
     (\<forall>d \<in> set ds. d \<notin> pr_open s \<longrightarrow> past WaitGroup s) \<and> (\<forall>d \<in> pr_open s. Deferred d \<in> set (pr_main s))"

lemma accounted_link_down: "accounted s \<Longrightarrow> accounted (link_down s)"
  by (auto simp: accounted_def link_down_def in_hand_def)

lemma link_down_simps [simp]:
  "pr_main (link_down s) = pr_main s" "pr_cancelled (link_down s) = pr_cancelled s"
  "pr_workers (link_down s) = pr_workers s" "pr_open (link_down s) = pr_open s" "\<not> pr_up (link_down s)"
  "pr_scheduler (link_down s) = pr_scheduler s" "pr_settled (link_down s) = pr_settled s"
  "pr_arrived (link_down s) = pr_arrived s"
  by (simp_all add: link_down_def)

lemma main_ok:
  assumes "proc_ok ds s" "pr_main s = c # cs" "c = WaitGroup \<longrightarrow> all_out s"
  shows "proc_ok ds (main_effect c s\<lparr>pr_main := cs\<rparr>)"
proof -
  have acc: "accounted s" and sfx: "suffix (c # cs) (worker_main_end ds)"
    using assms(1,2) by (auto simp: proc_ok_def)
  have acc': "accounted (main_effect c s\<lparr>pr_main := cs\<rparr>)"
    using acc accounted_link_down [OF acc]
    by (cases c) (auto simp: accounted_def in_hand_def deferred_effect_def)
  from main_cases [OF sfx] main_suffix [OF sfx] acc' assms show ?thesis
    by (elim disjE) (auto simp: proc_ok_def past_def all_out_def shutdown_code_def deferred_effect_def)
qed

lemma closing_ok: "closing_step s s' \<Longrightarrow> proc_ok ds s \<Longrightarrow> proc_ok ds s'"
proof (induction rule: closing_step.induct)
  case (main s c cs)
  then show ?case using main_ok [of ds s c cs] by (simp add: all_out_def)
qed (auto simp: proc_ok_def past_def all_out_def accounted_def in_hand_def)

lemma serving_ok: "serving_step s s' \<Longrightarrow> proc_ok ds s \<Longrightarrow> proc_ok ds s'"
proof (induction rule: serving_step.induct)
  case (lose_link s)
  then show ?case by (auto simp: proc_ok_def past_def all_out_def accounted_link_down)
qed (auto simp: proc_ok_def past_def all_out_def accounted_def in_hand_def)

lemma reaches_ok: "reaches s s' \<Longrightarrow> proc_ok ds s \<Longrightarrow> proc_ok ds s'"
  by (induction rule: reaches.induct) (auto simp: proc_step_def intro: closing_ok serving_ok)

lemma serving_is_ok: "proc_ok ds (serving n ds ms)"
  by (auto simp: proc_ok_def serving_def past_def worker_main_end_def shutdown_code_def accounted_def in_hand_def)

section \<open>Closing in order\<close>

text \<open>C10. A worker process closes its services only when no worker can use them any more. In every
  state it reaches, by whatever interleaving of arrivals, deliveries, lost connections, polls
  and the steps of its shutdown: once the consumer's channel was closed by the shutdown, or
  any deferred call was made, every worker has returned; and at every moment each message the
  queues received is either waiting at the broker, or settled, or, while the connection is
  up, delivered to exactly one place of the process.\<close>

theorem shutdown_waits:
  assumes "reaches (serving n ds ms) s"
  shows "(CloseConsumerChannel \<notin> set (pr_main s) \<or> \<not> set ds \<subseteq> pr_open s \<longrightarrow> set_mset (pr_workers s) \<subseteq> {WorkerOut}) \<and>
    pr_arrived s = pr_ready s + pr_settled s + (if pr_up s then pr_fetched s + in_hand s else {#})"
proof -
  have ok: "proc_ok ds s" using reaches_ok [OF assms serving_is_ok] .
  have "past CloseConsumerChannel s \<longrightarrow> past WaitGroup s"
    using ok by (auto simp: proc_ok_def past_def worker_main_end_def shutdown_code_def suffix_Cons dest: suffix_deferred)
  with ok show ?thesis by (auto simp: proc_ok_def accounted_def all_out_def subset_iff ac_simps past_def [of CloseConsumerChannel])
qed

section \<open>Coming to an end\<close>

text \<open>What is left to do: a message in hand and a worker that has not returned are one step each.\<close>

fun work_left :: "worker_place \<Rightarrow> nat" where
  "work_left (Handling m) = 2"
| "work_left Choosing = 1"
| "work_left WorkerOut = 0"

definition remaining :: "proc \<Rightarrow> nat" where
  "remaining s = length (pr_main s) + (\<Sum>w \<in># pr_workers s. work_left w)"

lemma main_effect_keeps [simp]:
  "pr_workers (main_effect c s) = pr_workers s" "pr_main (main_effect c s) = pr_main s"
  by (cases c; simp add: deferred_effect_def)+

lemma closing_decreases: "closing_step s s' \<Longrightarrow> Suc (remaining s') = remaining s"
  by (induction rule: closing_step.induct) (auto simp: remaining_def)

lemma closing_enabled:
  assumes "proc_ok ds s" "pr_main s = c # cs"
  shows "\<exists>s'. closing_step s s'"
proof (cases "c = WaitGroup \<longrightarrow> set_mset (pr_workers s) \<subseteq> {WorkerOut}")
  case True
  with closing_step.main [OF assms(2)] show ?thesis by blast
next
  case False
  then obtain w W where w: "pr_workers s = add_mset w W" "w \<noteq> WorkerOut"
    by (auto simp: subset_iff dest!: multi_member_split)
  have "pr_cancelled s"
    using assms False main_cases [of c cs ds] by (auto simp: proc_ok_def past_def)
  with w show ?thesis by (cases w) (auto intro: closing_step.intros)
qed

lemma reaches_trans: "reaches s1 s2 \<Longrightarrow> reaches s s1 \<Longrightarrow> reaches s s2"
  by (induction rule: reaches.induct) (auto intro: reaches.step)

lemma closing_main:
  "closing_step s s1 \<Longrightarrow> pr_scheduler s1 = pr_scheduler s \<and> (pr_main s1 = pr_main s \<or> (\<exists>c. pr_main s = c # pr_main s1))"
proof (induction rule: closing_step.induct)
  case (main s c cs)
  then show ?case by (cases c) (auto simp: deferred_effect_def)
qed auto

lemma runs_to:
  assumes "proc_ok ds s" "suffix cs (pr_main s)"
  shows "\<exists>k s'. k \<le> remaining s \<and> (closing_step ^^ k) s s' \<and> reaches s s' \<and> pr_main s' = cs \<and>
    pr_scheduler s' = pr_scheduler s"
  using assms
proof (induction "remaining s" arbitrary: s)
  case 0
  then have "pr_main s = cs" by (simp add: remaining_def)
  then show ?case by (intro exI [of _ 0] exI [of _ s]) (simp add: reaches.same)
next
  case (Suc r)
  show ?case
  proof (cases "pr_main s = cs")
    case True
    then show ?thesis by (intro exI [of _ 0] exI [of _ s]) (simp add: reaches.same)
  next
    case False
    then obtain c rest where main: "pr_main s = c # rest" "suffix cs rest"
      using Suc.prems(2) by (cases "pr_main s") (auto simp: suffix_Cons)
    from closing_enabled [OF Suc.prems(1) main(1)] obtain s1 where s1: "closing_step s s1" by blast
    have one: "reaches s s1"
      using reaches.step [OF reaches.same [of s], of s1] s1 main(1) by (simp add: proc_step_def)
    have "r = remaining s1" using closing_decreases [OF s1] Suc.hyps(2) by simp
    moreover have "suffix cs (pr_main s1)" using closing_main [OF s1] main Suc.prems(2) by auto
    ultimately obtain k s' where k: "k \<le> remaining s1" "(closing_step ^^ k) s1 s'" "reaches s1 s'" "pr_main s' = cs"
      "pr_scheduler s' = pr_scheduler s1"
      using Suc.hyps(1) [OF _ closing_ok [OF s1 Suc.prems(1)]] by blast
    then show ?thesis
      using s1 Suc.hyps(2) \<open>r = remaining s1\<close> reaches_trans [OF k(3) one] closing_main [OF s1]
      by (intro exI [of _ "Suc k"] exI [of _ s']) (simp add: relpowp_Suc_I2 del: relpowp.simps)
  qed
qed

text \<open>C21. The shutdown cannot get stuck: from every state the process reaches, when the signal comes,
  finitely many steps of the main thread and the workers, at most two for each message in hand,
  one for each waiting worker and one for each remaining call, bring it to its end. Every such
  step brings the end closer, so only a \<open>select\<close> that prefers new messages to the end of the
  context for ever could prevent it.\<close>

theorem shutdown_completes:
  assumes "reaches (serving n ds ms) s"
  shows "(\<exists>k s'. k \<le> remaining s \<and> (closing_step ^^ k) s s' \<and> pr_main s' = []) \<and>
    (\<forall>s'. closing_step s s' \<longrightarrow> remaining s' < remaining s)"
  using runs_to [OF reaches_ok [OF assms serving_is_ok] suffix_bot.bot_least] closing_decreases
  by (metis less_Suc_eq)

section \<open>A lost connection\<close>



section \<open>The scheduler is not waited for\<close>

text \<open>Nothing waits for the scheduler: whenever a poll is running while the worker serves, the
  shutdown can go on past any of the deferred calls with the same poll still running, past the
  closing of the publisher and of the database it uses included.\<close>

theorem scheduler_not_waited:
  assumes "reaches (serving n (ds1 @ ds2) ms) s" "pr_scheduler s = Polling"
    "pr_main s = worker_main_end (ds1 @ ds2)" "set ds1 \<inter> set ds2 = {}"
  shows "\<exists>s'. reaches (serving n (ds1 @ ds2) ms) s' \<and> pr_scheduler s' = Polling \<and>
    pr_main s' = map Deferred ds2 \<and> set ds1 \<inter> pr_open s' = {}"
proof -
  note ok = reaches_ok [OF assms(1) serving_is_ok]
  have "suffix (map Deferred ds2) (pr_main s)"
    unfolding assms(3) worker_main_end_def shutdown_code_def by (auto simp: suffix_def)
  from runs_to [OF ok this] obtain s' where s': "reaches s s'" "pr_main s' = map Deferred ds2"
    "pr_scheduler s' = pr_scheduler s" by blast
  have "\<forall>d \<in> pr_open s'. d \<in> set ds2"
    using reaches_ok [OF s'(1) ok] s'(2) by (auto simp: proc_ok_def)
  with s' assms(2,4) reaches_trans [OF s'(1) assms(1)] show ?thesis by auto
qed

section \<open>Witnesses\<close>

definition default_deferred :: "deferred list" where
  "default_deferred = [CancelContext, ClosePublisher, CloseRedis, CloseDB, ShutdownTracer]"

theorem shutdown_waits_witness:
  "\<exists>s. reaches (serving 5 default_deferred {#7, 8#}) s \<and> pr_main s = [] \<and> set_mset (pr_workers s) \<subseteq> {WorkerOut}"
proof -
  from runs_to [OF serving_is_ok suffix_bot.bot_least] obtain s where
    "reaches (serving 5 default_deferred {#7, 8#}) s" "pr_main s = []" by blast
  with shutdown_waits [OF this(1)] show ?thesis by auto
qed

theorem shutdown_completes_witness:
  "\<exists>k s'. k \<le> 27 \<and> (closing_step ^^ k) (serving 5 default_deferred {#7, 8#}) s' \<and> pr_main s' = []"
proof -
  have "remaining (serving 5 default_deferred {#7, 8#}) = 27"
    by (simp add: remaining_def serving_def worker_main_end_def shutdown_code_def default_deferred_def)
  with shutdown_completes [OF reaches.same, of 5 default_deferred "{#7, 8#}"] show ?thesis by simp
qed

lemma serving_tick:
  "reaches (serving n ds ms) ((serving n ds ms)\<lparr>pr_scheduler := Polling\<rparr>)"
  "reaches (serving n ds ms) (link_down (serving n ds ms))"
proof -
  let ?s = "serving n ds ms"
  have "pr_main ?s \<noteq> []" "pr_scheduler ?s = Selecting" "pr_up ?s"
    by (simp_all add: serving_def worker_main_end_def)
  moreover from this have "serving_step ?s (?s\<lparr>pr_scheduler := Polling\<rparr>)" "serving_step ?s (link_down ?s)"
    by (blast intro: serving_step.intros)+
  ultimately show "reaches ?s (?s\<lparr>pr_scheduler := Polling\<rparr>)" "reaches ?s (link_down ?s)"
    by (auto intro: reaches.step [OF reaches.same] simp: proc_step_def)
qed


theorem scheduler_not_waited_witness:
  "\<exists>s. reaches (serving 5 default_deferred {#}) s \<and> pr_scheduler s = Polling \<and> pr_main s = [Deferred ShutdownTracer] \<and>
     ClosePublisher \<notin> pr_open s \<and> CloseDB \<notin> pr_open s"
proof -
  have ds: "default_deferred = [CancelContext, ClosePublisher, CloseRedis, CloseDB] @ [ShutdownTracer]"
    by (simp add: default_deferred_def)
  have "pr_scheduler ((serving 5 default_deferred {#})\<lparr>pr_scheduler := Polling\<rparr>) = Polling"
    "pr_main ((serving 5 default_deferred {#})\<lparr>pr_scheduler := Polling\<rparr>) = worker_main_end default_deferred"
    by (simp_all add: serving_def)
  from scheduler_not_waited [OF serving_tick(1) [of 5 default_deferred "{#}", unfolded ds] this [unfolded ds]]
  show ?thesis unfolding ds by auto
qed

end
