(* ===== verification/Consumer_Runs.thy ===== *)
theory Consumer_Runs
  imports Consumer_Props
begin

text \<open>
  Concrete runs of the worker's consumer with the settings of an empty environment: the
  witnesses of its properties, the retry schedule it really follows, and the delivery of a
  cancelled notification.
\<close>

section \<open>The worker with default settings\<close>

definition default_config :: config where
  "default_config = Load (\<lambda>_. [])"

lemma default_config_simps [simp]:
  "w_MaxRetries (c_Worker default_config) = 3"
  "w_RetryBaseDelay (c_Worker default_config) = 5000000000"
  "w_RateLimitPerSec (c_Worker default_config) = 100"
  by (simp_all add: default_config_def Load_def getEnvInt_eq getEnvDuration_def)

text \<open>A codec that knows one message, and the message.\<close>

definition one_message :: "uuid \<Rightarrow> json_codec" where
  "one_message i = \<lparr>marshal = (\<lambda>n. Inr ''m''),
     unmarshal = (\<lambda>b. if b = ''m'' then Inr (sample i StatusPending) else Inl ''invalid character'')\<rparr>"

definition the_delivery :: amqp_delivery where
  "the_delivery = \<lparr>d_Tag = 1, d_Body = ''m''\<rparr>"

lemma one_message_simps [simp]:
  "unmarshal (one_message i) (d_Body the_delivery) = Inr (sample i StatusPending)"
  "d_Tag the_delivery = 1"
  by (simp_all add: one_message_def the_delivery_def)

definition default_consumer :: "uuid \<Rightarrow> ('a web_scheme) consumer" where
  "default_consumer i = worker_consumer plain_webhook (one_message i) (\<lambda>_ _. - (2 ^ 63)) default_config"

definition world :: "(nat \<Rightarrow> http_outcome) \<Rightarrow> notification list \<Rightarrow> web" where
  "world reply rows = (replying_web reply)\<lparr>pg_notifications := rows\<rparr>"

lemma world_simps [simp]:
  "pg_notifications (world reply rows) = rows" "pg_fault (world reply rows) = (\<lambda>_. None)"
  "amqp_log (world reply rows) = []" "amqp_fault (world reply rows) = (\<lambda>_. None)"
  "amqp_calls (world reply rows) = 0" "web_reply (world reply rows) = reply"
  "web_requests (world reply rows) = []" "rt_done (world reply rows) = (\<lambda>_. False)"
  "rt_selects (world reply rows) = 0" "rt_sleeps (world reply rows) = []"
  "pg_now (world reply rows) k = 1000" "pg_calls (world reply rows) = 0"
  "rt_now (world reply rows) k = 1000" "rt_reads (world reply rows) = 0"
  "rd_keys (world reply rows) = Map.empty" "rd_clock (world reply rows) k = 0"
  "rd_fault (world reply rows) = (\<lambda>_. None)" "rd_calls (world reply rows) = 0"
  by (simp_all add: world_def replying_web_def)

lemma sample_simps [simp]:
  "n_ID (sample i st) = i" "n_Status (sample i st) = st" "n_RetryCount (sample i st) = 0"
  "n_Subject (sample i st) = None" "n_IdempotencyKey (sample i st) = None"
  "n_ProviderMsgID (sample i st) = None" "n_Channel (sample i st) = ChannelPush"
  "n_Content (sample i st) = ''hi''" "n_Recipient (sample i st) = ''token''"
  by (simp_all add: sample_def zero_notification_def)

lemma store_ok_one: "store_ok [sample i st]"
  by (simp add: store_ok_def key_list_def map_filter_simps)

text \<open>Running one message of the default consumer.\<close>

lemmas consume_run = processMessage_def deliver_def handleFailure_def default_consumer_def
  NewWebhookProvider_def webhookProvider_Send_def read_reply_def plain_webhook_def delivery_of_def
  NewRedisRateLimiter_def redisRateLimiter_Allow_def script_Run_def script_def redis_INCR_def
  redis_PEXPIRE_def live_def Let_def run_pg_notifications_stmt notificationRepo_GetByID_def
  notificationRepo_UpdateStatus_def notificationRepo_IncrementRetry_def increment_rows_def
  select_one_def update_rows_eq updated_def bump_retry_def set_status_def amqp_do_cases
  select_done_or_after_def notificationRepo_def retryable_status_def

lemma accepted_run:
  "run_state (processMessage 1 (default_consumer 7) the_delivery ''push'')
     (world (\<lambda>_. Response 200 ''id'') [sample 7 st]) =
   (Some (), run_final (processMessage 1 (default_consumer 7) the_delivery ''push'')
     (world (\<lambda>_. Response 200 ''id'') [sample 7 st]))"
  by (simp add: consume_run prod_eq_iff)

section \<open>Witnesses\<close>


theorem message_row_witness:
  "\<exists>m. pg_notifications (run_final (processMessage 1 (default_consumer 7) the_delivery ''push'')
     (world (\<lambda>_. Response 200 ''id'') [sample 7 StatusCancelled])) = [m] \<and>
     n_Status m \<noteq> StatusCancelled"
proof -
  let ?s = "world (\<lambda>_. Response 200 ''id'') [sample 7 StatusCancelled]"
  have "pg_fault ?s = (\<lambda>_. None)" "store_ok (pg_notifications ?s)"
    "sample 7 StatusCancelled \<in> set (pg_notifications ?s)"
    "\<forall>x \<in> set (pg_notifications ?s). n_RetryCount x < 2147483647"
    by (simp_all add: store_ok_one)
  from message_row [OF this(1-3) _ _ this(4) accepted_run [of StatusCancelled, unfolded default_consumer_def]]
  show ?thesis
    by (auto simp: replace_row_def default_consumer_def attempted_row_def
        split: sum.splits if_splits) (metis sum.exhaust)
qed

theorem processing_ends_witness:
  "\<exists>s'. run_state (processMessage 3 (default_consumer 7) the_delivery ''push'')
     ((world (\<lambda>_. Response 500 ''down'') [sample 7 StatusQueued])\<lparr>rt_done := (\<lambda>k. k = 2)\<rparr>) = (Some (), s')"
proof -
  let ?s = "(world (\<lambda>_. Response 500 ''down'') [sample 7 StatusQueued])\<lparr>rt_done := (\<lambda>k. k = 2)\<rparr>"
  have "rt_done ?s (rt_selects ?s + 2)" by simp
  from processing_ends [OF this, of plain_webhook "one_message 7" "\<lambda>_ _. - (2 ^ 63)" default_config
      the_delivery "''push''"] obtain s' where
    "\<forall>extra. run_state (processMessage (Suc 2 + extra) (default_consumer 7) the_delivery ''push'') ?s = (Some (), s')"
    unfolding default_consumer_def by blast
  from this [rule_format, of 0] show ?thesis by (auto simp: numeral_3_eq_3)
qed

section \<open>The schedule of the retries\<close>

text \<open>The broker hands a message that was put back to a worker again.\<close>

fun redeliver :: "nat \<Rightarrow> nat \<Rightarrow> ('a amqp_scheme) consumer \<Rightarrow> amqp_delivery \<Rightarrow> string \<Rightarrow> ('a amqp_scheme, unit) state" where
  "redeliver 0 fuel con msg ch = return ()"
| "redeliver (Suc k) fuel con msg ch = do { processMessage fuel con msg ch; redeliver k fuel con msg ch }"

text \<open>With the default settings a message whose deliveries all fail with status 500 is tried
  three times in all, with waits of 5 and 10 seconds in between, and then dead-lettered: the
  third of the documented retries, after 20 seconds, never happens.\<close>

theorem default_retry_schedule:
  "let s = run_final (redeliver 3 1 (default_consumer 7) the_delivery ''push'')
             (world (\<lambda>_. Response 500 ''down'') [sample 7 StatusQueued])
   in length (web_requests s) = 3 \<and> rev (rt_sleeps s) = [5 * time_Second, 10 * time_Second] \<and>
     amqp_log s = [Nack 1 True, Nack 1 True, Nack 1 False] \<and>
     map n_Status (pg_notifications s) = [StatusFailed] \<and> map n_RetryCount (pg_notifications s) = [3]"
  by (simp add: consume_run numeral_3_eq_3 numeral_2_eq_2 backoff_def
      wrap64_def float64_exact int64_of_scaled_exact in_int64_def)

text \<open>Cancelling a queued notification does not stop its delivery: the worker reads the fresh
  row for the number of retries only, sends the message and sets the row to sent.\<close>

theorem cancelled_still_sent:
  "let s0 = run_final (notificationRepo_Cancel 7) (world (\<lambda>_. Response 200 ''id'') [sample 7 StatusQueued]);
       s = run_final (processMessage 1 (default_consumer 7) the_delivery ''push'') s0
   in map n_Status (pg_notifications s0) = [StatusCancelled] \<and> length (web_requests s) = 1 \<and>
     amqp_log s = [Ack 1] \<and> map n_Status (pg_notifications s) = [StatusSent]"
  by (simp add: consume_run notificationRepo_Cancel_def cancellable_def)

end
