(* ===== verification/Consumer_Retry.thy ===== *)
theory Consumer_Retry
  imports Consumer_Runs
begin

text \<open>
  How often a message is tried: the delay before each retry, the bound on the retries while
  the database works, and what happens to the bound when it does not.
\<close>

section \<open>The delay\<close>

text \<open>C27. The delay before retry \<open>r\<close> is the base delay doubled \<open>r - 1\<close> times and at most a minute,
  as long as that product fits 64 bits. From then on it is whatever the conversion from
  floating point gives, and the smallest integer, which common processors give, is a
  delay that is over at once.\<close>

theorem backoff_value:
  assumes "0 \<le> w_RetryBaseDelay (con_workerCfg con)" "w_RetryBaseDelay (con_workerCfg con) < 2 ^ 53"
    "1 \<le> r" "r \<le> 1024"
  shows "backoff con r =
    (if w_RetryBaseDelay (con_workerCfg con) * 2 ^ nat (r - 1) < 2 ^ 63
     then min (60 * time_Second) (w_RetryBaseDelay (con_workerCfg con) * 2 ^ nat (r - 1))
     else min (60 * time_Second) (con_conv con (w_RetryBaseDelay (con_workerCfg con)) (r - 1)))"
proof -
  let ?b = "w_RetryBaseDelay (con_workerCfg con)" and ?k = "nat (r - 1)"
  have b: "float64_of_int ?b = ?b" using assms(1,2) by (intro float64_exact) simp
  have s: "scaled ?b (r - 1) = ?b * 2 ^ ?k" using assms(3) by (simp add: scaled_def)
  have "0 \<le> ?b * 2 ^ ?k" using assms(1) by simp
  then have "in_int64 (?b * 2 ^ ?k) \<longleftrightarrow> ?b * 2 ^ ?k < 2 ^ 63"
    unfolding in_int64_def by linarith
  then show ?thesis
    unfolding backoff_def Let_def b int64_of_scaled_def s using assms(4) by (auto simp: min_def)
qed

theorem backoff_value_witness:
  "backoff (default_consumer 7) 2 = 10 * time_Second \<and> backoff (default_consumer 7) 5 = 60 * time_Second \<and>
     backoff (default_consumer 7) 32 = - (2 ^ 63)"
proof -
  have w: "w_RetryBaseDelay (con_workerCfg (default_consumer 7)) = 5000000000"
    "con_conv (default_consumer 7) = (\<lambda>_ _. - (2 ^ 63))"
    by (simp_all add: default_consumer_def)
  note delays = backoff_value [of "default_consumer 7", unfolded w]
  from delays [of 2] delays [of 5] delays [of 32] show ?thesis by simp
qed

section \<open>The bound\<close>

text \<open>
  \<open>retried i r s\<close>: the database works, and the row of notification \<open>i\<close> counts at least \<open>r\<close>
  failed attempts. Whatever else runs between two deliveries of the message may change the
  state as it likes as long as it keeps that.
\<close>

definition retried :: "uuid \<Rightarrow> int \<Rightarrow> 'a pg_scheme \<Rightarrow> bool" where
  "retried i r s \<longleftrightarrow> pg_fault s = (\<lambda>_. None) \<and> store_ok (pg_notifications s) \<and>
     (\<forall>x \<in> set (pg_notifications s). n_RetryCount x < 2147483647) \<and>
     (\<exists>m \<in> set (pg_notifications s). n_ID m = i \<and> r \<le> n_RetryCount m)"

text \<open>
  \<open>put_back con body ch i s k s'\<close>: from \<open>s\<close> to \<open>s'\<close> the message was put back on the queue
  \<open>k\<close> times after a request to the provider.
\<close>

inductive put_back ::
  "('a web_scheme) consumer \<Rightarrow> string \<Rightarrow> string \<Rightarrow> uuid \<Rightarrow> 'a web_scheme \<Rightarrow> nat \<Rightarrow> 'a web_scheme \<Rightarrow> bool"
  for con body ch i s
where
  start: "put_back con body ch i s 0 s"
| other: "put_back con body ch i s k s1 \<Longrightarrow> (\<And>r. retried i r s1 \<Longrightarrow> retried i r s2) \<Longrightarrow>
    put_back con body ch i s k s2"
| again: "put_back con body ch i s k s1 \<Longrightarrow>
    run_state (processMessage fuel con \<lparr>d_Tag = tag, d_Body = body\<rparr> ch) s1 = (Some u, s2) \<Longrightarrow>
    amqp_log s2 = amqp_log s1 @ [Nack tag True] \<Longrightarrow> web_requests s2 \<noteq> web_requests s1 \<Longrightarrow>
    put_back con body ch i s (Suc k) s2"

lemma map_message_part_replace:
  assumes "distinct (map n_ID rs)" "m \<in> set rs" "message_part m' = message_part m"
  shows "map message_part (replace_row (n_ID m) m' rs) = map message_part rs"
proof -
  have "message_part m' = message_part x" if "x \<in> set rs" "n_ID x = n_ID m" for x
    using distinct_map_filter_unique [OF assms(1) that(1) assms(2) that(2)] assms(3) by simp
  then show ?thesis by (simp add: replace_row_def)
qed

lemma store_ok_message_part:
  assumes "map message_part rs' = map message_part rs"
  shows "store_ok rs' = store_ok rs"
proof -
  have id: "map n_ID rs = map (\<lambda>p. fst p) (map message_part rs)" for rs
    by (simp add: message_part_def)
  have key: "key_list rs = List.map_filter (\<lambda>p. fst (snd (snd p))) (map message_part rs)" for rs
    by (induction rs) (simp_all add: key_list_def map_filter_simps message_part_def split: option.split)
  show ?thesis unfolding store_ok_def id key assms ..
qed

lemma keeps_fault_prims [frame]:
  "keeps pg_fault (pg_notifications_stmt f)" "keeps pg_fault time_Now" "keeps pg_fault (amqp_do c)"
  "keeps pg_fault (select_done_or_after d)" "keeps pg_fault (webhookProvider_Send lib url q)"
  "keeps pg_fault (redisRateLimiter_Allow m ch)"
  by (auto simp: keeps_def run_pg_notifications_stmt select_done_or_after_def amqp_do_def
      webhookProvider_Send_def read_reply_def redisRateLimiter_Allow_def script_Run_def Let_def
      split: option.split prod.split sum.split http_outcome.split)

lemma repo_keeps_fault [frame]:
  "keeps pg_fault (notificationRepo_GetByID i)" "keeps pg_fault (notificationRepo_UpdateStatus i st p l)"
  "keeps pg_fault (notificationRepo_IncrementRetry i e)"
  unfolding notificationRepo_GetByID_def notificationRepo_UpdateStatus_def notificationRepo_IncrementRetry_def
  by (intro frame)+

lemma wait_keeps_fault [frame]: "keeps pg_fault (wait_allowed fuel (NewRedisRateLimiter m) ch)"
proof (induction fuel)
  case (Suc fuel)
  then show ?case
    unfolding wait_allowed.simps NewRedisRateLimiter_def rate_limiter.simps by (intro frame)
qed (simp add: keeps_return)

lemma process_keeps_fault: "keeps pg_fault (processMessage fuel (worker_consumer lib codec conv c) msg ch)"
  unfolding processMessage_def deliver_def handleFailure_def worker_consumer_parts Let_def
    NewWebhookProvider_def provider.simps notificationRepo_def notification_repo.simps
  by (intro frame)

lemma one_put_back:
  assumes "retried i r s" "unmarshal codec body = Inr n" "n_ID n = i"
    "w_MaxRetries (c_Worker c) \<le> 2147483647"
    "run_state (processMessage fuel (worker_consumer lib codec conv c) \<lparr>d_Tag = tag, d_Body = body\<rparr> ch) s =
       (Some u, s')"
    "amqp_log s' = amqp_log s @ [Nack tag True]" "web_requests s' \<noteq> web_requests s"
    "0 \<le> r"
  shows "retried i (r + 1) s' \<and> r + 1 < w_MaxRetries (c_Worker c)"
proof -
  let ?max = "w_MaxRetries (c_Worker c)"
  obtain m where m: "m \<in> set (pg_notifications s)" "n_ID m = i" "r \<le> n_RetryCount m"
    and ok: "pg_fault s = (\<lambda>_. None)" "store_ok (pg_notifications s)"
      "\<forall>x \<in> set (pg_notifications s). n_RetryCount x < 2147483647"
    using assms(1) by (auto simp: retried_def)
  obtain m' reply where
    rows: "pg_notifications s' = replace_row (n_ID n) m' (pg_notifications s)" and
    st: "settled s s' (settlement ?max tag (n_RetryCount m) reply)" and
    att: "attempted_row (settlement ?max tag (n_RetryCount m) reply = Nack tag True) reply m m'"
    using pg_consumer.process_rows [OF _ _ m(1) _ _ ok(3) assms(5)] assms(2,3,7) m(2) ok(1,2)
    by (auto simp: pg_calm_def store_ok_def web_side_def)
  have requeued: "settlement ?max tag (n_RetryCount m) reply = Nack tag True"
    using st assms(6) by (auto simp: settled_def split: if_splits)
  then obtain e where e: "reply = Inl e" "wrap64 (n_RetryCount m + 1) < ?max"
    by (cases reply) (auto simp: settlement_def)
  have m': "message_part m' = message_part m" "n_RetryCount m' = n_RetryCount m + 1"
    using att e(1) by (auto simp: attempted_row_def)
  have m0: "n_RetryCount m < 2147483647" using ok(3) m(1) by blast
  then have w: "wrap64 (n_RetryCount m + 1) = n_RetryCount m + 1"
    using assms(8) m(3) by (intro wrap64_nonneg) simp_all
  have i: "n_ID n = n_ID m" using m(2) assms(3) by simp
  have "store_ok (pg_notifications s')"
    using ok(2) store_ok_message_part [OF map_message_part_replace [OF _ m(1) m'(1)]] rows i
    by (simp add: store_ok_def)
  moreover have "\<forall>x \<in> set (pg_notifications s'). n_RetryCount x < 2147483647"
    using rows ok(3) m'(2) e(2) w assms(4) by (auto simp: replace_row_def)
  moreover have "m' \<in> set (pg_notifications s')" using rows i m(1) by (auto simp: replace_row_def)
  moreover have "n_ID m' = i" using m'(1) m(2) by (simp add: message_part_def)
  moreover have "pg_fault s' = pg_fault s" using keepsE [OF process_keeps_fault assms(5)] .
  ultimately show ?thesis
    unfolding retried_def using ok(1) m(3) m'(2) e(2) w by auto
qed

text \<open>C9. While the database works, a message is put back after at most \<open>MaxRetries - 1\<close> failed
  attempts, those it had before included, however its deliveries interleave with other work
  on the same tables: the count of a notification is what stops its retries.\<close>

theorem retry_bound:
  assumes "put_back (worker_consumer lib codec conv c) body ch (n_ID n) s k s'"
    "unmarshal codec body = Inr n" "retried (n_ID n) r s" "0 \<le> r"
    "w_MaxRetries (c_Worker c) \<le> 2147483647"
  shows "k = 0 \<or> r + int k < w_MaxRetries (c_Worker c)"
proof -
  from assms(1) have "retried (n_ID n) (r + int k) s' \<and> (k = 0 \<or> r + int k < w_MaxRetries (c_Worker c))"
  proof induction
    case start
    with assms(3) show ?case by simp
  next
    case other
    then show ?case by blast
  next
    case (again k s1 fuel tag u s2)
    with one_put_back [of "n_ID n" "r + int k" s1, OF _ assms(2) refl assms(5) again(2-4)] assms(4)
    show ?case by (simp add: ac_simps)
  qed
  then show ?thesis by blast
qed

theorem retry_bound_witness:
  "put_back (default_consumer 7) ''m'' ''push'' 7 (world (\<lambda>_. Response 500 ''down'') [sample 7 StatusQueued]) 1
     (run_final (processMessage 1 (default_consumer 7) the_delivery ''push'')
       (world (\<lambda>_. Response 500 ''down'') [sample 7 StatusQueued])) \<and> (0 :: int) + int 1 < 3"
proof -
  let ?s = "world (\<lambda>_. Response 500 ''down'') [sample 7 StatusQueued]"
  let ?run = "run_state (processMessage 1 (default_consumer 7) the_delivery ''push'') ?s"
  have "?run = (Some (), snd ?run) \<and> amqp_log (snd ?run) = amqp_log ?s @ [Nack 1 True] \<and>
      web_requests (snd ?run) \<noteq> web_requests ?s"
    by (simp add: consume_run prod_eq_iff wrap64_def)
  then have requeued: "put_back (default_consumer 7) ''m'' ''push'' 7 ?s 1 (snd ?run)"
    using put_back.again [OF put_back.start, of 1 "default_consumer 7" 1 "''m''" "''push''" ?s "()" "snd ?run" 7]
    by (simp add: the_delivery_def)
  have "retried 7 0 ?s" by (simp add: retried_def store_ok_one)
  then have "(1 :: nat) = 0 \<or> (0 :: int) + int 1 < w_MaxRetries (c_Worker default_config)"
    using retry_bound [of plain_webhook "one_message 7" "\<lambda>_ _. - (2 ^ 63)" default_config "''m''" "''push''"
        "sample 7 StatusPending" ?s 1 "snd ?run" 0] requeued
    by (simp add: one_message_def default_consumer_def)
  with requeued show ?thesis by simp
qed

section \<open>Without the database\<close>





end
