(* ===== verification/Consumer_Interrupted.thy ===== *)
theory Consumer_Interrupted
  imports Consumer_Retry
begin

text \<open>
  A message that is being delivered when the worker is told to stop. \<open>main\<close> cancels the
  context first, and every statement and request of \<open>processMessage\<close> runs under that context:
  the request to the provider is broken off and the statements after it fail, while
  acknowledgements, which know no context, still go through.
\<close>

text \<open>From the \<open>k\<close>-th of the next calls on the database, all fail; RabbitMQ works.\<close>

definition stopped_after :: "nat \<Rightarrow> 'a amqp_scheme \<Rightarrow> bool" where
  "stopped_after k s \<longleftrightarrow> (\<forall>j. pg_fault s (pg_calls s + j) = None \<longleftrightarrow> j < k) \<and> amqp_fault s = (\<lambda>_. None)"




lemma stopped_now: "stopped_after 0 s \<Longrightarrow> \<exists>e. pg_fault s (pg_calls s) = Some e"
  unfolding stopped_after_def by (metis add_0_right not_less_zero option.exhaust)







end
