(* ===== verification/Go_Json.thy ===== *)
theory Go_Json
  imports Go_Utf8
begin

text \<open>
  \<open>encoding/json\<close>: the tree of a JSON text, the compact printer of \<open>json.Marshal\<close>, the syntax
  check of \<open>json.Unmarshal\<close> and the reading of string literals. A string or an object key is
  kept as the text between its quotes, a number as its text: the decoder of a field looks at the
  literal.
\<close>

datatype json = JNull | JBool bool | JNum string | JStr string | JArr "json list" | JObj "(string \<times> json) list"

abbreviation quote_char :: char where "quote_char \<equiv> CHR 0x22"
abbreviation backslash :: char where "backslash \<equiv> CHR 0x5C"

section \<open>String literals\<close>

subsection \<open>Writing\<close>

definition hex_char :: "nat \<Rightarrow> char" where
  "hex_char d = (if d < 10 then char_of (48 + d) else char_of (87 + d))"

text \<open>\<open>appendString\<close> with the escapes of HTML, as \<open>Marshal\<close> calls it: a byte that is no UTF-8 is
  written as the replacement character, the line separators of JavaScript are escaped.\<close>

definition escape_ascii :: "char \<Rightarrow> string" where
  "escape_ascii c =
     (if c = quote_char \<or> c = backslash then [backslash, c]
      else if byte c = 8 then [backslash, CHR ''b'']
      else if byte c = 12 then [backslash, CHR ''f'']
      else if byte c = 10 then [backslash, CHR ''n'']
      else if byte c = 13 then [backslash, CHR ''r'']
      else if byte c = 9 then [backslash, CHR ''t'']
      else if byte c < 32 \<or> c = CHR ''<'' \<or> c = CHR ''>'' \<or> c = CHR ''&''
      then [backslash, CHR ''u'', CHR ''0'', CHR ''0'', hex_char (byte c div 16), hex_char (byte c mod 16)]
      else [c])"

definition escape_rune :: "string \<Rightarrow> string" where
  "escape_rune r =
     (if r = [CHR 0xE2, CHR 0x80, CHR 0xA8] then backslash # ''u2028''
      else if r = [CHR 0xE2, CHR 0x80, CHR 0xA9] then backslash # ''u2029''
      else r)"

function json_escape :: "string \<Rightarrow> string" where
  "json_escape [] = []"
| "json_escape (c # cs) =
     (if byte c < 128 then escape_ascii c @ json_escape cs
      else if rune_size c cs = 1 then (backslash # ''ufffd'') @ json_escape cs
      else escape_rune (c # take (rune_size c cs - 1) cs) @ json_escape (drop (rune_size c cs - 1) cs))"
  by pat_completeness auto
termination
  by (relation "measure length") auto

subsection \<open>Reading\<close>

definition hex_value :: "char \<Rightarrow> nat option" where
  "hex_value c =
     (if 48 \<le> byte c \<and> byte c \<le> 57 then Some (byte c - 48)
      else if 97 \<le> byte c \<and> byte c \<le> 102 then Some (byte c - 87)
      else if 65 \<le> byte c \<and> byte c \<le> 70 then Some (byte c - 55)
      else None)"

text \<open>\<open>getu4\<close>, past the \<open>u\<close>; the second half of a surrogate pair.\<close>

definition getu4 :: "string \<Rightarrow> nat option" where
  "getu4 s =
     (case s of
        a # b # c # d # r \<Rightarrow>
          (case (hex_value a, hex_value b, hex_value c, hex_value d) of
             (Some w, Some x, Some y, Some z) \<Rightarrow> Some (4096 * w + 256 * x + 16 * y + z)
           | _ \<Rightarrow> None)
      | _ \<Rightarrow> None)"

definition low_surrogate :: "string \<Rightarrow> nat option" where
  "low_surrogate s =
     (case s of
        b # u # r \<Rightarrow>
          if b = backslash \<and> u = CHR ''u''
          then (case getu4 r of Some v \<Rightarrow> if 56320 \<le> v \<and> v < 57344 then Some v else None | None \<Rightarrow> None)
          else None
      | _ \<Rightarrow> None)"

definition replacement :: string where "replacement = [CHR 0xEF, CHR 0xBF, CHR 0xBD]"

definition simple_escape :: "char \<Rightarrow> char option" where
  "simple_escape e =
     map_of [(quote_char, quote_char), (backslash, backslash), (CHR ''/'', CHR ''/''), (CHR ''b'', CHR 0x08),
       (CHR ''f'', CHR 0x0C), (CHR ''n'', CHR 0x0A), (CHR ''r'', CHR 0x0D), (CHR ''t'', CHR 0x09)] e"

text \<open>\<open>unquote\<close>, on the text between the quotes. A half of a surrogate pair, or a byte that is no
  UTF-8, becomes the replacement character.\<close>

function json_unquote :: "string \<Rightarrow> string option" where
  "json_unquote [] = Some []"
| "json_unquote (c # cs) =
     (if c = backslash
      then (case cs of
          [] \<Rightarrow> None
        | e # r \<Rightarrow>
            if e = CHR ''u''
            then (case getu4 r of
                None \<Rightarrow> None
              | Some v \<Rightarrow>
                  if 55296 \<le> v \<and> v < 57344
                  then (case (if v < 56320 then low_surrogate (drop 4 r) else None) of
                      Some w \<Rightarrow>
                        map_option (append (utf8_encode (65536 + (v - 55296) * 1024 + (w - 56320)))) (json_unquote (drop 10 r))
                    | None \<Rightarrow> map_option (append replacement) (json_unquote (drop 4 r)))
                  else map_option (append (utf8_encode v)) (json_unquote (drop 4 r)))
            else (case simple_escape e of None \<Rightarrow> None | Some b \<Rightarrow> map_option (Cons b) (json_unquote r)))
      else if c = quote_char \<or> byte c < 32 then None
      else if byte c < 128 then map_option (Cons c) (json_unquote cs)
      else if rune_size c cs = 1 then map_option (append replacement) (json_unquote cs)
      else map_option (append (c # take (rune_size c cs - 1) cs)) (json_unquote (drop (rune_size c cs - 1) cs)))"
  by pat_completeness auto
termination
  by (relation "measure length") auto

declare json_unquote.simps(2) [simp del]

text \<open>The end of a literal: the scanner rejects control characters and unknown escapes.\<close>

fun scan_string :: "string \<Rightarrow> (string \<times> string) option" where
  "scan_string [] = None"
| "scan_string (c # cs) =
     (if c = quote_char then Some ([], cs)
      else if c = backslash
      then (case cs of
          [] \<Rightarrow> None
        | e # r \<Rightarrow>
            if e = CHR ''u'' then (if getu4 r = None then None else map_option (apfst (append [c, e])) (scan_string r))
            else if simple_escape e = None then None
            else map_option (apfst (append [c, e])) (scan_string r))
      else if byte c < 32 then None
      else map_option (apfst (Cons c)) (scan_string cs))"

section \<open>Tokens\<close>

datatype token = LBrace | RBrace | LBracket | RBracket | Colon | Comma | TNull | TBool bool | TNum string | TStr string

definition digits_run :: "string \<Rightarrow> string option" where
  "digits_run s = (if s \<noteq> [] \<and> is_digit (hd s) then Some (dropWhile is_digit s) else None)"

text \<open>What follows a number; \<open>None\<close> where none stands.\<close>

definition number_exponent :: "string \<Rightarrow> string option" where
  "number_exponent s =
     (if s \<noteq> [] \<and> (hd s = CHR ''e'' \<or> hd s = CHR ''E'')
      then (let r = tl s in digits_run (if r \<noteq> [] \<and> (hd r = CHR ''+'' \<or> hd r = CHR ''-'') then tl r else r))
      else Some s)"

definition number_fraction :: "string \<Rightarrow> string option" where
  "number_fraction s = (if s \<noteq> [] \<and> hd s = CHR ''.'' then digits_run (tl s) else Some s)"

definition scan_unsigned :: "string \<Rightarrow> string option" where
  "scan_unsigned s = (if s \<noteq> [] \<and> hd s = CHR ''0'' then Some (tl s) else digits_run s)"

definition scan_number :: "string \<Rightarrow> string option" where
  "scan_number s =
     (case scan_unsigned (if s \<noteq> [] \<and> hd s = CHR ''-'' then tl s else s) of
        None \<Rightarrow> None
      | Some s2 \<Rightarrow> (case number_fraction s2 of None \<Rightarrow> None | Some s3 \<Rightarrow> number_exponent s3))"

definition scan_word :: "string \<Rightarrow> token \<Rightarrow> string \<Rightarrow> (token \<times> string) option" where
  "scan_word w t s = (if prefix w s then Some (t, drop (length w) s) else None)"

definition next_token :: "char \<Rightarrow> string \<Rightarrow> (token \<times> string) option" where
  "next_token c r =
     (if c = CHR ''{'' then Some (LBrace, r)
      else if c = CHR ''}'' then Some (RBrace, r)
      else if c = CHR ''['' then Some (LBracket, r)
      else if c = CHR '']'' then Some (RBracket, r)
      else if c = CHR '':'' then Some (Colon, r)
      else if c = CHR '','' then Some (Comma, r)
      else if c = quote_char then map_option (apfst TStr) (scan_string r)
      else if c = CHR ''t'' then scan_word ''rue'' (TBool True) r
      else if c = CHR ''f'' then scan_word ''alse'' (TBool False) r
      else if c = CHR ''n'' then scan_word ''ull'' TNull r
      else map_option (\<lambda>rest. (TNum (take (length (c # r) - length rest) (c # r)), rest)) (scan_number (c # r)))"

definition is_space :: "char \<Rightarrow> bool" where
  "is_space c \<longleftrightarrow> c = CHR '' '' \<or> byte c = 9 \<or> byte c = 10 \<or> byte c = 13"

lemma scan_string_length: "scan_string s = Some (raw, r) \<Longrightarrow> length r < length s"
  by (induction s arbitrary: raw rule: scan_string.induct)
    (fastforce split: if_splits list.splits)+

lemma digits_run_length: "digits_run s = Some r \<Longrightarrow> length r < length s"
  by (cases s) (auto simp: digits_run_def length_dropWhile_le less_Suc_eq_le split: if_splits)

lemma number_exponent_length: "number_exponent s = Some r \<Longrightarrow> length r \<le> length s"
  by (auto simp: number_exponent_def Let_def dest!: digits_run_length split: if_splits)

lemma number_fraction_length: "number_fraction s = Some r \<Longrightarrow> length r \<le> length s"
  by (auto simp: number_fraction_def dest!: digits_run_length split: if_splits)

lemma scan_unsigned_length: "scan_unsigned s = Some r \<Longrightarrow> length r < length s"
  by (cases s) (auto simp: scan_unsigned_def dest!: digits_run_length split: if_splits)

lemma scan_number_length: "scan_number s = Some r \<Longrightarrow> length r < length s"
  by (cases s)
    (auto simp: scan_number_def dest!: scan_unsigned_length number_fraction_length number_exponent_length
      split: if_splits option.splits)

lemma next_token_length: "next_token c s = Some (t, r) \<Longrightarrow> length r \<le> length s"
  by (auto simp: next_token_def scan_word_def less_Suc_eq_le dest!: scan_string_length scan_number_length split: if_splits)

function json_tokens :: "string \<Rightarrow> token list option" where
  "json_tokens [] = Some []"
| "json_tokens (c # cs) =
     (if is_space c then json_tokens cs
      else case next_token c cs of
        None \<Rightarrow> None
      | Some (t, r) \<Rightarrow> map_option (Cons t) (json_tokens r))"
  by pat_completeness auto
termination
  by (relation "measure length") (auto dest: next_token_length simp: less_Suc_eq_le)

section \<open>Values\<close>

text \<open>
  The scanner is a machine with a stack of the arrays and objects that are open, ten thousand
  at most. \<open>Want b\<close> waits for a value, or for the end of an empty array; \<open>WantKey b\<close> for a key, or
  for the end of an empty object; \<open>Have v\<close> has just finished \<open>v\<close>.
\<close>

datatype frame = InArray "json list" | InObject "(string \<times> json) list" | InMember "(string \<times> json) list" string
datatype mode = Want bool | WantKey bool | WantColon | Have json

definition max_depth :: nat where "max_depth = 10000"

definition scan_value :: "bool \<Rightarrow> frame list \<Rightarrow> token \<Rightarrow> (mode \<times> frame list) option" where
  "scan_value b st t =
     (case t of
        TNull \<Rightarrow> Some (Have JNull, st)
      | TBool x \<Rightarrow> Some (Have (JBool x), st)
      | TNum s \<Rightarrow> Some (Have (JNum s), st)
      | TStr s \<Rightarrow> Some (Have (JStr s), st)
      | LBracket \<Rightarrow> if length st < max_depth then Some (Want True, InArray [] # st) else None
      | LBrace \<Rightarrow> if length st < max_depth then Some (WantKey True, InObject [] # st) else None
      | RBracket \<Rightarrow> if b \<and> st \<noteq> [] then Some (Have (JArr []), tl st) else None
      | _ \<Rightarrow> None)"

definition scan_key :: "bool \<Rightarrow> frame list \<Rightarrow> token \<Rightarrow> (mode \<times> frame list) option" where
  "scan_key b st t =
     (case (t, st) of
        (TStr k, InObject ms # st') \<Rightarrow> Some (WantColon, InMember ms k # st')
      | (RBrace, InObject ms # st') \<Rightarrow> if b then Some (Have (JObj []), st') else None
      | _ \<Rightarrow> None)"

definition scan_after :: "json \<Rightarrow> frame list \<Rightarrow> token \<Rightarrow> (mode \<times> frame list) option" where
  "scan_after v st t =
     (case (t, st) of
        (Comma, InArray vs # st') \<Rightarrow> Some (Want False, InArray (vs @ [v]) # st')
      | (RBracket, InArray vs # st') \<Rightarrow> Some (Have (JArr (vs @ [v])), st')
      | (Comma, InMember ms k # st') \<Rightarrow> Some (WantKey False, InObject (ms @ [(k, v)]) # st')
      | (RBrace, InMember ms k # st') \<Rightarrow> Some (Have (JObj (ms @ [(k, v)])), st')
      | _ \<Rightarrow> None)"

definition scan_step :: "mode \<Rightarrow> frame list \<Rightarrow> token \<Rightarrow> (mode \<times> frame list) option" where
  "scan_step m st t =
     (case m of
        Want b \<Rightarrow> scan_value b st t
      | WantKey b \<Rightarrow> scan_key b st t
      | WantColon \<Rightarrow> if t = Colon then Some (Want False, st) else None
      | Have v \<Rightarrow> scan_after v st t)"

fun scan_tokens :: "mode \<Rightarrow> frame list \<Rightarrow> token list \<Rightarrow> json option" where
  "scan_tokens m st [] = (case (m, st) of (Have v, []) \<Rightarrow> Some v | _ \<Rightarrow> None)"
| "scan_tokens m st (t # ts) =
     (case scan_step m st t of None \<Rightarrow> None | Some (m', st') \<Rightarrow> scan_tokens m' st' ts)"

definition json_parse :: "string \<Rightarrow> json option" where
  "json_parse s = (case json_tokens s of None \<Rightarrow> None | Some ts \<Rightarrow> scan_tokens (Want False) [] ts)"

section \<open>Printing\<close>

fun commas :: "string list \<Rightarrow> string" where
  "commas [] = []"
| "commas [x] = x"
| "commas (x # y # ys) = x @ CHR '','' # commas (y # ys)"

fun json_text :: "json \<Rightarrow> string" where
  "json_text JNull = ''null''"
| "json_text (JBool b) = (if b then ''true'' else ''false'')"
| "json_text (JNum s) = s"
| "json_text (JStr s) = quote_char # s @ [quote_char]"
| "json_text (JArr vs) = CHR ''['' # commas (map json_text vs) @ '']''"
| "json_text (JObj ms) =
     CHR ''{'' # commas (map (\<lambda>(k, v). quote_char # k @ quote_char # CHR '':'' # json_text v) ms) @ ''}''"

end
