(* ===== verification/Go_Json_Text.thy ===== *)
theory Go_Json_Text
  imports Go_Json
begin

text \<open>
  The literals of \<open>Go_Json\<close> read back: quoting and unquoting a string gives the string with the
  bytes that are no UTF-8 replaced, and printing a value and parsing it gives the value.
\<close>

section \<open>Valid UTF-8\<close>

function to_valid :: "string \<Rightarrow> string" where
  "to_valid [] = []"
| "to_valid (c # cs) =
     (if byte c < 128 then c # to_valid cs
      else if rune_size c cs = 1 then replacement @ to_valid cs
      else (c # take (rune_size c cs - 1) cs) @ to_valid (drop (rune_size c cs - 1) cs))"
  by pat_completeness auto
termination
  by (relation "measure length") auto

function valid_utf8 :: "string \<Rightarrow> bool" where
  "valid_utf8 [] = True"
| "valid_utf8 (c # cs) \<longleftrightarrow>
     (byte c < 128 \<or> rune_size c cs \<noteq> 1) \<and> valid_utf8 (drop (rune_size c cs - 1) cs)"
  by pat_completeness auto
termination
  by (relation "measure length") auto

lemma to_valid_id: "valid_utf8 s \<Longrightarrow> to_valid s = s"
proof (induction s rule: to_valid.induct)
  case (2 c cs)
  then show ?case by (cases "byte c < 128") (simp_all add: rune_size_ascii)
qed simp

lemma valid_utf8_encode:
  "list_all code_point ps \<Longrightarrow> valid_utf8 (concat (map utf8_encode ps))"
proof (induction ps)
  case (Cons p ps)
  obtain c cs where e: "utf8_encode p = c # cs" by (meson neq_Nil_conv utf8_encode_nonempty)
  have sz: "rune_size c (cs @ s) = Suc (length cs)" for s
    using Cons.prems e by (intro rune_size_encode) simp_all
  have "byte c < 128" if "cs = []"
  proof (rule ccontr)
    assume "\<not> byte c < 128"
    with e that show False by (auto simp: utf8_encode_def split: if_splits)
  qed
  with sz e Cons show ?case by auto
qed simp

lemma valid_utf8_ascii: "list_all (\<lambda>c. byte c < 128) s \<Longrightarrow> valid_utf8 s"
  by (induction s) (simp_all add: rune_size_ascii)

section \<open>Quoting\<close>

text \<open>What a lead byte tells: the length, and the range of the second byte.\<close>

definition lead :: "nat \<Rightarrow> nat \<times> nat \<times> nat" where
  "lead b =
     (if 194 \<le> b \<and> b \<le> 223 then (2, 128, 191)
      else if b = 224 then (3, 160, 191)
      else if b = 237 then (3, 128, 159)
      else if 225 \<le> b \<and> b \<le> 239 then (3, 128, 191)
      else if b = 240 then (4, 144, 191)
      else if 241 \<le> b \<and> b \<le> 243 then (4, 128, 191)
      else if b = 244 then (4, 128, 143)
      else (1, 128, 0))"

lemma lead_range: "lead b = (n, lo, hi) \<Longrightarrow> 128 \<le> lo \<and> n \<in> {1, 2, 3, 4}"
  unfolding lead_def by (auto split: if_split_asm)

text \<open>The bytes after the lead byte are those of an encoding of length \<open>n\<close>.\<close>

definition follows :: "nat \<Rightarrow> nat \<Rightarrow> nat \<Rightarrow> string \<Rightarrow> bool" where
  "follows n lo hi cs \<longleftrightarrow>
     (case cs of x # _ \<Rightarrow> in_range lo hi x | [] \<Rightarrow> False) \<and>
     (2 < n \<longrightarrow> (case cs of _ # y # _ \<Rightarrow> cont_byte y | _ \<Rightarrow> False)) \<and>
     (3 < n \<longrightarrow> (case cs of _ # _ # z # _ \<Rightarrow> cont_byte z | _ \<Rightarrow> False))"

lemma rune_size_lead:
  assumes "lead (byte c) = (n, lo, hi)"
  shows "rune_size c cs = (if n \<noteq> 1 \<and> follows n lo hi cs then n else 1)"
proof -
  consider "194 \<le> byte c" "byte c \<le> 223" | "byte c = 224" | "byte c = 237"
    | "225 \<le> byte c" "byte c \<le> 239" "byte c \<noteq> 237" | "byte c = 240" | "241 \<le> byte c" "byte c \<le> 243"
    | "byte c = 244" | "byte c < 194" | "244 < byte c"
    by linarith
  then show ?thesis
    using assms by cases (simp_all add: rune_size_def Let_def lead_def follows_def split del: if_split cong: if_cong)
qed

lemma rune_size_follows:
  assumes "lead (byte c) = (n, lo, hi)" "rune_size c cs = k" "k \<noteq> 1"
  shows "n = k" "follows n lo hi cs"
  using assms rune_size_lead [OF assms(1)] by (simp_all split: if_split_asm)

lemma rune_size_agree:
  assumes "rune_size c cs = k" "k \<noteq> 1" "\<And>lo hi. 128 \<le> lo \<Longrightarrow> follows k lo hi cs \<Longrightarrow> follows k lo hi ds \<and> P"
  shows "rune_size c ds = k \<and> P"
proof -
  obtain n lo hi where l: "lead (byte c) = (n, lo, hi)" by (cases "lead (byte c)")
  then have "128 \<le> lo" using lead_range by blast
  moreover note rune_size_follows [OF l assms(1,2)]
  ultimately have "n = k" "follows k lo hi ds" P using assms(3) by blast+
  then show ?thesis using rune_size_lead [OF l] assms(2) by simp
qed

lemma rune_size_2: "rune_size c (x # s) = 2 \<Longrightarrow> rune_size c (x # t) = 2 \<and> 128 \<le> byte x"
  by (erule rune_size_agree) (simp_all add: follows_def in_range_def)

lemma rune_size_3: "rune_size c (x # y # s) = 3 \<Longrightarrow> rune_size c (x # y # t) = 3 \<and> 128 \<le> byte x \<and> 128 \<le> byte y"
  by (erule rune_size_agree) (simp_all add: follows_def in_range_def cont_byte_def)

lemma rune_size_4:
  "rune_size c (x # y # z # s) = 4 \<Longrightarrow>
     rune_size c (x # y # z # t) = 4 \<and> 128 \<le> byte x \<and> 128 \<le> byte y \<and> 128 \<le> byte z"
  by (erule rune_size_agree) (simp_all add: follows_def in_range_def cont_byte_def)

lemma rune_size_long: "rune_size c cs = k \<Longrightarrow> k \<noteq> 1 \<Longrightarrow> k \<in> {2, 3, 4} \<and> k \<le> Suc (length cs)"
proof -
  assume k: "rune_size c cs = k" "k \<noteq> 1"
  obtain n lo hi where l: "lead (byte c) = (n, lo, hi)" by (cases "lead (byte c)")
  then have "n \<in> {1, 2, 3, 4}" using lead_range by blast
  with rune_size_follows [OF l k] k(2) show ?thesis
    by (auto simp: follows_def split: list.splits)
qed

lemma rune_size_cases:
  assumes "rune_size c cs \<noteq> 1"
  obtains (two) x s where "cs = x # s" "rune_size c cs = 2"
  | (three) x y s where "cs = x # y # s" "rune_size c cs = 3"
  | (four) x y z s where "cs = x # y # z # s" "rune_size c cs = 4"
proof -
  have "rune_size c cs \<in> {2, 3, 4}" "rune_size c cs \<le> Suc (length cs)"
    using rune_size_long [OF refl assms] by simp_all
  then consider "rune_size c cs = 2" "1 \<le> length cs" | "rune_size c cs = 3" "2 \<le> length cs"
    | "rune_size c cs = 4" "3 \<le> length cs"
    by fastforce
  then show thesis
  proof cases
    case 1
    then show ?thesis using two by (cases cs) auto
  next
    case 2
    then show ?thesis using three by (cases cs rule: remdups_adj.cases) auto
  next
    case 3
    then obtain x s where "cs = x # s" "2 \<le> length s" by (cases cs) auto
    with 3 show ?thesis using four by (cases s rule: remdups_adj.cases; cases "tl (tl s)") auto
  qed
qed

lemma rune_size_prefix:
  assumes "rune_size c cs \<noteq> 1"
  shows "rune_size c (take (rune_size c cs - 1) cs @ s) = rune_size c cs"
    "length (take (rune_size c cs - 1) cs) = rune_size c cs - 1"
    "list_all (\<lambda>x. 128 \<le> byte x) (take (rune_size c cs - 1) cs)"
proof -
  have "\<exists>k. rune_size c cs = Suc k \<and> rune_size c (take k cs @ s) = Suc k \<and> length (take k cs) = k \<and>
      list_all (\<lambda>x. 128 \<le> byte x) (take k cs)"
    using assms
  proof (cases rule: rune_size_cases)
    case (two x r)
    then show ?thesis using rune_size_2 [of c x r s] by (intro exI [of _ 1]) simp
  next
    case (three x y r)
    then show ?thesis using rune_size_3 [of c x y r s] by (intro exI [of _ 2]) simp
  next
    case (four x y z r)
    then show ?thesis using rune_size_4 [of c x y z r s] by (intro exI [of _ 3]) simp
  qed
  then show "rune_size c (take (rune_size c cs - 1) cs @ s) = rune_size c cs"
    "length (take (rune_size c cs - 1) cs) = rune_size c cs - 1"
    "list_all (\<lambda>x. 128 \<le> byte x) (take (rune_size c cs - 1) cs)" by auto
qed

lemma hex_value_char: "d < 16 \<Longrightarrow> hex_value (hex_char d) = Some d"
  by (simp add: hex_value_def hex_char_def)

lemma getu4_byte:
  assumes "byte c < 128"
  shows "getu4 (CHR ''0'' # CHR ''0'' # hex_char (byte c div 16) # hex_char (byte c mod 16) # s) = Some (byte c)"
proof -
  have "hex_value (CHR ''0'') = Some 0" by (simp add: hex_value_def)
  moreover have "hex_value (hex_char (byte c div 16)) = Some (byte c div 16)"
    using assms by (intro hex_value_char) linarith
  moreover have "hex_value (hex_char (byte c mod 16)) = Some (byte c mod 16)"
    by (intro hex_value_char) simp
  ultimately show ?thesis by (simp add: getu4_def)
qed

lemma utf8_encode_ascii: "byte c < 128 \<Longrightarrow> utf8_encode (byte c) = [c]"
  by (simp add: utf8_encode_def)

lemma char_eq_iff: "c = d \<longleftrightarrow> byte c = byte d"
  by (rule of_char_eq_iff [symmetric])

lemma append_single: "(@) [c] = (#) c"
  by (rule ext) simp

lemma unquote_escape_ascii:
  assumes "byte c < 128"
  shows "json_unquote (escape_ascii c @ s) = map_option (Cons c) (json_unquote s)"
proof -
  have ctl: "c = CHR 0x08" if "byte c = 8" using that by (simp add: char_eq_iff)
  have ff: "c = CHR 0x0C" if "byte c = 12" using that by (simp add: char_eq_iff)
  have nl: "c = CHR 0x0A" if "byte c = 10" using that by (simp add: char_eq_iff)
  have cr: "c = CHR 0x0D" if "byte c = 13" using that by (simp add: char_eq_iff)
  have tb: "c = CHR 0x09" if "byte c = 9" using that by (simp add: char_eq_iff)
  show ?thesis
    using assms ctl ff nl cr tb
    by (auto simp: escape_ascii_def json_unquote.simps(2) simple_escape_def getu4_byte utf8_encode_ascii append_single)
qed

lemma unquote_rune:
  assumes "128 \<le> byte c" "rune_size c cs \<noteq> 1"
  shows "json_unquote (escape_rune (c # take (rune_size c cs - 1) cs) @ s) =
    map_option (append (c # take (rune_size c cs - 1) cs)) (json_unquote s)"
proof -
  let ?r = "c # take (rune_size c cs - 1) cs"
  consider "?r = [CHR 0xE2, CHR 0x80, CHR 0xA8]" | "?r = [CHR 0xE2, CHR 0x80, CHR 0xA9]" | "escape_rune ?r = ?r"
    unfolding escape_rune_def by argo
  then show ?thesis
  proof cases
    case 1
    have "utf8_encode 8232 = [CHR 0xE2, CHR 0x80, CHR 0xA8]" by (simp add: utf8_encode_def char_eq_iff)
    then show ?thesis unfolding 1
      by (simp add: escape_rune_def json_unquote.simps(2) getu4_def hex_value_def)
  next
    case 2
    have "utf8_encode 8233 = [CHR 0xE2, CHR 0x80, CHR 0xA9]" by (simp add: utf8_encode_def char_eq_iff)
    then show ?thesis unfolding 2
      by (simp add: escape_rune_def json_unquote.simps(2) getu4_def hex_value_def)
  next
    case 3
    have "c \<noteq> backslash" "c \<noteq> quote_char" "\<not> byte c < 32" using assms(1) by auto
    with 3 assms rune_size_prefix [OF assms(2)] show ?thesis
      by (simp add: json_unquote.simps(2))
  qed
qed

lemma replacement_encode: "utf8_encode 65533 = replacement"
  by (simp add: utf8_encode_def replacement_def char_eq_iff)

lemma unquote_replacement:
  "json_unquote ((backslash # ''ufffd'') @ s) = map_option (append replacement) (json_unquote s)"
  by (simp add: json_unquote.simps(2) getu4_def hex_value_def replacement_encode)

theorem unquote_escape: "json_unquote (json_escape s) = Some (to_valid s)"
proof (induction s rule: json_escape.induct)
  case (2 c cs)
  show ?case
  proof (cases "byte c < 128")
    case True
    then show ?thesis using 2 by (simp add: unquote_escape_ascii)
  next
    case large: False
    show ?thesis
    proof (cases "rune_size c cs = 1")
      case True
      then show ?thesis using large 2 unquote_replacement by simp
    next
      case False
      then show ?thesis using large 2 unquote_rune [of c cs] by simp
    qed
  qed
qed simp

section \<open>The end of a literal\<close>

definition whole_literal :: "string \<Rightarrow> bool" where
  "whole_literal x \<longleftrightarrow> (\<forall>s raw r. scan_string s = Some (raw, r) \<longrightarrow> scan_string (x @ s) = Some (x @ raw, r))"

lemma whole_literal_append: "whole_literal x \<Longrightarrow> whole_literal y \<Longrightarrow> whole_literal (x @ y)"
  by (simp add: whole_literal_def)

lemma whole_literal_Nil: "whole_literal []"
  by (simp add: whole_literal_def)

lemma whole_literal_plain: "byte c \<ge> 32 \<Longrightarrow> c \<noteq> quote_char \<Longrightarrow> c \<noteq> backslash \<Longrightarrow> whole_literal [c]"
  by (auto simp: whole_literal_def)

lemma whole_literal_simple: "simple_escape e \<noteq> None \<Longrightarrow> whole_literal [backslash, e]"
  by (auto simp: whole_literal_def simple_escape_def split: if_splits)

lemma whole_literal_list: "list_all (\<lambda>c. byte c \<ge> 32 \<and> c \<noteq> quote_char \<and> c \<noteq> backslash) x \<Longrightarrow> whole_literal x"
proof (induction x)
  case (Cons c x)
  then show ?case using whole_literal_append [OF whole_literal_plain, of c x] by simp
qed (simp add: whole_literal_Nil)

lemma whole_literal_hex:
  assumes "hex_value a \<noteq> None" "hex_value b \<noteq> None" "hex_value c \<noteq> None" "hex_value d \<noteq> None"
  shows "whole_literal [backslash, CHR ''u'', a, b, c, d]"
proof -
  have ok: "byte x \<ge> 32 \<and> x \<noteq> quote_char \<and> x \<noteq> backslash" if "hex_value x \<noteq> None" for x
    using that by (auto simp: hex_value_def split: if_splits)
  then have "whole_literal [a, b, c, d]" using assms by (intro whole_literal_list) simp
  then have rest: "scan_string (a # b # c # d # s) = Some (a # b # c # d # raw, r)"
    if "scan_string s = Some (raw, r)" for s raw r
    using that unfolding whole_literal_def by (metis append_Cons append_Nil)
  have hex: "getu4 (a # b # c # d # s) \<noteq> None" for s
    using assms by (auto simp: getu4_def)
  show ?thesis
    unfolding whole_literal_def append_Cons append_Nil
    by (intro allI impI, subst scan_string.simps) (use hex rest in \<open>simp del: scan_string.simps\<close>)
qed

lemma hex_value_range: "hex_value (hex_char d) \<noteq> None" if "d < 16"
  using hex_value_char [OF that] by simp

lemma whole_escape_ascii: "byte c < 128 \<Longrightarrow> whole_literal (escape_ascii c)"
proof -
  assume c: "byte c < 128"
  have "whole_literal [backslash, CHR ''u'', CHR ''0'', CHR ''0'', hex_char (byte c div 16), hex_char (byte c mod 16)]"
    using c by (intro whole_literal_hex hex_value_range) (simp_all add: hex_value_def less_mult_imp_div_less)
  then show ?thesis
    by (auto simp: escape_ascii_def simple_escape_def intro!: whole_literal_simple whole_literal_plain)
qed

lemma whole_escape_rune:
  assumes "128 \<le> byte c" "rune_size c cs \<noteq> 1"
  shows "whole_literal (escape_rune (c # take (rune_size c cs - 1) cs))"
proof -
  have "list_all (\<lambda>x. 32 \<le> byte x \<and> x \<noteq> quote_char \<and> x \<noteq> backslash) (c # take (rune_size c cs - 1) cs)"
    using assms(1) rune_size_prefix(3) [OF assms(2)] by (auto simp: list_all_iff)
  then have "whole_literal (c # take (rune_size c cs - 1) cs)" by (rule whole_literal_list)
  moreover have "whole_literal (backslash # ''u2028'')" "whole_literal (backslash # ''u2029'')"
    by (intro whole_literal_hex; simp add: hex_value_def)+
  ultimately show ?thesis unfolding escape_rune_def by (simp del: list.inject)
qed

lemma whole_json_escape: "whole_literal (json_escape s)"
proof (induction s rule: json_escape.induct)
  case (2 c cs)
  have bad: "whole_literal (backslash # ''ufffd'')" by (intro whole_literal_hex) (simp_all add: hex_value_def)
  consider "byte c < 128" | "\<not> byte c < 128" "rune_size c cs = 1" | "\<not> byte c < 128" "rune_size c cs \<noteq> 1"
    by blast
  then show ?case
  proof cases
    case 1
    then show ?thesis using 2(1) by (simp add: whole_literal_append whole_escape_ascii)
  next
    case 2
    then show ?thesis using "2.IH"(2) whole_literal_append [OF bad] by simp
  next
    case 3
    then show ?thesis using "2.IH"(3) whole_literal_append [OF whole_escape_rune] by simp
  qed
qed (simp add: whole_literal_Nil)

theorem scan_escape: "scan_string (json_escape s @ quote_char # rest) = Some (json_escape s, rest)"
  using whole_json_escape [of s] by (simp add: whole_literal_def)

section \<open>Tokens of a printed value\<close>

fun token_commas :: "token list list \<Rightarrow> token list" where
  "token_commas [] = []"
| "token_commas [x] = x"
| "token_commas (x # y # ys) = x @ Comma # token_commas (y # ys)"

fun json_toks :: "json \<Rightarrow> token list" where
  "json_toks JNull = [TNull]"
| "json_toks (JBool b) = [TBool b]"
| "json_toks (JNum s) = [TNum s]"
| "json_toks (JStr s) = [TStr s]"
| "json_toks (JArr vs) = LBracket # token_commas (map json_toks vs) @ [RBracket]"
| "json_toks (JObj ms) = LBrace # token_commas (map (\<lambda>(k, v). TStr k # Colon # json_toks v) ms) @ [RBrace]"

definition ends_number :: "string \<Rightarrow> bool" where
  "ends_number r \<longleftrightarrow> r = [] \<or> (\<not> is_digit (hd r) \<and> hd r \<notin> set ''.eE'')"

definition number_literal :: "string \<Rightarrow> bool" where
  "number_literal s \<longleftrightarrow> s \<noteq> [] \<and> (is_digit (hd s) \<or> hd s = CHR ''-'') \<and>
     (\<forall>r. ends_number r \<longrightarrow> scan_number (s @ r) = Some r)"

text \<open>The literals of the value are literals.\<close>

fun printable :: "json \<Rightarrow> bool" where
  "printable (JNum s) = number_literal s"
| "printable (JStr s) = whole_literal s"
| "printable (JArr vs) = list_all printable vs"
| "printable (JObj ms) = list_all (\<lambda>(k, v). whole_literal k \<and> printable v) ms"
| "printable v = True"

definition reads :: "string \<Rightarrow> token list \<Rightarrow> bool" where
  "reads x ts \<longleftrightarrow> (\<forall>r. ends_number r \<longrightarrow> json_tokens (x @ r) = map_option (append ts) (json_tokens r))"

lemma ends_number_simps [simp]:
  "ends_number []" "ends_number (CHR '','' # r)" "ends_number (CHR ''}'' # r)" "ends_number (CHR '']'' # r)"
  by (simp_all add: ends_number_def is_digit_def)

lemma json_tokens_punctuation [simp]:
  "json_tokens (CHR ''{'' # r) = map_option (Cons LBrace) (json_tokens r)"
  "json_tokens (CHR ''}'' # r) = map_option (Cons RBrace) (json_tokens r)"
  "json_tokens (CHR ''['' # r) = map_option (Cons LBracket) (json_tokens r)"
  "json_tokens (CHR '']'' # r) = map_option (Cons RBracket) (json_tokens r)"
  "json_tokens (CHR '':'' # r) = map_option (Cons Colon) (json_tokens r)"
  "json_tokens (CHR '','' # r) = map_option (Cons Comma) (json_tokens r)"
  by (simp_all add: next_token_def is_space_def)

declare json_tokens.simps(2) [simp del]

lemma json_tokens_string:
  "whole_literal s \<Longrightarrow> json_tokens (quote_char # s @ quote_char # r) = map_option (Cons (TStr s)) (json_tokens r)"
  by (simp add: json_tokens.simps(2) next_token_def is_space_def whole_literal_def)

lemma json_tokens_word:
  "json_tokens (''null'' @ r) = map_option (Cons TNull) (json_tokens r)"
  "json_tokens (''true'' @ r) = map_option (Cons (TBool True)) (json_tokens r)"
  "json_tokens (''false'' @ r) = map_option (Cons (TBool False)) (json_tokens r)"
  by (simp_all add: json_tokens.simps(2) next_token_def is_space_def scan_word_def)

lemma json_tokens_number:
  assumes "number_literal s" "ends_number r"
  shows "json_tokens (s @ r) = map_option (Cons (TNum s)) (json_tokens r)"
proof -
  obtain c cs where s: "s = c # cs" and c: "is_digit c \<or> c = CHR ''-''"
    using assms(1) by (cases s) (auto simp: number_literal_def)
  have plain: "\<not> is_space c" "c \<notin> set ''{}[]:,tfn''" "c \<noteq> quote_char"
    using c by (auto simp: is_space_def is_digit_def)
  have "scan_number (c # cs @ r) = Some r" using assms s by (auto simp: number_literal_def)
  then have "next_token c (cs @ r) = Some (TNum s, r)"
    using plain by (simp add: next_token_def s)
  then show ?thesis using plain by (simp add: s json_tokens.simps(2))
qed

lemma reads_commas:
  assumes "\<And>a. a \<in> set as \<Longrightarrow> reads (f a) (g a)"
  shows "reads (commas (map f as)) (token_commas (map g as))"
  using assms
proof (induction as rule: induct_list012)
  case (3 a b as)
  then have "reads (f a) (g a)" "reads (commas (map f (b # as))) (token_commas (map g (b # as)))" by auto
  then show ?case by (auto simp: reads_def option.map_comp comp_def intro!: option.map_cong)
qed (auto simp: reads_def option.map_ident_strong)

lemma reads_text: "printable v \<Longrightarrow> reads (json_text v) (json_toks v)"
proof (induction v rule: json_text.induct)
  case (5 vs)
  then have "reads (commas (map json_text vs)) (token_commas (map json_toks vs))"
    by (intro reads_commas) (auto simp: list_all_iff)
  then show ?case by (auto simp: reads_def option.map_comp comp_def intro!: option.map_cong)
next
  case (6 ms)
  have "reads (case m of (k, v) \<Rightarrow> quote_char # k @ quote_char # CHR '':'' # json_text v)
      (case m of (k, v) \<Rightarrow> TStr k # Colon # json_toks v)" if "m \<in> set ms" for m
  proof -
    obtain k v where m: "m = (k, v)" by (cases m)
    with 6 that have "whole_literal k" "reads (json_text v) (json_toks v)"
      by (auto simp: list_all_iff)
    then show ?thesis using m by (auto simp: reads_def json_tokens_string option.map_comp comp_def intro!: option.map_cong)
  qed
  then have "reads (commas (map (\<lambda>(k, v). quote_char # k @ quote_char # CHR '':'' # json_text v) ms))
      (token_commas (map (\<lambda>(k, v). TStr k # Colon # json_toks v) ms))"
    by (rule reads_commas)
  then show ?case by (auto simp: reads_def option.map_comp comp_def intro!: option.map_cong)
qed (use json_tokens_word json_tokens_number json_tokens_string in \<open>auto simp: reads_def append_single\<close>)

section \<open>Parsing a printed value\<close>

fun json_depth :: "json \<Rightarrow> nat" where
  "json_depth (JArr vs) = Suc (foldr max (map json_depth vs) 0)"
| "json_depth (JObj ms) = Suc (foldr max (map (\<lambda>(k, v). json_depth v) ms) 0)"
| "json_depth v = 0"

lemma foldr_max: "n \<in> set ns \<Longrightarrow> n \<le> foldr max ns (0::nat)"
  by (induction ns) (auto simp: le_max_iff_disj)

definition parses :: "json \<Rightarrow> bool" where
  "parses v \<longleftrightarrow> (\<forall>b st ts. length st + json_depth v \<le> max_depth \<longrightarrow>
     scan_tokens (Want b) st (json_toks v @ ts) = scan_tokens (Have v) st ts)"

lemma parses_elements:
  "vs \<noteq> [] \<Longrightarrow> \<forall>v \<in> set vs. parses v \<and> Suc (length st) + json_depth v \<le> max_depth \<Longrightarrow>
     scan_tokens (Want b) (InArray us # st) (token_commas (map json_toks vs) @ RBracket # ts) =
       scan_tokens (Have (JArr (us @ vs))) st ts"
proof (induction vs arbitrary: b us rule: induct_list012)
  case (2 v)
  then show ?case by (simp add: parses_def scan_step_def scan_after_def)
next
  case (3 v w vs)
  then show ?case using "3.IH"(2) [of False "us @ [v]"] by (simp add: parses_def scan_step_def scan_after_def)
qed simp

lemma parses_members:
  "ms \<noteq> [] \<Longrightarrow> \<forall>(k, v) \<in> set ms. parses v \<and> Suc (length st) + json_depth v \<le> max_depth \<Longrightarrow>
     scan_tokens (WantKey b) (InObject us # st)
       (token_commas (map (\<lambda>(k, v). TStr k # Colon # json_toks v) ms) @ RBrace # ts) =
       scan_tokens (Have (JObj (us @ ms))) st ts"
proof (induction ms arbitrary: b us rule: induct_list012)
  case (2 m)
  then show ?case by (cases m) (simp add: parses_def scan_step_def scan_after_def scan_key_def)
next
  case (3 m n ms)
  then show ?case using "3.IH"(2) [of False "us @ [m]"]
    by (cases m) (simp add: parses_def scan_step_def scan_after_def scan_key_def)
qed simp

lemma depth_element: "v \<in> set vs \<Longrightarrow> Suc (json_depth v) \<le> json_depth (JArr vs)"
  using foldr_max [of "json_depth v" "map json_depth vs"] by simp

lemma depth_member: "(k, v) \<in> set ms \<Longrightarrow> Suc (json_depth v) \<le> json_depth (JObj ms)"
  using foldr_max [of "json_depth v" "map (\<lambda>(k, v). json_depth v) ms"] by force

lemma parses_array:
  assumes "\<forall>v \<in> set vs. parses v"
  shows "parses (JArr vs)"
  unfolding parses_def
proof (intro allI impI)
  fix b :: bool and st :: "frame list" and ts
  assume d: "length st + json_depth (JArr vs) \<le> max_depth"
  then have "\<forall>v \<in> set vs. parses v \<and> Suc (length st) + json_depth v \<le> max_depth"
    using assms depth_element [of _ vs] by fastforce
  then show "scan_tokens (Want b) st (json_toks (JArr vs) @ ts) = scan_tokens (Have (JArr vs)) st ts"
    using d parses_elements [of vs st True "[]"]
    by (cases "vs = []") (simp_all add: scan_step_def scan_value_def)
qed

lemma parses_object:
  assumes "\<forall>(k, v) \<in> set ms. parses v"
  shows "parses (JObj ms)"
  unfolding parses_def
proof (intro allI impI)
  fix b :: bool and st :: "frame list" and ts
  assume d: "length st + json_depth (JObj ms) \<le> max_depth"
  then have "\<forall>(k, v) \<in> set ms. parses v \<and> Suc (length st) + json_depth v \<le> max_depth"
    using assms depth_member [of _ _ ms] by fastforce
  then show "scan_tokens (Want b) st (json_toks (JObj ms) @ ts) = scan_tokens (Have (JObj ms)) st ts"
    using d parses_members [of ms st True "[]"]
    by (cases "ms = []") (simp_all add: scan_step_def scan_value_def scan_key_def)
qed

lemma parses_all: "parses v"
proof (induction v rule: json_text.induct)
  case (5 vs)
  then show ?case by (intro parses_array) simp
next
  case (6 ms)
  then show ?case by (intro parses_object) auto
qed (simp_all add: parses_def scan_step_def scan_value_def)

theorem parse_text:
  assumes "printable v" "json_depth v \<le> max_depth"
  shows "json_parse (json_text v) = Some v"
proof -
  have "json_tokens (json_text v @ []) = map_option (append (json_toks v)) (json_tokens [])"
    using reads_text [OF assms(1)] ends_number_simps(1) unfolding reads_def by blast
  moreover have "scan_tokens (Want False) [] (json_toks v @ []) = scan_tokens (Have v) [] []"
    using parses_all [of v] assms(2) unfolding parses_def by (metis add_0 list.size(3))
  ultimately show ?thesis by (simp add: json_parse_def)
qed

end
