(* ===== verification/Go_Json_Struct.thy ===== *)
theory Go_Json_Struct
  imports Go_Json_Text Go_Time
begin

text \<open>
  How \<open>encoding/json\<close> treats the fields of a struct. A value is decoded by the members of the
  object in their order; the field of a key is the one of that name, or of a name equal to it under
  case folding; \<open>null\<close> leaves a field alone, or clears a pointer. An error is \<open>None\<close>: its text is
  not modelled.
\<close>

section \<open>Decoding\<close>

text \<open>\<open>foldName\<close>, as far as names of ASCII letters are concerned: the long s and the Kelvin sign
  fold to S and K.\<close>

fun fold_name :: "string \<Rightarrow> string" where
  "fold_name [] = []"
| "fold_name (c # cs) =
     (case cs of
        d # e # r \<Rightarrow>
          if [c, d, e] = [CHR 0xE2, CHR 0x84, CHR 0xAA] then CHR ''K'' # fold_name r
          else if [c, d] = [CHR 0xC5, CHR 0xBF] then CHR ''S'' # fold_name (e # r)
          else (if 97 \<le> byte c \<and> byte c \<le> 122 then char_of (byte c - 32) else c) # fold_name cs
      | [d] \<Rightarrow>
          if [c, d] = [CHR 0xC5, CHR 0xBF] then ''S''
          else (if 97 \<le> byte c \<and> byte c \<le> 122 then char_of (byte c - 32) else c) # fold_name cs
      | [] \<Rightarrow> [if 97 \<le> byte c \<and> byte c \<le> 122 then char_of (byte c - 32) else c])"

type_synonym 'a field_decoder = "json \<Rightarrow> 'a \<Rightarrow> 'a option"

definition find_field :: "(string \<times> 'a field_decoder) list \<Rightarrow> string \<Rightarrow> 'a field_decoder option" where
  "find_field fs k =
     (case map_of fs k of
        Some d \<Rightarrow> Some d
      | None \<Rightarrow> map_of (map (\<lambda>(name, d). (fold_name name, d)) fs) (fold_name k))"

fun decode_members :: "(string \<times> 'a field_decoder) list \<Rightarrow> (string \<times> json) list \<Rightarrow> 'a \<Rightarrow> 'a option" where
  "decode_members fs [] r = Some r"
| "decode_members fs ((raw, v) # ms) r =
     (case json_unquote raw of
        None \<Rightarrow> None
      | Some k \<Rightarrow>
          (case find_field fs k of
             None \<Rightarrow> decode_members fs ms r
           | Some d \<Rightarrow> (case d v r of None \<Rightarrow> None | Some r' \<Rightarrow> decode_members fs ms r')))"

definition decode_struct :: "(string \<times> 'a field_decoder) list \<Rightarrow> 'a \<Rightarrow> string \<Rightarrow> 'a option" where
  "decode_struct fs zero s =
     (case json_parse s of
        Some (JObj ms) \<Rightarrow> decode_members fs ms zero
      | Some JNull \<Rightarrow> Some zero
      | _ \<Rightarrow> None)"

text \<open>A field and a pointer field, from the reader of its value and its update.\<close>

definition plain_field :: "(json \<Rightarrow> 'v option) \<Rightarrow> ('v \<Rightarrow> 'a \<Rightarrow> 'a) \<Rightarrow> 'a field_decoder" where
  "plain_field rd upd v r = (if v = JNull then Some r else map_option (\<lambda>x. upd x r) (rd v))"

definition pointer_field :: "(json \<Rightarrow> 'v option) \<Rightarrow> ('v option \<Rightarrow> 'a \<Rightarrow> 'a) \<Rightarrow> 'a field_decoder" where
  "pointer_field rd upd v r = (if v = JNull then Some (upd None r) else map_option (\<lambda>x. upd (Some x) r) (rd v))"

text \<open>\<open>time.Time\<close> decodes the literal as it stands, a type with \<open>UnmarshalText\<close> the string.\<close>

definition read_string :: "json \<Rightarrow> string option" where
  "read_string v = (case v of JStr raw \<Rightarrow> json_unquote raw | _ \<Rightarrow> None)"

definition read_int :: "json \<Rightarrow> int option" where
  "read_int v = (case v of JNum s \<Rightarrow> atoi s | _ \<Rightarrow> None)"

definition read_time :: "json \<Rightarrow> time option" where
  "read_time v = (case v of JStr raw \<Rightarrow> Parse_RFC3339 raw | _ \<Rightarrow> None)"

definition read_text :: "(string \<Rightarrow> 'v option) \<Rightarrow> json \<Rightarrow> 'v option" where
  "read_text parse v = (case read_string v of Some s \<Rightarrow> parse s | None \<Rightarrow> None)"

section \<open>Encoding\<close>

definition json_string :: "string \<Rightarrow> json" where "json_string s = JStr (json_escape s)"
definition json_int :: "int \<Rightarrow> json" where "json_int i = JNum (itoa i)"
definition json_time :: "int \<Rightarrow> time \<Rightarrow> json" where "json_time zone t = JStr (Format_RFC3339Nano zone t)"

text \<open>A field with \<open>omitempty\<close>.\<close>

definition omit_empty :: "string \<Rightarrow> ('v \<Rightarrow> json) \<Rightarrow> 'v option \<Rightarrow> (string \<times> json) list" where
  "omit_empty name f p = (case p of None \<Rightarrow> [] | Some x \<Rightarrow> [(name, f x)])"

text \<open>\<open>Time.MarshalJSON\<close> fails for a year that has not four digits and an offset of a day or more.\<close>

definition two_digits :: "string \<Rightarrow> nat" where
  "two_digits s = digits_value 0 (take 2 s)"

definition time_marshals :: "int \<Rightarrow> time \<Rightarrow> bool" where
  "time_marshals zone t \<longleftrightarrow>
     (let b = Format_RFC3339Nano zone t; z = drop (length b - 6) b
      in b ! 4 = CHR ''-'' \<and> (last b \<noteq> CHR ''Z'' \<longrightarrow> \<not> is_digit (hd z) \<and> two_digits (tl z) < 24))"

section \<open>The literals written\<close>

lemma whole_digits: "list_all is_digit s \<Longrightarrow> whole_literal s"
  by (rule whole_literal_list) (auto simp: list_all_iff is_digit_def)

lemma whole_punctuation: "whole_literal ''-''" "whole_literal '':''" "whole_literal ''T''" "whole_literal ''.''" "whole_literal ''Z''" "whole_literal ''+''"
  by (simp_all add: whole_literal_list)

lemma whole_pad_int: "whole_literal (pad_int w x)"
proof -
  have *: "whole_literal (''-'' @ pad_nat w (nat (- x)))"
    by (intro whole_literal_append whole_punctuation whole_digits pad_nat_digits)
  show ?thesis
  proof (cases "x < 0")
    case True
    then show ?thesis using * by (simp add: pad_int_def)
  next
    case False
    then show ?thesis by (simp add: pad_int_def whole_digits pad_nat_digits)
  qed
qed

lemma whole_zone_text: "whole_literal (zone_text zone)"
  unfolding zone_text_def Let_def
  by (auto intro!: whole_literal_append whole_pad_int whole_punctuation simp del: append_Cons)

lemma whole_nano_text: "whole_literal (nano_text ns)"
proof -
  have "list_all is_digit (dropWhile P (rev (pad_nat 9 (nat ns))))" for P
    using pad_nat_digits [of 9 "nat ns"] by (auto simp: list_all_iff dest: set_dropWhileD)
  then have "whole_literal (''.'' @ rev (dropWhile (\<lambda>c. c = CHR ''0'') (rev (pad_nat 9 (nat ns)))))"
    by (intro whole_literal_append whole_punctuation whole_digits) simp
  then show ?thesis by (simp add: nano_text_def whole_literal_Nil)
qed

lemma whole_json_time: "whole_literal (Format_RFC3339Nano zone t)"
  unfolding Format_RFC3339Nano_def seconds_text_def Let_def
  by (intro whole_literal_append whole_pad_int whole_zone_text whole_nano_text whole_punctuation)

lemma nat_digits_zero: "hd (nat_digits n) = CHR ''0'' \<Longrightarrow> n = 0"
proof (induction n rule: nat_digits.induct)
  case (1 n)
  show ?case
  proof (cases "n < 10")
    case True
    then have "nat_digits n = [digit_char n]" by (simp add: nat_digits.simps [of n])
    with 1(2) have "of_char (digit_char n) = (48 :: nat)" by simp
    then show ?thesis using True by (simp add: of_char_digit_char)
  next
    case False
    then have "nat_digits n = nat_digits (n div 10) @ [digit_char (n mod 10)]" by (simp add: nat_digits.simps [of n])
    with 1(2) have "hd (nat_digits (n div 10)) = CHR ''0''" by (simp add: nat_digits_nonempty)
    from 1(1) [OF False this] False show ?thesis by simp
  qed
qed

lemma ends_number_span:
  assumes "list_all is_digit ds" "ends_number r"
  shows "dropWhile is_digit (ds @ r) = r"
proof -
  have "dropWhile is_digit (ds @ r) = dropWhile is_digit r"
    using assms(1) by (induction ds) simp_all
  also have "\<dots> = r" using assms(2) by (cases r) (simp_all add: ends_number_def)
  finally show ?thesis .
qed

lemma ends_number_tail: "ends_number r \<Longrightarrow> number_fraction r = Some r \<and> number_exponent r = Some r"
  by (auto simp: ends_number_def number_fraction_def number_exponent_def)

lemma scan_nat_digits:
  assumes "ends_number r"
  shows "scan_unsigned (nat_digits n @ r) = Some r"
proof (cases "hd (nat_digits n) = CHR ''0''")
  case True
  then have "nat_digits n = ''0''" using nat_digits_zero [of n] by (simp add: nat_digits.simps [of 0] digit_char_def char_eq_iff)
  then show ?thesis by (simp add: scan_unsigned_def)
next
  case False
  then show ?thesis
    using ends_number_span [OF nat_digits_all_digits assms] nat_digits_hd [of n] nat_digits_nonempty [of n]
    by (simp add: scan_unsigned_def digits_run_def)
qed

lemma number_literal_itoa: "number_literal (itoa i)"
  unfolding number_literal_def
proof (intro conjI allI impI)
  show "itoa i \<noteq> []" "is_digit (hd (itoa i)) \<or> hd (itoa i) = CHR ''-''"
    by (simp_all add: itoa_def nat_digits_nonempty nat_digits_hd)
next
  fix r assume r: "ends_number r"
  have "hd (nat_digits n @ r) \<noteq> CHR ''-''" for n
    using nat_digits_hd [of n] nat_digits_nonempty [of n] sign_not_digit by auto
  then show "scan_number (itoa i @ r) = Some r"
    using scan_nat_digits [OF r] ends_number_tail [OF r] by (simp add: scan_number_def itoa_def nat_digits_nonempty)
qed

lemma printable_literals [simp]:
  "printable (json_string s)" "printable (json_int i)" "printable (json_time zone t)"
  by (simp_all add: json_string_def json_int_def json_time_def whole_json_escape number_literal_itoa whole_json_time)

lemma depth_literals [simp]:
  "json_depth (json_string s) = 0" "json_depth (json_int i) = 0" "json_depth (json_time zone t) = 0"
  by (simp_all add: json_string_def json_int_def json_time_def)

text \<open>A struct with such fields is read back member by member.\<close>

definition flat_member :: "string \<times> json \<Rightarrow> bool" where
  "flat_member m \<longleftrightarrow> whole_literal (fst m) \<and> printable (snd m) \<and> json_depth (snd m) = 0"

lemma decode_text:
  assumes "list_all flat_member ms"
  shows "decode_struct fs zero (json_text (JObj ms)) = decode_members fs ms zero"
proof -
  have "foldr max (map (\<lambda>(k, v). json_depth v) ms) 0 = 0"
    using assms by (induction ms) (auto simp: flat_member_def)
  then have "json_depth (JObj ms) \<le> max_depth" by (simp add: max_depth_def)
  moreover have "printable (JObj ms)"
    using assms by (auto simp: list_all_iff flat_member_def)
  ultimately show ?thesis using parse_text [of "JObj ms"] by (simp add: decode_struct_def)
qed

section \<open>The times written\<close>

definition printable_time :: "int \<Rightarrow> time \<Rightarrow> bool" where
  "printable_time zone t \<longleftrightarrow>
     0 \<le> cv_Year (civil_of zone t) \<and> cv_Year (civil_of zone t) \<le> 9999 \<and> zone mod 60 = 0 \<and> \<bar>zone\<bar> < 86400"

lemma two_digits_pad: "0 \<le> x \<Longrightarrow> x < 100 \<Longrightarrow> two_digits (pad_int 2 x @ s) = nat x"
  by (simp add: two_digits_def pad_int_def pad_nat_length nat_less_iff pad_nat_value)

lemma pad_int_length: "0 \<le> x \<Longrightarrow> x < 10 ^ w \<Longrightarrow> 0 < w \<Longrightarrow> length (pad_int w x) = w"
  by (simp add: pad_int_def pad_nat_length nat_less_iff)

lemma zone_shape:
  assumes "\<bar>zone\<bar> < 86400" "zone \<noteq> 0"
  shows "length (zone_text zone) = 6 \<and> \<not> is_digit (hd (zone_text zone)) \<and> two_digits (tl (zone_text zone)) < 24"
proof -
  define m where "m = \<bar>zone\<bar> div 60"
  have m: "0 \<le> m div 60" "m div 60 < 24" "0 \<le> m mod 60" "m mod 60 < 100"
    using assms(1) by (simp_all add: m_def)
  have len: "length (pad_int 2 (m div 60)) = 2" "length (pad_int 2 (m mod 60)) = 2"
    using m by (auto intro!: pad_int_length)
  define sg where "sg = (if zone < 0 \<and> 0 < m then CHR ''-'' else CHR ''+'')"
  have z: "zone_text zone = sg # pad_int 2 (m div 60) @ '':'' @ pad_int 2 (m mod 60)"
    using assms(2) unfolding zone_text_def Let_def m_def [symmetric] sg_def by simp
  have "two_digits (pad_int 2 (m div 60) @ '':'' @ pad_int 2 (m mod 60)) = nat (m div 60)"
    using m by (intro two_digits_pad) linarith+
  moreover have "nat (m div 60) < 24" using m nat_less_iff [of "m div 60" 24] by linarith
  ultimately show ?thesis using len by (simp add: z sg_def sign_not_digit)
qed

lemma printable_time_marshals:
  assumes "printable_time zone t"
  shows "time_marshals zone t"
proof -
  let ?b = "Format_RFC3339Nano zone t"
  define y where "y = pad_int 4 (cv_Year (civil_of zone t))"
  have y: "length y = 4"
    using assms unfolding y_def by (intro pad_int_length) (simp_all add: printable_time_def)
  obtain p where p: "?b = y @ CHR ''-'' # p"
    by (simp add: Format_RFC3339Nano_def Let_def seconds_text_def y_def)
  obtain q where q: "?b = q @ zone_text zone"
    unfolding Format_RFC3339Nano_def Let_def by (metis append.assoc)
  have "?b ! 4 = CHR ''-''" using y by (simp add: p nth_append)
  moreover have "\<not> is_digit (hd (drop (length ?b - 6) ?b)) \<and> two_digits (tl (drop (length ?b - 6) ?b)) < 24"
    if "last ?b \<noteq> CHR ''Z''"
  proof -
    have "zone \<noteq> 0" using that by (auto simp: q zone_text_def)
    with assms zone_shape [of zone] show ?thesis by (simp add: q printable_time_def)
  qed
  ultimately show ?thesis by (simp add: time_marshals_def Let_def)
qed

lemma read_json_time: "printable_time zone t \<Longrightarrow> read_time (json_time zone t) = Some t"
  by (simp add: read_time_def json_time_def printable_time_def Parse_Format(2))

lemma read_json_string: "valid_utf8 s \<Longrightarrow> read_string (json_string s) = Some s"
  by (simp add: read_string_def json_string_def unquote_escape to_valid_id)

lemma read_json_int: "in_int64 i \<Longrightarrow> read_int (json_int i) = Some i"
  by (simp add: read_int_def json_int_def atoi_itoa)

end
