(* ===== verification/Delivery_Json.thy ===== *)
theory Delivery_Json
  imports Provider Go_Json_Struct
begin

text \<open>
  The JSON of the webhook: the tags of \<open>DeliveryRequest\<close> and \<open>DeliveryResponse\<close> in
  \<open>internal/delivery/provider.go\<close>, written and read as \<open>encoding/json\<close> does.
\<close>

definition delivery_members :: "delivery_request \<Rightarrow> (string \<times> json) list" where
  "delivery_members q =
     [(''to'', json_string (dq_To q)), (''channel'', json_string (dq_Channel q)),
      (''content'', json_string (dq_Content q))] @
     omit_empty ''subject'' json_string (if dq_Subject q = [] then None else Some (dq_Subject q))"

definition Marshal_delivery :: "delivery_request \<Rightarrow> string" where
  "Marshal_delivery q = json_text (JObj (delivery_members q))"

definition response_fields :: "(string \<times> delivery_response field_decoder) list" where
  "response_fields =
     [(''messageId'', plain_field read_string (\<lambda>x. dr_MessageID_update (\<lambda>_. x))),
      (''status'', plain_field read_string (\<lambda>x. dr_Status_update (\<lambda>_. x))),
      (''timestamp'', plain_field read_string (\<lambda>x. dr_Timestamp_update (\<lambda>_. x)))]"

definition Unmarshal_response :: "string \<Rightarrow> string + delivery_response" where
  "Unmarshal_response s =
     (case decode_struct response_fields \<lparr>dr_MessageID = [], dr_Status = [], dr_Timestamp = []\<rparr> s of
        Some r \<Rightarrow> Inr r
      | None \<Rightarrow> Inl ''json: cannot unmarshal'')"

text \<open>The library of \<open>Send\<close>: the JSON of the standard library, and the check of an address.\<close>

definition go_webhook :: "(string \<Rightarrow> string option) \<Rightarrow> webhook_lib" where
  "go_webhook bad_url =
     \<lparr>wl_marshal = (\<lambda>q. Inr (Marshal_delivery q)), wl_unmarshal = Unmarshal_response, wl_request_error = bad_url\<rparr>"

lemma go_webhook_simps [simp]:
  "wl_marshal (go_webhook bad_url) q = Inr (Marshal_delivery q)"
  "wl_unmarshal (go_webhook bad_url) = Unmarshal_response"
  "wl_request_error (go_webhook bad_url) = bad_url"
  by (simp_all add: go_webhook_def)

section \<open>What the other side reads\<close>

text \<open>The request, decoded by its own tags.\<close>

definition request_fields :: "(string \<times> delivery_request field_decoder) list" where
  "request_fields =
     [(''to'', plain_field read_string (\<lambda>x. dq_To_update (\<lambda>_. x))),
      (''channel'', plain_field read_string (\<lambda>x. dq_Channel_update (\<lambda>_. x))),
      (''content'', plain_field read_string (\<lambda>x. dq_Content_update (\<lambda>_. x))),
      (''subject'', plain_field read_string (\<lambda>x. dq_Subject_update (\<lambda>_. x)))]"

definition Unmarshal_delivery :: "string \<Rightarrow> delivery_request option" where
  "Unmarshal_delivery s =
     decode_struct request_fields \<lparr>dq_To = [], dq_Channel = [], dq_Content = [], dq_Subject = []\<rparr> s"

lemma delivery_keys:
  "json_unquote ''to'' = Some ''to''" "json_unquote ''channel'' = Some ''channel''"
  "json_unquote ''content'' = Some ''content''" "json_unquote ''subject'' = Some ''subject''"
  by (simp_all add: json_unquote.simps(2))

lemma found_delivery_fields:
  "find_field request_fields ''to'' = Some (plain_field read_string (\<lambda>x. dq_To_update (\<lambda>_. x)))"
  "find_field request_fields ''channel'' = Some (plain_field read_string (\<lambda>x. dq_Channel_update (\<lambda>_. x)))"
  "find_field request_fields ''content'' = Some (plain_field read_string (\<lambda>x. dq_Content_update (\<lambda>_. x)))"
  "find_field request_fields ''subject'' = Some (plain_field read_string (\<lambda>x. dq_Subject_update (\<lambda>_. x)))"
  by (simp_all add: find_field_def request_fields_def)

definition delivery_safe :: "delivery_request \<Rightarrow> bool" where
  "delivery_safe q \<longleftrightarrow> valid_utf8 (dq_To q) \<and> valid_utf8 (dq_Channel q) \<and> valid_utf8 (dq_Content q) \<and> valid_utf8 (dq_Subject q)"

lemma flat_delivery: "list_all flat_member (delivery_members q)"
  by (simp add: delivery_members_def omit_empty_def flat_member_def whole_literal_list split: option.split)

theorem delivery_roundtrip: "delivery_safe q \<Longrightarrow> Unmarshal_delivery (Marshal_delivery q) = Some q"
proof -
  assume q: "delivery_safe q"
  have nn: "json_string s \<noteq> JNull" for s by (simp add: json_string_def)
  have "decode_members request_fields (delivery_members q)
      \<lparr>dq_To = [], dq_Channel = [], dq_Content = [], dq_Subject = []\<rparr> = Some q"
    using q by (simp add: delivery_safe_def delivery_members_def omit_empty_def delivery_keys found_delivery_fields
        plain_field_def read_json_string nn)
  then show ?thesis
    using decode_text [OF flat_delivery, of request_fields] by (simp add: Unmarshal_delivery_def Marshal_delivery_def)
qed

end
