(* ===== verification/Notification_Json.thy ===== *)
theory Notification_Json
  imports Go_Json_Struct Model_Notification
begin

text \<open>
  The JSON of a notification, which is the body of its message: the fields and their tags in
  \<open>internal/model/notification.go\<close>, written and read as \<open>encoding/json\<close> does. The text of a
  \<open>uuid.UUID\<close> is the third-party package's: \<open>uuid_codec\<close> holds its \<open>MarshalText\<close> and
  \<open>UnmarshalText\<close>. A time is an instant: \<open>zone\<close> tells the offset its location has there, for
  each field.
\<close>

record uuid_codec =
  uuid_text :: "uuid \<Rightarrow> string"
  uuid_parse :: "string \<Rightarrow> uuid option"

type_synonym zones = "notification \<Rightarrow> string \<Rightarrow> int"

definition uuid_json :: "uuid_codec \<Rightarrow> uuid \<Rightarrow> json" where
  "uuid_json u i = json_string (uuid_text u i)"

section \<open>Marshal\<close>

definition notification_members :: "uuid_codec \<Rightarrow> zones \<Rightarrow> notification \<Rightarrow> (string \<times> json) list" where
  "notification_members u zone n =
     [(''id'', uuid_json u (n_ID n))] @
     omit_empty ''batch_id'' (uuid_json u) (n_BatchID n) @
     omit_empty ''idempotency_key'' json_string (n_IdempotencyKey n) @
     [(''recipient'', json_string (n_Recipient n)), (''channel'', json_string (n_Channel n)),
      (''content'', json_string (n_Content n))] @
     omit_empty ''subject'' json_string (n_Subject n) @
     [(''priority'', json_string (n_Priority n)), (''status'', json_string (n_Status n))] @
     omit_empty ''provider_message_id'' json_string (n_ProviderMsgID n) @
     [(''retry_count'', json_int (n_RetryCount n)), (''max_retries'', json_int (n_MaxRetries n))] @
     omit_empty ''last_error'' json_string (n_LastError n) @
     omit_empty ''scheduled_at'' (json_time (zone n ''scheduled_at'')) (n_ScheduledAt n) @
     omit_empty ''sent_at'' (json_time (zone n ''sent_at'')) (n_SentAt n) @
     [(''created_at'', json_time (zone n ''created_at'') (n_CreatedAt n)),
      (''updated_at'', json_time (zone n ''updated_at'') (n_UpdatedAt n))]"

text \<open>The only errors are those of the times.\<close>

definition times_marshal :: "zones \<Rightarrow> notification \<Rightarrow> bool" where
  "times_marshal zone n \<longleftrightarrow>
     (\<forall>t. n_ScheduledAt n = Some t \<longrightarrow> time_marshals (zone n ''scheduled_at'') t) \<and>
     (\<forall>t. n_SentAt n = Some t \<longrightarrow> time_marshals (zone n ''sent_at'') t) \<and>
     time_marshals (zone n ''created_at'') (n_CreatedAt n) \<and>
     time_marshals (zone n ''updated_at'') (n_UpdatedAt n)"

definition Marshal_notification :: "uuid_codec \<Rightarrow> zones \<Rightarrow> notification \<Rightarrow> string + string" where
  "Marshal_notification u zone n =
     (if times_marshal zone n then Inr (json_text (JObj (notification_members u zone n)))
      else Inl ''json: error calling MarshalJSON for type time.Time'')"

section \<open>Unmarshal\<close>

definition notification_fields :: "uuid_codec \<Rightarrow> (string \<times> notification field_decoder) list" where
  "notification_fields u =
     [(''id'', plain_field (read_text (uuid_parse u)) (\<lambda>x. n_ID_update (\<lambda>_. x))),
      (''batch_id'', pointer_field (read_text (uuid_parse u)) (\<lambda>x. n_BatchID_update (\<lambda>_. x))),
      (''idempotency_key'', pointer_field read_string (\<lambda>x. n_IdempotencyKey_update (\<lambda>_. x))),
      (''recipient'', plain_field read_string (\<lambda>x. n_Recipient_update (\<lambda>_. x))),
      (''channel'', plain_field read_string (\<lambda>x. n_Channel_update (\<lambda>_. x))),
      (''content'', plain_field read_string (\<lambda>x. n_Content_update (\<lambda>_. x))),
      (''subject'', pointer_field read_string (\<lambda>x. n_Subject_update (\<lambda>_. x))),
      (''priority'', plain_field read_string (\<lambda>x. n_Priority_update (\<lambda>_. x))),
      (''status'', plain_field read_string (\<lambda>x. n_Status_update (\<lambda>_. x))),
      (''provider_message_id'', pointer_field read_string (\<lambda>x. n_ProviderMsgID_update (\<lambda>_. x))),
      (''retry_count'', plain_field read_int (\<lambda>x. n_RetryCount_update (\<lambda>_. x))),
      (''max_retries'', plain_field read_int (\<lambda>x. n_MaxRetries_update (\<lambda>_. x))),
      (''last_error'', pointer_field read_string (\<lambda>x. n_LastError_update (\<lambda>_. x))),
      (''scheduled_at'', pointer_field read_time (\<lambda>x. n_ScheduledAt_update (\<lambda>_. x))),
      (''sent_at'', pointer_field read_time (\<lambda>x. n_SentAt_update (\<lambda>_. x))),
      (''created_at'', plain_field read_time (\<lambda>x. n_CreatedAt_update (\<lambda>_. x))),
      (''updated_at'', plain_field read_time (\<lambda>x. n_UpdatedAt_update (\<lambda>_. x)))]"

definition Unmarshal_notification :: "uuid_codec \<Rightarrow> string \<Rightarrow> string + notification" where
  "Unmarshal_notification u s =
     (case decode_struct (notification_fields u) zero_notification s of
        Some n \<Rightarrow> Inr n
      | None \<Rightarrow> Inl ''json: cannot unmarshal'')"

section \<open>Round trip\<close>

text \<open>What the two directions need: text in UTF-8, integers of the machine, four-digit years and
  whole minutes in the offsets, and a text of a UUID that is read back.\<close>

definition good_uuid :: "uuid_codec \<Rightarrow> uuid \<Rightarrow> bool" where
  "good_uuid u i \<longleftrightarrow> valid_utf8 (uuid_text u i) \<and> uuid_parse u (uuid_text u i) = Some i"

definition json_safe :: "uuid_codec \<Rightarrow> zones \<Rightarrow> notification \<Rightarrow> bool" where
  "json_safe u zone n \<longleftrightarrow>
     good_uuid u (n_ID n) \<and> pred_option (good_uuid u) (n_BatchID n) \<and>
     pred_option valid_utf8 (n_IdempotencyKey n) \<and> valid_utf8 (n_Recipient n) \<and> valid_utf8 (n_Channel n) \<and>
     valid_utf8 (n_Content n) \<and> pred_option valid_utf8 (n_Subject n) \<and> valid_utf8 (n_Priority n) \<and>
     valid_utf8 (n_Status n) \<and> pred_option valid_utf8 (n_ProviderMsgID n) \<and> in_int64 (n_RetryCount n) \<and>
     in_int64 (n_MaxRetries n) \<and> pred_option valid_utf8 (n_LastError n) \<and>
     pred_option (printable_time (zone n ''scheduled_at'')) (n_ScheduledAt n) \<and>
     pred_option (printable_time (zone n ''sent_at'')) (n_SentAt n) \<and>
     printable_time (zone n ''created_at'') (n_CreatedAt n) \<and> printable_time (zone n ''updated_at'') (n_UpdatedAt n)"

lemma read_uuid_json: "good_uuid u i \<Longrightarrow> read_text (uuid_parse u) (uuid_json u i) = Some i"
  by (simp add: read_text_def uuid_json_def good_uuid_def read_json_string)

lemmas read_json = read_json_string read_uuid_json read_json_int read_json_time

lemma json_not_null [simp]: "json_string s \<noteq> JNull" "uuid_json u i \<noteq> JNull" "json_int x \<noteq> JNull" "json_time z t \<noteq> JNull"
  by (simp_all add: json_string_def uuid_json_def json_int_def json_time_def)

text \<open>One member at a time.\<close>

lemma plain_keys:
  "json_unquote ''id'' = Some ''id''"
  "json_unquote ''batch_id'' = Some ''batch_id''"
  "json_unquote ''idempotency_key'' = Some ''idempotency_key''"
  "json_unquote ''recipient'' = Some ''recipient''"
  "json_unquote ''channel'' = Some ''channel''"
  "json_unquote ''content'' = Some ''content''"
  "json_unquote ''subject'' = Some ''subject''"
  "json_unquote ''priority'' = Some ''priority''"
  "json_unquote ''status'' = Some ''status''"
  "json_unquote ''provider_message_id'' = Some ''provider_message_id''"
  "json_unquote ''retry_count'' = Some ''retry_count''"
  "json_unquote ''max_retries'' = Some ''max_retries''"
  "json_unquote ''last_error'' = Some ''last_error''"
  "json_unquote ''scheduled_at'' = Some ''scheduled_at''"
  "json_unquote ''sent_at'' = Some ''sent_at''"
  "json_unquote ''created_at'' = Some ''created_at''"
  "json_unquote ''updated_at'' = Some ''updated_at''"
  by (simp_all add: json_unquote.simps(2))

lemma found_fields:
  "find_field (notification_fields u) ''id'' = Some (plain_field (read_text (uuid_parse u)) (\<lambda>x. n_ID_update (\<lambda>_. x)))"
  "find_field (notification_fields u) ''batch_id'' = Some (pointer_field (read_text (uuid_parse u)) (\<lambda>x. n_BatchID_update (\<lambda>_. x)))"
  "find_field (notification_fields u) ''idempotency_key'' = Some (pointer_field read_string (\<lambda>x. n_IdempotencyKey_update (\<lambda>_. x)))"
  "find_field (notification_fields u) ''recipient'' = Some (plain_field read_string (\<lambda>x. n_Recipient_update (\<lambda>_. x)))"
  "find_field (notification_fields u) ''channel'' = Some (plain_field read_string (\<lambda>x. n_Channel_update (\<lambda>_. x)))"
  "find_field (notification_fields u) ''content'' = Some (plain_field read_string (\<lambda>x. n_Content_update (\<lambda>_. x)))"
  "find_field (notification_fields u) ''subject'' = Some (pointer_field read_string (\<lambda>x. n_Subject_update (\<lambda>_. x)))"
  "find_field (notification_fields u) ''priority'' = Some (plain_field read_string (\<lambda>x. n_Priority_update (\<lambda>_. x)))"
  "find_field (notification_fields u) ''status'' = Some (plain_field read_string (\<lambda>x. n_Status_update (\<lambda>_. x)))"
  "find_field (notification_fields u) ''provider_message_id'' = Some (pointer_field read_string (\<lambda>x. n_ProviderMsgID_update (\<lambda>_. x)))"
  "find_field (notification_fields u) ''retry_count'' = Some (plain_field read_int (\<lambda>x. n_RetryCount_update (\<lambda>_. x)))"
  "find_field (notification_fields u) ''max_retries'' = Some (plain_field read_int (\<lambda>x. n_MaxRetries_update (\<lambda>_. x)))"
  "find_field (notification_fields u) ''last_error'' = Some (pointer_field read_string (\<lambda>x. n_LastError_update (\<lambda>_. x)))"
  "find_field (notification_fields u) ''scheduled_at'' = Some (pointer_field read_time (\<lambda>x. n_ScheduledAt_update (\<lambda>_. x)))"
  "find_field (notification_fields u) ''sent_at'' = Some (pointer_field read_time (\<lambda>x. n_SentAt_update (\<lambda>_. x)))"
  "find_field (notification_fields u) ''created_at'' = Some (plain_field read_time (\<lambda>x. n_CreatedAt_update (\<lambda>_. x)))"
  "find_field (notification_fields u) ''updated_at'' = Some (plain_field read_time (\<lambda>x. n_UpdatedAt_update (\<lambda>_. x)))"
  by (simp_all add: find_field_def notification_fields_def)

lemmas decode_one = plain_keys found_fields plain_field_def pointer_field_def read_json

lemma decode_text_fields:
  "valid_utf8 s \<Longrightarrow> decode_members (notification_fields u) ((''recipient'', json_string s) # ms) r =
     decode_members (notification_fields u) ms (r\<lparr>n_Recipient := s\<rparr>)"
  "valid_utf8 s \<Longrightarrow> decode_members (notification_fields u) ((''channel'', json_string s) # ms) r =
     decode_members (notification_fields u) ms (r\<lparr>n_Channel := s\<rparr>)"
  "valid_utf8 s \<Longrightarrow> decode_members (notification_fields u) ((''content'', json_string s) # ms) r =
     decode_members (notification_fields u) ms (r\<lparr>n_Content := s\<rparr>)"
  "valid_utf8 s \<Longrightarrow> decode_members (notification_fields u) ((''priority'', json_string s) # ms) r =
     decode_members (notification_fields u) ms (r\<lparr>n_Priority := s\<rparr>)"
  "valid_utf8 s \<Longrightarrow> decode_members (notification_fields u) ((''status'', json_string s) # ms) r =
     decode_members (notification_fields u) ms (r\<lparr>n_Status := s\<rparr>)"
  by (simp_all add: decode_one)

lemma decode_other_fields:
  "good_uuid u i \<Longrightarrow> decode_members (notification_fields u) ((''id'', uuid_json u i) # ms) r =
     decode_members (notification_fields u) ms (r\<lparr>n_ID := i\<rparr>)"
  "in_int64 x \<Longrightarrow> decode_members (notification_fields u) ((''retry_count'', json_int x) # ms) r =
     decode_members (notification_fields u) ms (r\<lparr>n_RetryCount := x\<rparr>)"
  "in_int64 x \<Longrightarrow> decode_members (notification_fields u) ((''max_retries'', json_int x) # ms) r =
     decode_members (notification_fields u) ms (r\<lparr>n_MaxRetries := x\<rparr>)"
  "printable_time z t \<Longrightarrow> decode_members (notification_fields u) ((''created_at'', json_time z t) # ms) r =
     decode_members (notification_fields u) ms (r\<lparr>n_CreatedAt := t\<rparr>)"
  "printable_time z t \<Longrightarrow> decode_members (notification_fields u) ((''updated_at'', json_time z t) # ms) r =
     decode_members (notification_fields u) ms (r\<lparr>n_UpdatedAt := t\<rparr>)"
  by (simp_all add: decode_one)

lemma keep_none:
  "n_BatchID r = None \<Longrightarrow> r\<lparr>n_BatchID := None\<rparr> = r"
  "n_IdempotencyKey r = None \<Longrightarrow> r\<lparr>n_IdempotencyKey := None\<rparr> = r"
  "n_Subject r = None \<Longrightarrow> r\<lparr>n_Subject := None\<rparr> = r"
  "n_ProviderMsgID r = None \<Longrightarrow> r\<lparr>n_ProviderMsgID := None\<rparr> = r"
  "n_LastError r = None \<Longrightarrow> r\<lparr>n_LastError := None\<rparr> = r"
  "n_ScheduledAt r = None \<Longrightarrow> r\<lparr>n_ScheduledAt := None\<rparr> = r"
  "n_SentAt r = None \<Longrightarrow> r\<lparr>n_SentAt := None\<rparr> = r"
  by (cases r; simp)+

lemma decode_pointer_fields:
  "pred_option (good_uuid u) b \<Longrightarrow> n_BatchID r = None \<Longrightarrow>
     decode_members (notification_fields u) (omit_empty ''batch_id'' (uuid_json u) b @ ms) r =
     decode_members (notification_fields u) ms (r\<lparr>n_BatchID := b\<rparr>)"
  "pred_option valid_utf8 p \<Longrightarrow> n_IdempotencyKey r = None \<Longrightarrow>
     decode_members (notification_fields u) (omit_empty ''idempotency_key'' json_string p @ ms) r =
     decode_members (notification_fields u) ms (r\<lparr>n_IdempotencyKey := p\<rparr>)"
  "pred_option valid_utf8 p \<Longrightarrow> n_Subject r = None \<Longrightarrow>
     decode_members (notification_fields u) (omit_empty ''subject'' json_string p @ ms) r =
     decode_members (notification_fields u) ms (r\<lparr>n_Subject := p\<rparr>)"
  "pred_option valid_utf8 p \<Longrightarrow> n_ProviderMsgID r = None \<Longrightarrow>
     decode_members (notification_fields u) (omit_empty ''provider_message_id'' json_string p @ ms) r =
     decode_members (notification_fields u) ms (r\<lparr>n_ProviderMsgID := p\<rparr>)"
  "pred_option valid_utf8 p \<Longrightarrow> n_LastError r = None \<Longrightarrow>
     decode_members (notification_fields u) (omit_empty ''last_error'' json_string p @ ms) r =
     decode_members (notification_fields u) ms (r\<lparr>n_LastError := p\<rparr>)"
  "pred_option (printable_time z) t \<Longrightarrow> n_ScheduledAt r = None \<Longrightarrow>
     decode_members (notification_fields u) (omit_empty ''scheduled_at'' (json_time z) t @ ms) r =
     decode_members (notification_fields u) ms (r\<lparr>n_ScheduledAt := t\<rparr>)"
  "pred_option (printable_time z) t \<Longrightarrow> n_SentAt r = None \<Longrightarrow>
     decode_members (notification_fields u) (omit_empty ''sent_at'' (json_time z) t @ ms) r =
     decode_members (notification_fields u) ms (r\<lparr>n_SentAt := t\<rparr>)"
  by (auto simp: omit_empty_def decode_one keep_none split: option.split)

lemma decode_notification_members:
  assumes "json_safe u zone n"
  shows "decode_members (notification_fields u) (notification_members u zone n) zero_notification = Some n"
  using assms
  by (simp add: json_safe_def notification_members_def decode_text_fields decode_other_fields decode_pointer_fields
      zero_notification_def del: decode_members.simps(2))

lemma flat_omit: "whole_literal k \<Longrightarrow> (\<And>x. flat_member (k, f x)) \<Longrightarrow> list_all flat_member (omit_empty k f p)"
  by (simp add: omit_empty_def split: option.split)

lemma flat_uuid [simp]: "printable (uuid_json u i)" "json_depth (uuid_json u i) = 0"
  by (simp_all add: uuid_json_def)

lemma flat_members: "list_all flat_member (notification_members u zone n)"
  by (simp add: notification_members_def flat_omit flat_member_def whole_literal_list)

text \<open>C7. The message of a notification is decoded to the same notification.\<close>

theorem notification_roundtrip:
  assumes "json_safe u zone n"
  shows "\<exists>b. Marshal_notification u zone n = Inr b \<and> Unmarshal_notification u b = Inr n"
proof -
  have "times_marshal zone n"
    using assms printable_time_marshals by (auto simp: json_safe_def times_marshal_def)
  then show ?thesis
    using decode_notification_members [OF assms] decode_text [OF flat_members, of "notification_fields u"]
    by (simp add: Marshal_notification_def Unmarshal_notification_def)
qed

end
