(* ===== verification/End_To_End.thy ===== *)
theory End_To_End
  imports Consumer_Runs Delivery_Json Notification_Json
begin

text \<open>
  From the publisher to the webhook, with the JSON of the standard library on both sides of the
  queue: the message the worker decodes is the notification that was published, and the request
  it makes carries that notification.
\<close>

section \<open>The codec of the messages\<close>

definition go_codec :: "uuid_codec \<Rightarrow> zones \<Rightarrow> json_codec" where
  "go_codec u zone = \<lparr>marshal = Marshal_notification u zone, unmarshal = Unmarshal_notification u\<rparr>"

text \<open>What the two ends of the queue rely on, for the notifications that satisfy \<open>ok\<close>.\<close>

locale message_codec =
  fixes codec :: json_codec and ok :: "notification \<Rightarrow> bool"
  assumes decodes: "ok n \<Longrightarrow> marshal codec n = Inr b \<Longrightarrow> unmarshal codec b = Inr n"
    and encodes_ok: "ok n \<Longrightarrow> \<exists>b. marshal codec n = Inr b"
begin

lemma carried: "ok n \<Longrightarrow> carries_notification codec cfg n m \<Longrightarrow> unmarshal codec (p_Body m) = Inr n"
  using decodes by (simp add: carries_notification_def)

lemma publish_decodes:
  assumes "ok n" "run_state (rabbitPublisher_Publish codec cfg n) s = (None, s')" "amqp_log s' = amqp_log s @ [Publish m]"
  shows "unmarshal codec (p_Body m) = Inr n"
  using run_Publish [OF assms(2)] assms(3) carried [OF assms(1)] by auto

end

interpretation go_json: message_codec "go_codec u zone" "json_safe u zone" for u and zone
proof unfold_locales
  fix n b assume "json_safe u zone n" "marshal (go_codec u zone) n = Inr b"
  then show "unmarshal (go_codec u zone) b = Inr n"
    using notification_roundtrip [of u zone n] by (auto simp: go_codec_def)
next
  fix n assume "json_safe u zone n"
  then show "\<exists>b. marshal (go_codec u zone) n = Inr b"
    using notification_roundtrip [of u zone n] by (auto simp: go_codec_def)
qed

section \<open>The requests of a delivery\<close>

lemma keeps_web_side_increment: "keeps web_side (notificationRepo_IncrementRetry i e)"
  unfolding notificationRepo_IncrementRetry_def by (intro frame keeps_web_side)+

lemma keeps_web_side_failure: "keeps web_side (handleFailure (worker_consumer lib codec conv c) msg n e)"
  unfolding handleFailure_def Let_def worker_consumer_parts notificationRepo_def
  by (simp, intro frame keeps_web_side repo_keeps_web_side keeps_web_side_increment conjI impI)

text \<open>Exactly the 2xx replies are successes.\<close>

definition accepted_reply :: "http_outcome \<Rightarrow> bool" where
  "accepted_reply reply = (case reply of Response code body \<Rightarrow> 200 \<le> code \<and> code < 300 | _ \<Rightarrow> False)"

lemma Send_request:
  assumes "run_state (webhookProvider_Send (go_webhook bad_url) url q) s = (r, s')" "bad_url url = None"
  shows "web_requests s' = web_requests s @ [(url, Marshal_delivery q)]" "web_reply s' = web_reply s"
    "(\<exists>resp. r = Inr resp) \<longleftrightarrow> accepted_reply (web_reply s (length (web_requests s)))"
  using assms
  by (auto simp: webhookProvider_Send_def read_reply_def accepted_reply_def split: http_outcome.splits sum.splits if_splits)

lemma deliver_requests:
  assumes "run_state (deliver (worker_consumer (go_webhook bad_url) codec conv c) msg n) s = (x, s')"
    "bad_url (prov_WebhookURL (c_Provider c)) = None"
  shows "web_requests s' = web_requests s @ [(prov_WebhookURL (c_Provider c), Marshal_delivery (delivery_of n))]"
proof -
  let ?con = "worker_consumer (go_webhook bad_url) codec conv c" and ?url = "prov_WebhookURL (c_Provider c)"
  obtain t0 s0 where t0: "run_state time_Now s = (t0, s0)" by fastforce
  obtain r s2 where p: "run_state (webhookProvider_Send (go_webhook bad_url) ?url (delivery_of n)) s0 = (r, s2)" by fastforce
  obtain t3 s3 where t3: "run_state time_Now s2 = (t3, s3)" by fastforce
  have s0: "web_side s0 = web_side s" "web_side s3 = web_side s2"
    using keepsE [OF keeps_web_side(3) t0] keepsE [OF keeps_web_side(3) t3] by simp_all
  have "web_side s' = web_side s3"
  proof (cases r)
    case (Inl e)
    then have "run_state (handleFailure ?con msg n e) s3 = (x, s')"
      using assms(1) t0 p t3 by (simp add: deliver_def NewWebhookProvider_def del: run_time_Now)
    from keepsE [OF keeps_web_side_failure this] show ?thesis .
  next
    case (Inr resp)
    obtain r4 s4 where u: "run_state (notificationRepo_UpdateStatus (n_ID n) StatusSent (Some (dr_MessageID resp)) None) s3 = (r4, s4)"
      by fastforce
    obtain r5 s5 where a: "run_state (amqp_do (Ack (d_Tag msg))) s4 = (r5, s5)" by fastforce
    have "s' = s5" using assms(1) t0 p t3 u a Inr
      by (simp add: deliver_def NewWebhookProvider_def notificationRepo_def del: run_time_Now)
    then show ?thesis using keepsE [OF repo_keeps_web_side(2) u] keepsE [OF keeps_web_side(5) a] by simp
  qed
  then show ?thesis using Send_request(1) [OF p assms(2)] s0 by (simp add: web_side_def)
qed

section \<open>From the publisher to the webhook\<close>

lemma delivery_safe_of: "json_safe u zone n \<Longrightarrow> delivery_safe (delivery_of n)"
  by (auto simp: json_safe_def delivery_safe_def delivery_of_def split: option.split)

text \<open>C6. A notification that was published reaches the webhook as it was: a worker that processes
  the message, in whatever state its database and its limiter are, never takes it for
  undecodable; either the shutdown interrupts it before the request and the message goes back
  to the queue, or exactly one request is made, whose body the receiver decodes to the
  recipient, channel, content and subject of the notification, and the message is acknowledged
  exactly when the reply is a 2xx.\<close>

theorem message_reaches_webhook:
  fixes w :: "'b web_scheme"
  assumes "run_state (rabbitPublisher_Publish (go_codec u zone) cfg n) s = (None, s')"
    "json_safe u zone n" "amqp_log s' = amqp_log s @ [Publish m]" "d_Body msg = p_Body m"
    "run_state (processMessage fuel (worker_consumer (go_webhook bad_url) (go_codec u zone) conv c) msg ch) w = (Some (), w')"
    "bad_url (prov_WebhookURL (c_Provider c)) = None"
  shows "\<exists>call. settled w w' call \<and>
    (call = Nack (d_Tag msg) True \<and> web_requests w' = web_requests w \<or>
     (\<exists>body. web_requests w' = web_requests w @ [(prov_WebhookURL (c_Provider c), body)] \<and>
        Unmarshal_delivery body = Some (delivery_of n) \<and>
        (call = Ack (d_Tag msg) \<longleftrightarrow> accepted_reply (web_reply w (length (web_requests w))))))"
proof -
  let ?con = "worker_consumer (go_webhook bad_url) (go_codec u zone) conv c :: ('b web_scheme) consumer"
  have n: "unmarshal (con_codec ?con) (d_Body msg) = Inr n"
    using go_json.publish_decodes [OF assms(2,1,3)] assms(4) by simp
  show ?thesis
    using assms(5)
  proof (cases rule: pg_consumer.process_cases)
    case (bad e)
    with n show ?thesis by simp
  next
    case (stopped n' n1 s3)
    then show ?thesis by (intro exI [of _ "Nack (d_Tag msg) True"]) (simp add: web_side_def)
  next
    case (delivered n' n1 s3)
    with n have n1: "delivery_of n1 = delivery_of n" "web_side s3 = web_side w" "broker s3 = broker w"
      by (auto simp: pg_consumer.before_delivery_def)
    obtain s1 :: "'b web_scheme" and r s2 where p: "run_state (prov_Send (con_provider ?con) (delivery_of n1)) s1 = (r, s2)"
        "web_side s1 = web_side s3"
      and st: "settled s3 w' (settlement (w_MaxRetries (con_workerCfg ?con)) (d_Tag msg) (n_RetryCount n1) r)"
      by (rule pg_consumer.deliver_run [OF delivered(3)]) (rule that; assumption)
    have "(\<exists>resp. r = Inr resp) \<longleftrightarrow> accepted_reply (web_reply w (length (web_requests w)))"
      using Send_request(3) [of bad_url _ _ s1 r s2] p n1(2) assms(6) by (simp add: NewWebhookProvider_def web_side_def)
    then have "settlement (w_MaxRetries (con_workerCfg ?con)) (d_Tag msg) (n_RetryCount n1) r = Ack (d_Tag msg) \<longleftrightarrow>
        accepted_reply (web_reply w (length (web_requests w)))"
      by (auto simp: settlement_def split: sum.split)
    moreover have "Unmarshal_delivery (Marshal_delivery (delivery_of n)) = Some (delivery_of n)"
      using delivery_roundtrip [OF delivery_safe_of [OF assms(2)]] .
    moreover have "settled w w' call \<longleftrightarrow> settled s3 w' call" for call
      using n1(3) by (simp add: settled_def broker_def)
    ultimately show ?thesis
      using deliver_requests [OF delivered(3) assms(6)] n1 st by (auto simp: web_side_def)
  qed
qed

section \<open>A message\<close>

text \<open>UUIDs in decimal, for an example.\<close>

definition decimal_uuid :: uuid_codec where
  "decimal_uuid = \<lparr>uuid_text = (\<lambda>i. nat_digits (unat i)), uuid_parse = (\<lambda>s. map_option of_int (atoi s))\<rparr>"

definition utc :: zones where "utc n field = 0"

lemma sample_json_safe: "json_safe decimal_uuid utc (sample 7 st)" if "valid_utf8 st"
proof -
  have "valid_utf8 (nat_digits 7)"
    using nat_digits_all_digits [of 7] by (intro valid_utf8_ascii) (auto simp: list_all_iff is_digit_def)
  moreover have "atoi (nat_digits 7) = Some 7" using atoi_itoa [of 7] by (simp add: in_int64_def itoa_def)
  ultimately have "good_uuid decimal_uuid 7" by (simp add: good_uuid_def decimal_uuid_def)
  moreover have "cv_Year (civil_of 0 zero_Time) = 1" "cv_Year (civil_of 0 0) = 1970" by code_simp+
  ultimately show ?thesis using that
    by (simp add: json_safe_def sample_def zero_notification_def in_int64_def printable_time_def utc_def
        rune_size_ascii channel_defs priority_defs)
qed

definition the_codec :: json_codec where "the_codec = go_codec decimal_uuid utc"

definition the_publishing :: publishing where
  "the_publishing = hd (published (amqp_log (run_final (rabbitPublisher_Publish the_codec default_rabbitmq (sample 7 StatusPending)) calm_amqp)))"

definition the_message :: amqp_delivery where "the_message = \<lparr>d_Tag = 1, d_Body = p_Body the_publishing\<rparr>"

definition the_worker :: "('a web_scheme) consumer" where
  "the_worker = worker_consumer (go_webhook (\<lambda>_. None)) the_codec (\<lambda>_ _. 0) default_config"

theorem notification_roundtrip_witness:
  "\<exists>b. Marshal_notification decimal_uuid utc (sample 7 StatusPending) = Inr b \<and>
     Unmarshal_notification decimal_uuid b = Inr (sample 7 StatusPending)"
  using notification_roundtrip [OF sample_json_safe] by (simp add: StatusPending_def rune_size_ascii)

lemma the_publishing_run:
  "\<exists>s'. run_state (rabbitPublisher_Publish the_codec default_rabbitmq (sample 7 StatusPending)) calm_amqp = (None, s') \<and>
     amqp_log s' = amqp_log calm_amqp @ [Publish the_publishing]"
proof -
  have "json_safe decimal_uuid utc (sample 7 StatusPending)"
    by (rule sample_json_safe) (simp add: StatusPending_def rune_size_ascii)
  from go_json.encodes_ok [OF this] obtain b where "marshal the_codec (sample 7 StatusPending) = Inr b"
    by (auto simp: the_codec_def)
  then show ?thesis
    by (auto simp: the_publishing_def rabbitPublisher_Publish_def Let_def amqp_do_cases calm_amqp_def)
qed

lemma the_worker_run:
  "run_state (processMessage 1 the_worker the_message ''push'') (world (\<lambda>_. Response 200 ''id'') [sample 7 StatusQueued]) =
     (Some (), run_final (processMessage 1 the_worker the_message ''push'') (world (\<lambda>_. Response 200 ''id'') [sample 7 StatusQueued]))"
proof -
  show ?thesis
    by (cases "Unmarshal_notification decimal_uuid (d_Body the_message)")
      (simp_all add: consume_run the_worker_def the_codec_def go_codec_def prod_eq_iff split: sum.split)
qed

theorem message_reaches_webhook_witness:
  "let w = world (\<lambda>_. Response 200 ''id'') [sample 7 StatusQueued]; w' = run_final (processMessage 1 the_worker the_message ''push'') w
   in \<exists>call. settled w w' call \<and>
     (call = Nack 1 True \<or> (\<exists>url body. web_requests w' = [(url, body)] \<and> call = Ack 1 \<and>
        Unmarshal_delivery body = Some (delivery_of (sample 7 StatusPending))))"
proof -
  obtain s' where pub: "run_state (rabbitPublisher_Publish the_codec default_rabbitmq (sample 7 StatusPending)) calm_amqp = (None, s')"
    "amqp_log s' = amqp_log calm_amqp @ [Publish the_publishing]"
    using the_publishing_run by blast
  have "json_safe decimal_uuid utc (sample 7 StatusPending)"
    by (rule sample_json_safe) (simp add: StatusPending_def rune_size_ascii)
  from message_reaches_webhook [OF pub(1) [unfolded the_codec_def] this pub(2) _
      the_worker_run [unfolded the_worker_def the_codec_def]]
  show ?thesis by (auto simp: the_message_def the_worker_def the_codec_def accepted_reply_def Let_def)
qed

end
