(* ===== verification/Migrate.thy ===== *)
theory Migrate
  imports Config Go_Errors "HOL-Library.List_Lexorder" "HOL-Library.Char_ord"
begin

text \<open>
  \<open>cmd/migrate/main.go\<close>: applying the migration files in the order of their names, each in a
  transaction of its own together with the row that records it. \<open>migrate_db\<close> is the database:
  the recorded versions, the scripts whose transactions were committed, and the calls that
  fail; \<open>mg_landed k\<close> says whether a commit that reported an error took place all the same.
\<close>

record migrate_db =
  mg_versions :: "string list"
  mg_applied :: "string list"
  mg_fault :: "nat \<Rightarrow> go_error option"
  mg_landed :: "nat \<Rightarrow> bool"
  mg_calls :: nat

record file_system =
  fs_missing :: "string \<Rightarrow> bool" \<comment> \<open>\<open>os.IsNotExist\<close> of \<open>os.Stat\<close>\<close>
  fs_glob :: "string \<Rightarrow> string list option"
  fs_read :: "string \<Rightarrow> string option"

definition mg_call :: "(migrate_db, go_error option) state" where
  "mg_call = State (\<lambda>s. (mg_fault s (mg_calls s), s\<lparr>mg_calls := Suc (mg_calls s)\<rparr>))"

text \<open>The transaction: the script, then the row, then the commit that makes both visible.\<close>

definition mg_commit :: "string \<Rightarrow> string \<Rightarrow> (migrate_db, go_error option) state" where
  "mg_commit content version = State (\<lambda>s.
     let k = mg_calls s; s1 = s\<lparr>mg_calls := Suc k\<rparr>;
         s2 = s1\<lparr>mg_versions := mg_versions s @ [version], mg_applied := mg_applied s @ [content]\<rparr>
     in case mg_fault s k of
          None \<Rightarrow> (None, s2)
        | Some e \<Rightarrow> (Some e, if mg_landed s k then s2 else s1))"

section \<open>The program\<close>

definition filepath_Base :: "string \<Rightarrow> string" where
  "filepath_Base p = rev (takeWhile (\<lambda>c. c \<noteq> CHR ''/'') (rev p))"

definition trim_suffix :: "string \<Rightarrow> string \<Rightarrow> string" where
  "trim_suffix s suf = (if suffix suf s then take (length s - length suf) s else s)"

definition version_of :: "string \<Rightarrow> string" where
  "version_of file = trim_suffix (filepath_Base file) ''.up.sql''"

text \<open>One iteration: \<open>False\<close> when the program exits with an error.\<close>

definition migrate_file :: "file_system \<Rightarrow> string \<Rightarrow> (migrate_db, bool) state" where
  "migrate_file fs file = do {
     let version = version_of file;
     e1 \<leftarrow> mg_call;
     found \<leftarrow> gets (\<lambda>s. version \<in> set (mg_versions s));
     if e1 \<noteq> None then return False
     else if found then return True
     else (case fs_read fs file of
         None \<Rightarrow> return False
       | Some content \<Rightarrow> do {
           e2 \<leftarrow> mg_call;
           if e2 \<noteq> None then return False
           else do {
             e3 \<leftarrow> mg_call;
             if e3 \<noteq> None then return False
             else do {
               e4 \<leftarrow> mg_call;
               if e4 \<noteq> None then return False
               else do {
                 e5 \<leftarrow> mg_commit content version;
                 return (e5 = None)
               }
             }
           }
         })
   }"

fun migrate_files :: "file_system \<Rightarrow> string list \<Rightarrow> (migrate_db, bool) state" where
  "migrate_files fs [] = return True"
| "migrate_files fs (file # files) = do {
     ok \<leftarrow> migrate_file fs file;
     if ok then migrate_files fs files else return False
   }"

definition migrate_main :: "file_system \<Rightarrow> (migrate_db, bool) state" where
  "migrate_main fs = do {
     e0 \<leftarrow> mg_call;
     if e0 \<noteq> None then return False
     else do {
       let dir = (if fs_missing fs ''/migrations'' then ''migrations'' else ''/migrations'');
       (case fs_glob fs (dir @ ''/*.up.sql'') of
          None \<Rightarrow> return False
        | Some files \<Rightarrow> do {
            e1 \<leftarrow> mg_call;
            if e1 \<noteq> None then return False else migrate_files fs (sort files)
          })
     }
   }"

section \<open>What it does\<close>

text \<open>The files that remain to be applied.\<close>

fun pending :: "string list \<Rightarrow> string list \<Rightarrow> string list" where
  "pending vs [] = []"
| "pending vs (f # fs) =
     (if version_of f \<in> set vs then pending vs fs else f # pending (vs @ [version_of f]) fs)"

definition content_of :: "file_system \<Rightarrow> string \<Rightarrow> string" where
  "content_of fs f = (case fs_read fs f of None \<Rightarrow> [] | Some c \<Rightarrow> c)"

text \<open>From \<open>s\<close> to \<open>s'\<close> exactly the files \<open>done\<close> were applied and recorded, in order.\<close>

definition applied :: "file_system \<Rightarrow> string list \<Rightarrow> migrate_db \<Rightarrow> migrate_db \<Rightarrow> bool" where
  "applied fs fls s s' \<longleftrightarrow> mg_versions s' = mg_versions s @ map version_of fls \<and>
     mg_applied s' = mg_applied s @ map (content_of fs) fls"

lemma migrate_file_cases:
  assumes "run_state (migrate_file fs f) s = (ok, s')"
  shows "if version_of f \<in> set (mg_versions s) then applied fs [] s s'
    else applied fs [f] s s' \<or> applied fs [] s s' \<and> \<not> ok"
  using assms
  by (auto simp: migrate_file_def mg_call_def mg_commit_def applied_def content_of_def Let_def
      split: if_splits option.splits)

lemma migrate_files_applied:
  assumes "run_state (migrate_files fs fls) s = (ok, s')"
  shows "\<exists>fls'. prefix fls' (pending (mg_versions s) fls) \<and> applied fs fls' s s' \<and>
    (ok \<longrightarrow> fls' = pending (mg_versions s) fls)"
  using assms
proof (induction fls arbitrary: s)
  case Nil
  then show ?case by (simp add: applied_def)
next
  case (Cons f fls)
  obtain ok1 s1 where f: "run_state (migrate_file fs f) s = (ok1, s1)" by fastforce
  show ?case
  proof (cases "version_of f \<in> set (mg_versions s)")
    case True
    with migrate_file_cases [OF f] have s1: "applied fs [] s s1" by simp
    then have v: "mg_versions s1 = mg_versions s" by (simp add: applied_def)
    show ?thesis
    proof (cases ok1)
      case ok: True
      with Cons.prems f have "run_state (migrate_files fs fls) s1 = (ok, s')" by simp
      from Cons.IH [OF this] s1 True show ?thesis by (simp add: v) (simp add: applied_def)
    next
      case False
      with Cons.prems f s1 show ?thesis by (intro exI [of _ "[]"]) simp
    qed
  next
    case False
    with migrate_file_cases [OF f] consider "applied fs [f] s s1" | "applied fs [] s s1" "\<not> ok1" by auto
    then show ?thesis
    proof cases
      case 1
      then have v: "mg_versions s1 = mg_versions s @ [version_of f]" by (simp add: applied_def)
      show ?thesis
      proof (cases ok1)
        case True
        with Cons.prems f have "run_state (migrate_files fs fls) s1 = (ok, s')" by simp
        from Cons.IH [OF this] obtain fls' where "prefix fls' (pending (mg_versions s @ [version_of f]) fls)"
          "applied fs fls' s1 s'" "ok \<longrightarrow> fls' = pending (mg_versions s @ [version_of f]) fls"
          unfolding v by blast
        with 1 False show ?thesis by (intro exI [of _ "f # fls'"]) (simp add: applied_def)
      next
        case bad: False
        with Cons.prems f 1 False show ?thesis by (intro exI [of _ "[f]"]) simp
      qed
    next
      case 2
      with Cons.prems f show ?thesis by (intro exI [of _ "[]"]) simp
    qed
  qed
qed

lemma pending_all: "version_of ` set fls \<subseteq> set (vs @ map version_of (pending vs fls))"
proof (induction vs fls rule: pending.induct)
  case (2 vs f fls)
  then show ?case by (cases "version_of f \<in> set vs") auto
qed simp

lemma pending_none: "version_of ` set fls \<subseteq> set vs \<Longrightarrow> pending vs fls = []"
  by (induction vs fls rule: pending.induct) simp_all

text \<open>C32. Whatever call fails, the scripts that were applied and the versions recorded stay in step,
  and what was applied is an initial part of the pending files in the order of their names: no
  file is applied after one that failed, none twice. A run that reports success has applied
  all of them, and running the program again then changes nothing.\<close>

theorem migrate_in_order:
  assumes "run_state (migrate_main fs) s = (ok, s')"
  defines "files \<equiv> (case fs_glob fs ((if fs_missing fs ''/migrations'' then ''migrations'' else ''/migrations'') @ ''/*.up.sql'')
      of None \<Rightarrow> [] | Some fls \<Rightarrow> sort fls)"
  shows "(\<exists>fls. prefix fls (pending (mg_versions s) files) \<and> applied fs fls s s' \<and>
      (ok \<longrightarrow> fls = pending (mg_versions s) files)) \<and>
    (ok \<longrightarrow> applied fs [] s' (run_final (migrate_main fs) s'))"
proof -
  have main: "\<exists>fls. prefix fls (pending (mg_versions s) files) \<and> applied fs fls s s' \<and>
      (ok \<longrightarrow> fls = pending (mg_versions s) files)" if run: "run_state (migrate_main fs) s = (ok, s')" for s s' ok
  proof (cases "run_state (migrate_main fs) s = (False, s') \<and> mg_versions s' = mg_versions s \<and> mg_applied s' = mg_applied s")
    case True
    with run show ?thesis by (intro exI [of _ "[]"]) (simp add: applied_def)
  next
    case False
    with run obtain s1 where "run_state (migrate_files fs files) s1 = (ok, s')"
      "mg_versions s1 = mg_versions s" "mg_applied s1 = mg_applied s"
      by (auto simp: migrate_main_def mg_call_def files_def Let_def split: if_splits option.splits)
    with migrate_files_applied [of fs files s1 ok s'] show ?thesis by (simp add: applied_def)
  qed
  have "applied fs [] s' (run_final (migrate_main fs) s')" if ok
  proof -
    from main [OF assms(1)] that have v: "mg_versions s' = mg_versions s @ map version_of (pending (mg_versions s) files)"
      by (auto simp: applied_def)
    have "pending (mg_versions s') files = []"
      unfolding v by (rule pending_none [OF pending_all])
    moreover obtain ok2 s2 where "run_state (migrate_main fs) s' = (ok2, s2)" by fastforce
    ultimately show ?thesis using main [of s' ok2 s2] by simp
  qed
  with main [OF assms(1)] show ?thesis by blast
qed

definition two_files :: file_system where
  "two_files = \<lparr>fs_missing = (\<lambda>_. False),
     fs_glob = (\<lambda>_. Some [''/migrations/002_b.up.sql'', ''/migrations/001_a.up.sql'']),
     fs_read = (\<lambda>f. Some (''-- '' @ f))\<rparr>"

theorem migrate_in_order_witness:
  "\<exists>s'. run_state (migrate_main two_files) \<lparr>mg_versions = [], mg_applied = [],
      mg_fault = (\<lambda>k. if k = 10 then Some (OpaqueError ''eof'') else None), mg_landed = (\<lambda>_. True), mg_calls = 0\<rparr> = (False, s') \<and>
    length (mg_versions s') = length (mg_applied s')"
proof -
  let ?s = "\<lparr>mg_versions = [], mg_applied = [], mg_fault = (\<lambda>k. if k = 10 then Some (OpaqueError ''eof'') else None),
      mg_landed = (\<lambda>_. True), mg_calls = 0\<rparr>"
  let ?run = "run_state (migrate_main two_files) ?s"
  have "fst ?run = False"
    by (simp add: migrate_main_def mg_call_def mg_commit_def migrate_file_def two_files_def version_of_def
        filepath_Base_def trim_suffix_def Let_def less_char_def)
  then have r: "?run = (False, snd ?run)" by (simp add: prod_eq_iff)
  from migrate_in_order [OF this] obtain fls where "applied two_files fls ?s (snd ?run)" by blast
  with r show ?thesis by (intro exI [of _ "snd ?run"]) (simp add: applied_def)
qed

end
