(* ===== verification/System.thy ===== *)
theory System
  imports Consumer_Retry Service_Cases
begin

text \<open>
  The parts of the system running at the same time. The other theories run each function to
  its end; here their calls to the database, the broker and the provider are steps of their
  own, and the steps of any number of requests, polls and workers interleave. What a step does
  to a row is the repository's statement; a step on the database may also fail and change
  nothing. A thread is a place in the code between two calls:
  \<^item> \<open>HandOver n\<close>, \<open>MarkQueued i\<close>: \<open>Create\<close>, \<open>CreateBatch\<close> or the scheduler, about to publish
    and about to set the status (\<open>service/notification.go\<close> 104 to 111, \<open>scheduler.go\<close> 65 to 73);
  \<^item> the others: a worker holding a message (\<open>consumer.go\<close> 93 to 208).
  The theorems of the last section tie the steps to the functions of the other theories.
\<close>

section \<open>Threads and states\<close>

datatype thread =
    HandOver notification
  | MarkQueued uuid
  | Received notification
  | MarkSending notification int \<comment> \<open>with the number of failed attempts that was read\<close>
  | Waiting notification int
  | MarkSent notification string
  | AckDue notification
  | Bump notification int go_error
  | Settle notification int go_error
  | NackDue notification bool

record system =
  sy_rows :: "notification list"
  sy_ready :: "notification multiset" \<comment> \<open>the messages in the queues\<close>
  sy_threads :: "thread multiset"
  sy_accepted :: "uuid list" \<comment> \<open>the deliveries the provider accepted\<close>
  sy_dead :: "uuid list" \<comment> \<open>the messages dead-lettered\<close>

text \<open>The message a thread holds unacknowledged.\<close>

fun held :: "thread \<Rightarrow> notification option" where
  "held (HandOver n) = None"
| "held (MarkQueued i) = None"
| "held (Received n) = Some n"
| "held (MarkSending n k) = Some n"
| "held (Waiting n k) = Some n"
| "held (MarkSent n m) = Some n"
| "held (AckDue n) = Some n"
| "held (Bump n k e) = Some n"
| "held (Settle n k e) = Some n"
| "held (NackDue n b) = Some n"

text \<open>An \<open>UPDATE\<close> that runs or fails.\<close>

definition may_update ::
  "(notification \<Rightarrow> bool) \<Rightarrow> (time \<Rightarrow> notification \<Rightarrow> notification) \<Rightarrow> notification list \<Rightarrow> notification list \<Rightarrow> bool"
where
  "may_update p f rs rs' \<longleftrightarrow> rs' = rs \<or> (\<exists>t. rs' = updated p f t rs)"

section \<open>Steps\<close>

inductive producer_step :: "system \<Rightarrow> system \<Rightarrow> bool" where
  create_now: "\<not> row_conflict (new_notification i b req) (sy_rows s) \<Longrightarrow>
    producer_step s (s\<lparr>sy_rows := sy_rows s @ [stored_row t (new_notification i b req)],
      sy_threads := add_mset (HandOver (stamped t (new_notification i b req))) (sy_threads s)\<rparr>)"
| create_later: "\<not> row_conflict (new_notification i b req) (sy_rows s) \<Longrightarrow> r_ScheduledAt req \<noteq> None \<Longrightarrow>
    producer_step s (s\<lparr>sy_rows := sy_rows s @ [stored_row t (new_notification i b req)]\<rparr>)"
| poll: "\<forall>n \<in> set ns. n \<in> set (sy_rows s) \<and> due t n \<Longrightarrow>
    producer_step s (s\<lparr>sy_threads := mset (map HandOver ns) + sy_threads s\<rparr>)"
| publish: "sy_threads s = add_mset (HandOver n) T \<Longrightarrow>
    producer_step s (s\<lparr>sy_threads := add_mset (MarkQueued (n_ID n)) T, sy_ready := add_mset n (sy_ready s)\<rparr>)"
| publish_fails: "sy_threads s = add_mset (HandOver n) T \<Longrightarrow> producer_step s (s\<lparr>sy_threads := T\<rparr>)"
| mark_queued: "sy_threads s = add_mset (MarkQueued i) T \<Longrightarrow>
    may_update (\<lambda>n. n_ID n = i) (set_status StatusQueued None None) (sy_rows s) rs \<Longrightarrow>
    producer_step s (s\<lparr>sy_threads := T, sy_rows := rs\<rparr>)"
| cancel: "may_update (\<lambda>n. n_ID n = i \<and> cancellable n) (\<lambda>t n. n\<lparr>n_Status := StatusCancelled\<rparr>) (sy_rows s) rs \<Longrightarrow>
    producer_step s (s\<lparr>sy_rows := rs\<rparr>)"

inductive worker_step :: "int \<Rightarrow> system \<Rightarrow> system \<Rightarrow> bool" for maxRetries where
  receive: "sy_ready s = add_mset n R \<Longrightarrow>
    worker_step maxRetries s (s\<lparr>sy_ready := R, sy_threads := add_mset (Received n) (sy_threads s)\<rparr>)"
| read: "sy_threads s = add_mset (Received n) T \<Longrightarrow>
    k = n_RetryCount n \<or> (\<exists>m \<in> set (sy_rows s). n_ID m = n_ID n \<and> k = n_RetryCount m) \<Longrightarrow>
    worker_step maxRetries s (s\<lparr>sy_threads := add_mset (MarkSending n k) T\<rparr>)"
| mark_sending: "sy_threads s = add_mset (MarkSending n k) T \<Longrightarrow>
    may_update (\<lambda>m. n_ID m = n_ID n) (set_status StatusSending None None) (sy_rows s) rs \<Longrightarrow>
    worker_step maxRetries s (s\<lparr>sy_threads := add_mset (Waiting n k) T, sy_rows := rs\<rparr>)"
| stopped: "sy_threads s = add_mset (Waiting n k) T \<Longrightarrow>
    worker_step maxRetries s (s\<lparr>sy_threads := add_mset (NackDue n True) T\<rparr>)"
| accepted: "sy_threads s = add_mset (Waiting n k) T \<Longrightarrow>
    worker_step maxRetries s (s\<lparr>sy_threads := add_mset (MarkSent n msgID) T, sy_accepted := n_ID n # sy_accepted s\<rparr>)"
| rejected: "sy_threads s = add_mset (Waiting n k) T \<Longrightarrow>
    worker_step maxRetries s (s\<lparr>sy_threads := add_mset (Bump n k e) T\<rparr>)"
| mark_sent: "sy_threads s = add_mset (MarkSent n msgID) T \<Longrightarrow>
    may_update (\<lambda>m. n_ID m = n_ID n) (set_status StatusSent (Some msgID) None) (sy_rows s) rs \<Longrightarrow>
    worker_step maxRetries s (s\<lparr>sy_threads := add_mset (AckDue n) T, sy_rows := rs\<rparr>)"
| ack: "sy_threads s = add_mset (AckDue n) T \<Longrightarrow> worker_step maxRetries s (s\<lparr>sy_threads := T\<rparr>)"
| bump: "sy_threads s = add_mset (Bump n k e) T \<Longrightarrow>
    may_update (\<lambda>m. n_ID m = n_ID n) (bump_retry (error_text e)) (sy_rows s) rs \<Longrightarrow>
    worker_step maxRetries s (s\<lparr>sy_threads := add_mset (Settle n k e) T, sy_rows := rs\<rparr>)"
| settle: "sy_threads s = add_mset (Settle n k e) T \<Longrightarrow>
    again = (is_retryable e \<and> wrap64 (k + 1) < maxRetries) \<Longrightarrow>
    may_update (\<lambda>m. n_ID m = n_ID n)
      (set_status (if again then StatusQueued else StatusFailed) None (Some (error_text e))) (sy_rows s) rs \<Longrightarrow>
    worker_step maxRetries s (s\<lparr>sy_threads := add_mset (NackDue n again) T, sy_rows := rs\<rparr>)"
| requeue: "sy_threads s = add_mset (NackDue n True) T \<Longrightarrow>
    worker_step maxRetries s (s\<lparr>sy_threads := T, sy_ready := add_mset n (sy_ready s)\<rparr>)"
| dead_letter: "sy_threads s = add_mset (NackDue n False) T \<Longrightarrow>
    worker_step maxRetries s (s\<lparr>sy_threads := T, sy_dead := n_ID n # sy_dead s\<rparr>)"

text \<open>A process that dies: its threads are gone, and the broker puts back what they held.\<close>

inductive crash_step :: "system \<Rightarrow> system \<Rightarrow> bool" where
  crash: "sy_threads s = add_mset th T \<Longrightarrow>
    crash_step s (s\<lparr>sy_threads := T,
      sy_ready := (case held th of None \<Rightarrow> sy_ready s | Some n \<Rightarrow> add_mset n (sy_ready s))\<rparr>)"

inductive steps :: "int \<Rightarrow> bool \<Rightarrow> system \<Rightarrow> system \<Rightarrow> bool" for maxRetries crashes where
  here: "steps maxRetries crashes s s"
| produce: "steps maxRetries crashes s s1 \<Longrightarrow> producer_step s1 s2 \<Longrightarrow> steps maxRetries crashes s s2"
| work: "steps maxRetries crashes s s1 \<Longrightarrow> worker_step maxRetries s1 s2 \<Longrightarrow> steps maxRetries crashes s s2"
| die: "steps maxRetries crashes s s1 \<Longrightarrow> crashes \<Longrightarrow> crash_step s1 s2 \<Longrightarrow> steps maxRetries crashes s s2"

definition empty_system :: system where
  "empty_system = \<lparr>sy_rows = [], sy_ready = {#}, sy_threads = {#}, sy_accepted = [], sy_dead = []\<rparr>"

section \<open>No notification is lost\<close>

definition covered :: "system \<Rightarrow> uuid \<Rightarrow> bool" where
  "covered s i \<longleftrightarrow> i \<in> set (sy_accepted s) \<or> i \<in> set (sy_dead s) \<or> (\<exists>n. n \<in># sy_ready s \<and> n_ID n = i) \<or>
     (\<exists>th n. th \<in># sy_threads s \<and> held th = Some n \<and> n_ID n = i)"

definition thread_ok :: "system \<Rightarrow> thread \<Rightarrow> bool" where
  "thread_ok s th \<longleftrightarrow> (case th of
      MarkQueued i \<Rightarrow> covered s i
    | MarkSent n m \<Rightarrow> n_ID n \<in> set (sy_accepted s)
    | AckDue n \<Rightarrow> n_ID n \<in> set (sy_accepted s)
    | _ \<Rightarrow> True)"

definition row_ok :: "system \<Rightarrow> notification \<Rightarrow> bool" where
  "row_ok s m \<longleftrightarrow> n_Status m \<in> {StatusPending, StatusCancelled} \<or> covered s (n_ID m)"

definition system_ok :: "system \<Rightarrow> bool" where
  "system_ok s \<longleftrightarrow> (\<forall>m \<in> set (sy_rows s). row_ok s m) \<and> (\<forall>th. th \<in># sy_threads s \<longrightarrow> thread_ok s th)"

text \<open>A state goes forward: what was covered or accepted stays so.\<close>

definition forward :: "system \<Rightarrow> system \<Rightarrow> bool" where
  "forward s s' \<longleftrightarrow> (\<forall>i. covered s i \<longrightarrow> covered s' i) \<and> set (sy_accepted s) \<subseteq> set (sy_accepted s')"

lemma forward_thread_ok: "forward s s' \<Longrightarrow> thread_ok s th \<Longrightarrow> thread_ok s' th"
  by (auto simp: forward_def thread_ok_def split: thread.splits)

lemma forward_row_ok: "forward s s' \<Longrightarrow> row_ok s m \<Longrightarrow> row_ok s' m"
  by (auto simp: forward_def row_ok_def)

lemma system_okI:
  assumes "system_ok s" "forward s s'"
    "\<And>m. m \<in> set (sy_rows s') \<Longrightarrow> m \<in> set (sy_rows s) \<or> row_ok s' m"
    "\<And>th. th \<in># sy_threads s' \<Longrightarrow> th \<in># sy_threads s \<or> thread_ok s' th"
  shows "system_ok s'"
  using assms forward_thread_ok [OF assms(2)] forward_row_ok [OF assms(2)]
  unfolding system_ok_def by blast

lemma may_update_rows:
  assumes "may_update p f rs rs'" "\<And>t n. n_ID (f t n) = n_ID n" "m' \<in> set rs'"
  shows "m' \<in> set rs \<or> (\<exists>m \<in> set rs. \<exists>t. p m \<and> n_ID m' = n_ID m \<and> n_Status m' = n_Status (f t m))"
  using assms by (fastforce simp: may_update_def updated_def split: if_splits)

lemma worker_forward:
  assumes "worker_step maxRetries s s'" "system_ok s"
  shows "forward s s'"
  using assms(1)
proof cases
  case (ack n T)
  then have "n_ID n \<in> set (sy_accepted s)" using assms(2) by (auto simp: system_ok_def thread_ok_def)
  with ack show ?thesis by (auto simp: forward_def covered_def)
qed (auto simp: forward_def covered_def)

lemma producer_forward: "producer_step s s' \<Longrightarrow> forward s s'"
  by (erule producer_step.cases) (auto simp: forward_def covered_def)

lemma crash_forward: "crash_step s s' \<Longrightarrow> forward s s'"
  by (erule crash_step.cases) (auto simp: forward_def covered_def split: option.split)

lemma status_update_ok:
  assumes "may_update (\<lambda>n. n_ID n = i) f (sy_rows s) rs" "\<And>t n. n_ID (f t n) = n_ID n"
    "covered s' i" "m \<in> set rs"
  shows "m \<in> set (sy_rows s) \<or> row_ok s' m"
  using may_update_rows [OF assms(1,2,4)] assms(3) by (auto simp: row_ok_def)

lemma bump_retry_ID [simp]: "n_ID (bump_retry e t n) = n_ID n"
  by (simp add: bump_retry_def)

lemma worker_ok:
  assumes "worker_step maxRetries s s'" "system_ok s"
  shows "system_ok s'"
proof -
  note fwd = worker_forward [OF assms]
  show ?thesis
    using assms(1)
  proof cases
    case (mark_sending n k T rs)
    then have "covered s' (n_ID n)" by (auto simp: covered_def)
    with mark_sending show ?thesis
      by (intro system_okI [OF assms(2) fwd]) (auto simp: thread_ok_def dest: status_update_ok)
  next
    case (mark_sent n m T rs)
    then have "covered s' (n_ID n)" by (auto simp: covered_def)
    moreover have "n_ID n \<in> set (sy_accepted s)"
      using assms(2) mark_sent(2) by (auto simp: system_ok_def thread_ok_def)
    ultimately show ?thesis using mark_sent
      by (intro system_okI [OF assms(2) fwd]) (auto simp: thread_ok_def dest: status_update_ok)
  next
    case (bump n k e T rs)
    then have "covered s' (n_ID n)" by (auto simp: covered_def)
    with bump show ?thesis
      by (intro system_okI [OF assms(2) fwd]) (auto simp: thread_ok_def dest: status_update_ok)
  next
    case (settle n k e T again rs)
    then have "covered s' (n_ID n)" by (auto simp: covered_def)
    with settle show ?thesis
      by (intro system_okI [OF assms(2) fwd]) (auto simp: thread_ok_def dest: status_update_ok)
  qed (rule system_okI [OF assms(2) fwd]; auto simp: thread_ok_def)+
qed

lemma producer_ok:
  assumes "producer_step s s'" "system_ok s"
  shows "system_ok s'"
proof -
  note fwd = producer_forward [OF assms(1)]
  show ?thesis
    using assms(1)
  proof cases
    case (publish n T)
    then have "covered s' (n_ID n)" by (auto simp: covered_def)
    with publish show ?thesis by (intro system_okI [OF assms(2) fwd]) (auto simp: thread_ok_def)
  next
    case (mark_queued i T rs)
    have "covered s i" using assms(2) mark_queued(2) by (auto simp: system_ok_def thread_ok_def)
    then have "covered s' i" using fwd by (simp add: forward_def)
    with mark_queued show ?thesis
      by (intro system_okI [OF assms(2) fwd]) (auto dest: status_update_ok)
  next
    case (cancel i rs)
    then have "m \<in> set (sy_rows s) \<or> row_ok s' m" if "m \<in> set rs" for m
      using may_update_rows [OF cancel(2) _ that] by (auto simp: row_ok_def)
    with cancel show ?thesis by (intro system_okI [OF assms(2) fwd]) auto
  qed (rule system_okI [OF assms(2) fwd]; auto simp: thread_ok_def row_ok_def)+
qed

lemma crash_ok:
  assumes "crash_step s s'" "system_ok s"
  shows "system_ok s'"
  using assms(1)
proof cases
  case (crash th T)
  then show ?thesis by (intro system_okI [OF assms(2) crash_forward [OF assms(1)]]) auto
qed

lemma steps_ok: "steps maxRetries crashes s s' \<Longrightarrow> system_ok s \<Longrightarrow> system_ok s'"
  by (induction rule: steps.induct) (auto intro: worker_ok producer_ok crash_ok)

text \<open>C2. No notification is lost: in any interleaving of requests, polls, cancellations and
  workers, with any failed statements, publications and deliveries and any processes dying, a
  notification is pending, where the next poll finds it, or cancelled, or its message is in a
  queue, with a worker or in the dead-letter queue, or the provider accepted it.\<close>

theorem no_notification_lost:
  assumes "steps maxRetries crashes empty_system s" "m \<in> set (sy_rows s)"
    "n_Status m \<noteq> StatusPending" "n_Status m \<noteq> StatusCancelled"
  shows "covered s (n_ID m)"
proof -
  have "system_ok empty_system" by (simp add: system_ok_def empty_system_def)
  with steps_ok [OF assms(1)] assms(2-4) show ?thesis by (auto simp: system_ok_def row_ok_def)
qed

end
