(* ===== verification/System_Refine.thy ===== *)
theory System_Refine
  imports System
begin

text \<open>
  The steps of the interleaved system are those of the code: a hand-over and the processing of
  a message, run to their end without interruption, are paths of the step relation with the
  same effect on the table, the queue and the settlement of the message.
\<close>

lemma steps_trans: "steps mx cr s1 s2 \<Longrightarrow> steps mx cr s0 s1 \<Longrightarrow> steps mx cr s0 s2"
  by (induction rule: steps.induct) (auto intro: steps.intros)

lemma steps_work: "worker_step mx s0 s1 \<Longrightarrow> steps mx cr s1 s2 \<Longrightarrow> steps mx cr s0 s2"
  by (rule steps_trans [OF _ steps.work [OF steps.here]])

lemma update_spec_may: "update_spec p f rs r rs' \<Longrightarrow> may_update p f rs rs'"
  by (auto simp: update_spec_def may_update_def split: option.splits)

section \<open>Handing over\<close>

context pipeline
begin

lemma hand_over_steps:
  assumes "run_state (hand_over repo pub n) s = (b, s')"
    "sy_rows \<sigma> = rows s" "sy_threads \<sigma> = add_mset (HandOver n) T"
  shows "steps mx cr \<sigma> (\<sigma>\<lparr>sy_rows := rows s', sy_threads := T,
      sy_ready := (if b then add_mset n (sy_ready \<sigma>) else sy_ready \<sigma>)\<rparr>) \<and>
    (if b then \<exists>m. sent s' = sent s @ [m] \<and> carries n m else sent s' = sent s)"
proof -
  obtain e s1 where p: "run_state (pub_Publish pub n) s = (e, s1)" by fastforce
  have r1: "rows s1 = rows s" using keepsE [OF publish_keeps_rows p] .
  show ?thesis
  proof (cases e)
    case (Some err)
    with assms(1) p have "b = False" "s' = s1" by (simp_all add: hand_over_def)
    moreover have "producer_step \<sigma> (\<sigma>\<lparr>sy_threads := T\<rparr>)" by (rule producer_step.publish_fails [OF assms(3)])
    moreover have "\<sigma>\<lparr>sy_rows := rows s', sy_threads := T, sy_ready := sy_ready \<sigma>\<rparr> = \<sigma>\<lparr>sy_threads := T\<rparr>"
      using r1 assms(2) \<open>s' = s1\<close> by (cases \<sigma>) simp
    ultimately show ?thesis using publish [OF p] Some by (auto intro: steps.produce [OF steps.here])
  next
    case None
    obtain eo s2 where u: "run_state (repo_UpdateStatus repo (n_ID n) StatusQueued None None) s1 = (eo, s2)"
      by fastforce
    with assms(1) p None have b: "b" "s' = s2" by (simp_all add: hand_over_def)
    have "producer_step \<sigma> (\<sigma>\<lparr>sy_threads := add_mset (MarkQueued (n_ID n)) T, sy_ready := add_mset n (sy_ready \<sigma>)\<rparr>)"
      (is "producer_step \<sigma> ?\<sigma>1")
      by (rule producer_step.publish [OF assms(3)])
    moreover have "producer_step ?\<sigma>1 (?\<sigma>1\<lparr>sy_threads := T, sy_rows := rows s2\<rparr>)"
      using update_spec_may [OF update_status [OF u]] r1 assms(2) by (intro producer_step.mark_queued) simp_all
    moreover have "?\<sigma>1\<lparr>sy_threads := T, sy_rows := rows s2\<rparr> =
        \<sigma>\<lparr>sy_rows := rows s', sy_threads := T, sy_ready := (if b then add_mset n (sy_ready \<sigma>) else sy_ready \<sigma>)\<rparr>"
      using b by (cases \<sigma>) simp
    ultimately have "steps mx cr \<sigma> (\<sigma>\<lparr>sy_rows := rows s', sy_threads := T,
        sy_ready := (if b then add_mset n (sy_ready \<sigma>) else sy_ready \<sigma>)\<rparr>)"
      using steps.produce [OF steps.produce [OF steps.here]] by metis
    moreover have "sent s2 = sent s1" using keepsE [OF repo_keeps_sent(5) u] .
    ultimately show ?thesis using publish [OF p] None b by simp
  qed
qed

end

section \<open>Processing a message\<close>

text \<open>What the system looks like when the thread that held \<open>n\<close> has settled it by \<open>call\<close>.\<close>

definition after_settling :: "nat \<Rightarrow> notification \<Rightarrow> amqp_call \<Rightarrow> notification list \<Rightarrow> thread multiset \<Rightarrow> system \<Rightarrow> system \<Rightarrow> bool" where
  "after_settling tag n call rs T \<sigma> \<sigma>' \<longleftrightarrow> sy_rows \<sigma>' = rs \<and> sy_threads \<sigma>' = T \<and>
     (call = Ack tag \<and> sy_ready \<sigma>' = sy_ready \<sigma> \<and> sy_accepted \<sigma>' = n_ID n # sy_accepted \<sigma> \<and> sy_dead \<sigma>' = sy_dead \<sigma> \<or>
      call = Nack tag True \<and> sy_ready \<sigma>' = add_mset n (sy_ready \<sigma>) \<and> sy_accepted \<sigma>' = sy_accepted \<sigma> \<and>
        sy_dead \<sigma>' = sy_dead \<sigma> \<or>
      call = Nack tag False \<and> sy_ready \<sigma>' = sy_ready \<sigma> \<and> sy_accepted \<sigma>' = sy_accepted \<sigma> \<and>
        sy_dead \<sigma>' = n_ID n # sy_dead \<sigma>)"

lemma nack_steps:
  assumes "sy_threads \<sigma> = add_mset (NackDue n b) T"
  shows "\<exists>\<sigma>'. steps mx cr \<sigma> \<sigma>' \<and> after_settling tag n (Nack tag b) (sy_rows \<sigma>) T \<sigma> \<sigma>'"
proof (cases b)
  case True
  with assms have "worker_step mx \<sigma> (\<sigma>\<lparr>sy_threads := T, sy_ready := add_mset n (sy_ready \<sigma>)\<rparr>)"
    by (intro worker_step.requeue) simp
  then show ?thesis using True
    by (intro exI conjI) (erule steps.work [OF steps.here], simp add: after_settling_def)
next
  case False
  with assms have "worker_step mx \<sigma> (\<sigma>\<lparr>sy_threads := T, sy_dead := n_ID n # sy_dead \<sigma>\<rparr>)"
    by (intro worker_step.dead_letter) simp
  then show ?thesis using False
    by (intro exI conjI) (erule steps.work [OF steps.here], simp add: after_settling_def)
qed

lemma after_settling_same:
  assumes "after_settling tag n call rs T \<sigma>1 \<sigma>'" "sy_ready \<sigma>1 = sy_ready \<sigma>" "sy_accepted \<sigma>1 = sy_accepted \<sigma>"
    "sy_dead \<sigma>1 = sy_dead \<sigma>"
  shows "after_settling tag n call rs T \<sigma> \<sigma>'"
  using assms by (simp add: after_settling_def)

text \<open>The end of an accepted delivery, and a delivery that was not attempted.\<close>

lemma accepted_steps:
  assumes u: "update_spec (\<lambda>m. n_ID m = n_ID n) (set_status StatusSent (Some mid) None) (sy_rows \<sigma>) ro rs"
    and thread: "sy_threads \<sigma> = add_mset (Waiting n k) T"
  shows "\<exists>\<sigma>'. steps mx cr \<sigma> \<sigma>' \<and> after_settling tag n (Ack tag) rs T \<sigma> \<sigma>'"
proof -
  define \<sigma>1 where "\<sigma>1 = \<sigma>\<lparr>sy_threads := add_mset (MarkSent n mid) T, sy_accepted := n_ID n # sy_accepted \<sigma>\<rparr>"
  define \<sigma>2 where "\<sigma>2 = \<sigma>1\<lparr>sy_threads := add_mset (AckDue n) T, sy_rows := rs\<rparr>"
  have step1: "worker_step mx \<sigma> \<sigma>1" unfolding \<sigma>1_def by (rule worker_step.accepted [OF thread])
  have step2: "worker_step mx \<sigma>1 \<sigma>2" unfolding \<sigma>2_def
    using update_spec_may [OF u] by (intro worker_step.mark_sent) (simp_all add: \<sigma>1_def)
  have step3: "worker_step mx \<sigma>2 (\<sigma>2\<lparr>sy_threads := T\<rparr>)" by (rule worker_step.ack) (simp add: \<sigma>2_def)
  have "after_settling tag n (Ack tag) rs T \<sigma> (\<sigma>2\<lparr>sy_threads := T\<rparr>)"
    by (simp add: after_settling_def \<sigma>2_def \<sigma>1_def)
  with steps_work [OF step1 steps_work [OF step2 steps_work [OF step3 steps.here]]] show ?thesis by blast
qed

lemma stopped_steps:
  assumes "sy_threads \<sigma> = add_mset (Waiting n k) T"
  shows "\<exists>\<sigma>'. steps mx cr \<sigma> \<sigma>' \<and> after_settling tag n (Nack tag True) (sy_rows \<sigma>) T \<sigma> \<sigma>'"
proof -
  define \<sigma>1 where "\<sigma>1 = \<sigma>\<lparr>sy_threads := add_mset (NackDue n True) T\<rparr>"
  have step: "worker_step mx \<sigma> \<sigma>1" unfolding \<sigma>1_def by (rule worker_step.stopped [OF assms])
  obtain \<sigma>' where "steps mx cr \<sigma>1 \<sigma>'" "after_settling tag n (Nack tag True) (sy_rows \<sigma>1) T \<sigma>1 \<sigma>'"
    using nack_steps [of \<sigma>1 n True T] unfolding \<sigma>1_def by (simp, blast)
  then show ?thesis using steps_work [OF step] by (auto simp: after_settling_def \<sigma>1_def)
qed

context consumer_env
begin

lemma failure_steps:
  assumes "run_state (handleFailure con msg n1 e) s = (u, s')" "sy_rows \<sigma> = rows s"
    "sy_threads \<sigma> = add_mset (Bump n (n_RetryCount n1) e) T" "n_ID n1 = n_ID n"
  defines "again \<equiv> is_retryable e \<and> wrap64 (n_RetryCount n1 + 1) < w_MaxRetries (con_workerCfg con)"
  shows "\<exists>\<sigma>'. steps (w_MaxRetries (con_workerCfg con)) cr \<sigma> \<sigma>' \<and> after_settling tag n (Nack tag again) (rows s') T \<sigma> \<sigma>'"
proof -
  let ?msg = "error_text e" and ?mx = "w_MaxRetries (con_workerCfg con)" and ?k = "n_RetryCount n1"
  let ?st = "if again then StatusQueued else StatusFailed"
  obtain r1 s1 where i: "run_state (repo_IncrementRetry repo (n_ID n1) ?msg) s = (r1, s1)" by fastforce
  obtain r2 s2 where u: "run_state (repo_UpdateStatus repo (n_ID n1) ?st None (Some ?msg)) s1 = (r2, s2)"
    by fastforce
  have s': "rows s' = rows s2"
  proof (cases again)
    case False
    obtain r3 s3 where a: "run_state (amqp_do (Nack (d_Tag msg) False)) s2 = (r3, s3)" by fastforce
    have "s' = s3" using assms(1) False i u a
      by (auto simp: handleFailure_def Let_def con_parts is_retryable_def again_def)
    then show ?thesis using keepsE [OF keeps_rows(5) a] by simp
  next
    case True
    obtain b s3 where w: "run_state (select_done_or_after (backoff con (wrap64 (?k + 1)))) s2 = (b, s3)" by fastforce
    obtain r4 s4 where a: "run_state (amqp_do (Nack (d_Tag msg) True)) s3 = (r4, s4)" by fastforce
    have "s' = s4" using assms(1) True i u w a
      by (auto simp: handleFailure_def Let_def con_parts is_retryable_def again_def)
    then show ?thesis using keepsE [OF keeps_rows(5) a] keepsE [OF keeps_rows(3) w] by simp
  qed
  define \<sigma>1 where "\<sigma>1 = \<sigma>\<lparr>sy_threads := add_mset (Settle n ?k e) T, sy_rows := rows s1\<rparr>"
  define \<sigma>2 where "\<sigma>2 = \<sigma>1\<lparr>sy_threads := add_mset (NackDue n again) T, sy_rows := rows s2\<rparr>"
  have step1: "worker_step ?mx \<sigma> \<sigma>1" unfolding \<sigma>1_def
    using update_spec_may [OF increment_retry [OF i]] assms(2-4) by (intro worker_step.bump) simp_all
  have step2: "worker_step ?mx \<sigma>1 \<sigma>2" unfolding \<sigma>2_def
    using update_spec_may [OF update_status [OF u]] assms(4)
    by (intro worker_step.settle) (simp_all add: \<sigma>1_def again_def)
  obtain \<sigma>' where step3: "steps ?mx cr \<sigma>2 \<sigma>'" and fin: "after_settling tag n (Nack tag again) (sy_rows \<sigma>2) T \<sigma>2 \<sigma>'"
    using nack_steps [of \<sigma>2 n again T] unfolding \<sigma>2_def by (simp, blast)
  have "steps ?mx cr \<sigma> \<sigma>'" using steps_work [OF step1 steps_work [OF step2 step3]] .
  moreover have "after_settling tag n (Nack tag again) (rows s') T \<sigma> \<sigma>'"
    using after_settling_same [OF fin, of \<sigma>] s' by (simp add: \<sigma>2_def \<sigma>1_def)
  ultimately show ?thesis by blast
qed

lemma deliver_steps:
  assumes "run_state (deliver con msg n1) s = (u, s')" "sy_rows \<sigma> = rows s"
    "sy_threads \<sigma> = add_mset (Waiting n (n_RetryCount n1)) T" "n_ID n1 = n_ID n"
  shows "\<exists>\<sigma>' call. steps (w_MaxRetries (con_workerCfg con)) cr \<sigma> \<sigma>' \<and> settled s s' call \<and>
    after_settling (d_Tag msg) n call (rows s') T \<sigma> \<sigma>'"
proof -
  let ?mx = "w_MaxRetries (con_workerCfg con)" and ?k = "n_RetryCount n1"
  obtain t0 s0 where t0: "run_state time_Now s = (t0, s0)" by fastforce
  obtain r s2 where p: "run_state (prov_Send (con_provider con) (delivery_of n1)) s0 = (r, s2)" by fastforce
  obtain t3 s3 where t3: "run_state time_Now s2 = (t3, s3)" by fastforce
  have b: "broker s3 = broker s" "rows s3 = rows s"
    using keepsE [OF keeps_broker_time t0] keepsE [OF keeps_broker(4) p] keepsE [OF keeps_broker_time t3]
      keepsE [OF keeps_rows(4) t0] keepsE [OF keeps_rows(1) p] keepsE [OF keeps_rows(4) t3] by simp_all
  show ?thesis
  proof (cases r)
    case (Inl e)
    then have h: "run_state (handleFailure con msg n1 e) s3 = (u, s')"
      using assms(1) t0 p t3 by (simp add: deliver_def del: run_time_Now)
    define \<sigma>1 where "\<sigma>1 = \<sigma>\<lparr>sy_threads := add_mset (Bump n ?k e) T\<rparr>"
    have step1: "worker_step ?mx \<sigma> \<sigma>1" unfolding \<sigma>1_def by (rule worker_step.rejected [OF assms(3)])
    obtain \<sigma>' where rest: "steps ?mx cr \<sigma>1 \<sigma>'" "after_settling (d_Tag msg) n
        (Nack (d_Tag msg) (is_retryable e \<and> wrap64 (?k + 1) < ?mx)) (rows s') T \<sigma>1 \<sigma>'"
      using failure_steps [OF h, of \<sigma>1 n T cr "d_Tag msg"] assms(2,4) b by (auto simp: \<sigma>1_def)
    have "settled s s' (Nack (d_Tag msg) (is_retryable e \<and> wrap64 (?k + 1) < ?mx))"
      using failure_settles [OF h] b by (simp add: settled_def broker_def settlement_def)
    moreover have "after_settling (d_Tag msg) n (Nack (d_Tag msg) (is_retryable e \<and> wrap64 (?k + 1) < ?mx)) (rows s') T \<sigma> \<sigma>'"
      using after_settling_same [OF rest(2), of \<sigma>] by (simp add: \<sigma>1_def)
    ultimately show ?thesis using steps_work [OF step1 rest(1)] by blast
  next
    case (Inr resp)
    obtain r4 s4 where u: "run_state (repo_UpdateStatus repo (n_ID n1) StatusSent (Some (dr_MessageID resp)) None) s3 = (r4, s4)"
      by fastforce
    obtain r5 s5 where a: "run_state (amqp_do (Ack (d_Tag msg))) s4 = (r5, s5)" by fastforce
    have s': "s' = s5" using assms(1) t0 p t3 u a Inr by (simp add: deliver_def con_parts del: run_time_Now)
    have set: "settled s s' (Ack (d_Tag msg))"
      using settled_amqp_do [OF _ a] keepsE [OF keeps_broker(2) u] b(1) s' by simp
    have "rows s' = rows s4" using keepsE [OF keeps_rows(5) a] s' by simp
    then have "update_spec (\<lambda>m. n_ID m = n_ID n) (set_status StatusSent (Some (dr_MessageID resp)) None)
        (sy_rows \<sigma>) r4 (rows s')"
      using update_status [OF u] assms(2,4) b by simp
    from accepted_steps [OF this assms(3)] set show ?thesis by blast
  qed
qed

lemma process_steps:
  assumes "run_state (processMessage fuel con msg ch) s = (Some u, s')"
    "unmarshal (con_codec con) (d_Body msg) = Inr n" "sy_rows \<sigma> = rows s"
    "sy_threads \<sigma> = add_mset (Received n) T"
  shows "\<exists>\<sigma>' call. steps (w_MaxRetries (con_workerCfg con)) cr \<sigma> \<sigma>' \<and> settled s s' call \<and>
    after_settling (d_Tag msg) n call (rows s') T \<sigma> \<sigma>'"
proof -
  let ?mx = "w_MaxRetries (con_workerCfg con)"
  obtain f s1 where g: "run_state (repo_GetByID repo (n_ID n)) s = (f, s1)" by fastforce
  have s1: "rows s1 = rows s" using keepsE [OF keeps_reads(1) g] .
  define n1 where "n1 = (case f of Inr m \<Rightarrow> n\<lparr>n_RetryCount := n_RetryCount m\<rparr> | Inl e \<Rightarrow> n)"
  let ?k = "n_RetryCount n1"
  have id: "n_ID n1 = n_ID n" by (simp add: n1_def split: sum.split)
  have k: "?k = n_RetryCount n \<or> (\<exists>m \<in> set (rows s). n_ID m = n_ID n \<and> ?k = n_RetryCount m)"
    using get_by_id [OF g] by (auto simp: n1_def lookup_spec_def split: sum.split)
  obtain ro s2 where up: "run_state (repo_UpdateStatus repo (n_ID n1) StatusSending None None) s1 = (ro, s2)"
    by fastforce
  obtain go s3 where w: "run_state (wait_allowed fuel (con_limiter con) ch) s2 = (go, s3)" by fastforce
  have b: "broker s3 = broker s" "rows s3 = rows s2"
    using keepsE [OF keeps_broker(1) g] keepsE [OF keeps_broker(2) up] wait_run [OF w] by simp_all
  define \<sigma>1 where "\<sigma>1 = \<sigma>\<lparr>sy_threads := add_mset (MarkSending n ?k) T\<rparr>"
  define \<sigma>2 where "\<sigma>2 = \<sigma>1\<lparr>sy_threads := add_mset (Waiting n ?k) T, sy_rows := rows s2\<rparr>"
  have step1: "worker_step ?mx \<sigma> \<sigma>1" unfolding \<sigma>1_def
    using k assms(3) by (intro worker_step.read [OF assms(4)]) simp
  have step2: "worker_step ?mx \<sigma>1 \<sigma>2" unfolding \<sigma>2_def
    using update_spec_may [OF update_status [OF up]] s1 assms(3) id
    by (intro worker_step.mark_sending) (simp_all add: \<sigma>1_def)
  have same: "sy_ready \<sigma>2 = sy_ready \<sigma>" "sy_accepted \<sigma>2 = sy_accepted \<sigma>" "sy_dead \<sigma>2 = sy_dead \<sigma>"
    "sy_rows \<sigma>2 = rows s3" "sy_threads \<sigma>2 = add_mset (Waiting n ?k) T"
    by (simp_all add: \<sigma>2_def \<sigma>1_def b)
  note prog = processMessage_def assms(2) con_parts g n1_def [symmetric] up w
  have "\<exists>\<sigma>' call. steps ?mx cr \<sigma>2 \<sigma>' \<and> settled s s' call \<and> after_settling (d_Tag msg) n call (rows s') T \<sigma>2 \<sigma>'"
  proof (cases go)
    case None
    with assms(1) show ?thesis by (auto simp: prog Let_def)
  next
    case (Some go1)
    show ?thesis
    proof (cases go1)
      case True
      with assms(1) Some have d: "run_state (deliver con msg n1) s3 = ((), s')"
        by (auto simp: prog Let_def split: prod.splits)
      from deliver_steps [OF d same(4,5) id] b(1) show ?thesis by (simp add: settled_def broker_def)
    next
      case False
      obtain a s4 where a: "run_state (amqp_do (Nack (d_Tag msg) True)) s3 = (a, s4)" by fastforce
      with assms(1) Some False have "s' = s4" by (auto simp: prog Let_def)
      then have fin: "settled s s' (Nack (d_Tag msg) True)" "rows s' = rows s3"
        using settled_amqp_do [OF b(1) a] keepsE [OF keeps_rows(5) a] by simp_all
      from stopped_steps [OF same(5)] same(4) fin show ?thesis by metis
    qed
  qed
  then obtain \<sigma>' call where "steps ?mx cr \<sigma>2 \<sigma>'" "settled s s' call"
    "after_settling (d_Tag msg) n call (rows s') T \<sigma>2 \<sigma>'" by blast
  then show ?thesis
    using steps_work [OF step1 steps_work [OF step2]] after_settling_same [OF _ same(1-3)] by blast
qed

end

section \<open>The real components\<close>

text \<open>C5. The interleaved system has every run of the code: a hand-over by the API or the scheduler,
  and the processing of a message by a worker, whatever fails in them, are paths of its steps
  with the same table, the message published exactly when the publisher reported no error, and
  the message settled the way the code settled it.\<close>

theorem code_refines_steps:
  fixes s :: "'a amqp_scheme" and w :: "'b web_scheme"
  assumes "run_state (hand_over notificationRepo (rabbitPublisher codec cfg) n) s = (b, s')"
    "sy_rows \<sigma> = pg_notifications s" "sy_threads \<sigma> = add_mset (HandOver n) T"
    "run_state (processMessage fuel (worker_consumer lib codec conv c) msg ch) w = (Some u, w')"
    "unmarshal codec (d_Body msg) = Inr n'" "sy_rows \<tau> = pg_notifications w"
    "sy_threads \<tau> = add_mset (Received n') T'"
  shows "steps (w_MaxRetries (c_Worker c)) False \<sigma> (\<sigma>\<lparr>sy_rows := pg_notifications s', sy_threads := T,
      sy_ready := (if b then add_mset n (sy_ready \<sigma>) else sy_ready \<sigma>)\<rparr>) \<and>
    (if b then \<exists>m. published (amqp_log s') = published (amqp_log s) @ [m] \<and> carries_notification codec cfg n m
     else published (amqp_log s') = published (amqp_log s)) \<and>
    (\<exists>\<tau>' call. steps (w_MaxRetries (c_Worker c)) False \<tau> \<tau>' \<and> settled w w' call \<and>
       after_settling (d_Tag msg) n' call (pg_notifications w') T' \<tau> \<tau>')"
  using pg_rabbit.hand_over_steps [OF assms(1-3)] pg_consumer.process_steps [OF assms(4) _ assms(6,7)] assms(5)
  by simp

theorem code_refines_steps_witness:
  "\<exists>\<tau>' call. after_settling 1 (sample 7 StatusPending) call
     (pg_notifications (run_final (processMessage 1 (default_consumer 7) the_delivery ''push'')
       (world (\<lambda>_. Response 200 ''id'') [sample 7 StatusQueued]))) {#}
     \<lparr>sy_rows = [sample 7 StatusQueued], sy_ready = {#}, sy_threads = {#Received (sample 7 StatusPending)#},
      sy_accepted = [], sy_dead = []\<rparr> \<tau>'"
proof -
  let ?\<tau> = "\<lparr>sy_rows = [sample 7 StatusQueued], sy_ready = {#}, sy_threads = {#Received (sample 7 StatusPending)#},
      sy_accepted = [], sy_dead = []\<rparr>"
  let ?\<sigma> = "\<lparr>sy_rows = [sample 7 StatusPending], sy_ready = {#}, sy_threads = {#HandOver (sample 7 StatusPending)#},
      sy_accepted = [], sy_dead = []\<rparr>"
  let ?w = "world (\<lambda>_. Response 200 ''id'') [sample 7 StatusQueued]"
  let ?s = "calm_rabbit [sample 7 StatusPending]"
  from code_refines_steps [OF prod.collapse [symmetric], of ?\<sigma> ?s _ "{#}" 1 plain_webhook "one_message 7"
      "\<lambda>_ _. - (2 ^ 63)" default_config the_delivery "''push''" ?w "()" _ "sample 7 StatusPending" ?\<tau> "{#}"
      default_rabbitmq, OF _ _ accepted_run [of StatusQueued, unfolded default_consumer_def]]
  show ?thesis by (simp add: default_consumer_def) blast
qed

end
