(* ===== verification/System_Runs.thy ===== *)
theory System_Runs
  imports System
begin

text \<open>
  Runs of the interleaved system in which no call fails and no process dies: three races
  between the threads of the API, the scheduler and the workers.
\<close>

definition run1_row :: "status \<Rightarrow> notification" where
  "run1_row st = (stored_row 5 (new_notification 1 None (push_request None None)))\<lparr>n_Status := st\<rparr>"

definition run1_msg :: notification where
  "run1_msg = stamped 5 (new_notification 1 None (push_request None None))"

definition sys :: "notification list \<Rightarrow> notification list \<Rightarrow> thread list \<Rightarrow> uuid list \<Rightarrow> system" where
  "sys rs ms ts acc = \<lparr>sy_rows = rs, sy_ready = mset ms, sy_threads = mset ts, sy_accepted = acc, sy_dead = []\<rparr>"

lemma run1_simps [simp]:
  "n_ID (run1_row st) = 1" "n_ID run1_msg = 1" "n_Status (run1_row st) = st"
  "n_ScheduledAt (run1_row st) = None"
  by (simp_all add: run1_row_def run1_msg_def)

text \<open>The row as a whole, whatever the bookkeeping columns hold.\<close>

definition row_is :: "status \<Rightarrow> notification \<Rightarrow> bool" where
  "row_is st m \<longleftrightarrow> n_ID m = 1 \<and> n_Status m = st \<and> n_ScheduledAt m = None"

lemma set_status_row:
  "row_is st0 m \<Longrightarrow> \<exists>m'. row_is st m' \<and>
     may_update (\<lambda>n. n_ID n = 1) (set_status st p l) [m] [m']"
  by (intro exI [of _ "(set_status st p l 6 m)\<lparr>n_UpdatedAt := 6\<rparr>"])
    (auto simp: row_is_def may_update_def updated_def)

lemma start_run: "\<exists>m. row_is StatusPending m \<and> steps 3 False empty_system (sys [m] [] [HandOver run1_msg] [])"
proof -
  let ?n = "new_notification 1 None (push_request None None)"
  have "producer_step empty_system (sys [stored_row 5 ?n] [] [HandOver run1_msg] [])"
    using producer_step.create_now [of 1 None "push_request None None" empty_system 5]
    by (simp add: empty_system_def sys_def run1_msg_def row_conflict_def)
  then show ?thesis
    by (intro exI [of _ "stored_row 5 ?n"]) (auto simp: row_is_def intro: steps.produce [OF steps.here])
qed

lemma publish_run:
  "steps 3 False s0 (sys rs ms (HandOver n # ts) acc) \<Longrightarrow> steps 3 False s0 (sys rs (n # ms) (MarkQueued (n_ID n) # ts) acc)"
  using producer_step.publish [of "sys rs ms (HandOver n # ts) acc" n "mset ts"]
  by (auto simp: sys_def intro: steps.produce)

lemma mark_queued_run:
  assumes "steps 3 False s0 (sys [m] ms (MarkQueued 1 # ts) acc)" "row_is st m"
  shows "\<exists>m'. row_is StatusQueued m' \<and> steps 3 False s0 (sys [m'] ms ts acc)"
proof -
  obtain m' where m': "row_is StatusQueued m'" "may_update (\<lambda>n. n_ID n = 1) (set_status StatusQueued None None) [m] [m']"
    using set_status_row [OF assms(2)] by blast
  have "producer_step (sys [m] ms (MarkQueued 1 # ts) acc) (sys [m'] ms ts acc)"
    using producer_step.mark_queued [of "sys [m] ms (MarkQueued 1 # ts) acc" 1 "mset ts" "[m']"] m'(2)
    by (simp add: sys_def)
  with assms(1) m'(1) show ?thesis by (auto intro: steps.produce)
qed

lemma cancel_run:
  assumes "steps 3 False s0 (sys [m] ms ts acc)" "row_is StatusPending m"
  shows "\<exists>m'. row_is StatusCancelled m' \<and> steps 3 False s0 (sys [m'] ms ts acc)"
proof -
  let ?m = "m\<lparr>n_Status := StatusCancelled, n_UpdatedAt := 6\<rparr>"
  have "may_update (\<lambda>n. n_ID n = 1 \<and> cancellable n) (\<lambda>t n. n\<lparr>n_Status := StatusCancelled\<rparr>) [m] [?m]"
    using assms(2) by (auto simp: may_update_def updated_def row_is_def cancellable_def)
  then have "producer_step (sys [m] ms ts acc) (sys [?m] ms ts acc)"
    using producer_step.cancel [of 1 "sys [m] ms ts acc" "[?m]"] by (simp add: sys_def)
  with assms show ?thesis
    by (intro exI [of _ ?m]) (auto simp: row_is_def intro: steps.produce)
qed

text \<open>A worker that takes a message and delivers it.\<close>

lemma worker_delivers:
  assumes "steps 3 False s0 (sys [m] (n # ms) ts acc)" "row_is st m" "n_ID n = 1"
  shows "\<exists>m'. row_is StatusSent m' \<and> steps 3 False s0 (sys [m'] ms ts (1 # acc))"
proof -
  let ?k = "n_RetryCount n"
  obtain m1 where m1: "row_is StatusSending m1" "may_update (\<lambda>n. n_ID n = 1) (set_status StatusSending None None) [m] [m1]"
    using set_status_row [OF assms(2)] by blast
  obtain m2 where m2: "row_is StatusSent m2" "may_update (\<lambda>n. n_ID n = 1) (set_status StatusSent (Some ''id'') None) [m1] [m2]"
    using set_status_row [OF m1(1)] by blast
  have "worker_step 3 (sys [m] (n # ms) ts acc) (sys [m] ms (Received n # ts) acc)"
    using worker_step.receive [of "sys [m] (n # ms) ts acc" n "mset ms" 3] by (simp add: sys_def)
  moreover have "worker_step 3 (sys [m] ms (Received n # ts) acc) (sys [m] ms (MarkSending n ?k # ts) acc)"
    using worker_step.read [of "sys [m] ms (Received n # ts) acc" n "mset ts" ?k 3] by (simp add: sys_def)
  moreover have "worker_step 3 (sys [m] ms (MarkSending n ?k # ts) acc) (sys [m1] ms (Waiting n ?k # ts) acc)"
    using worker_step.mark_sending [of "sys [m] ms (MarkSending n ?k # ts) acc" n ?k "mset ts" "[m1]" 3] m1(2) assms(3)
    by (simp add: sys_def)
  moreover have "worker_step 3 (sys [m1] ms (Waiting n ?k # ts) acc) (sys [m1] ms (MarkSent n ''id'' # ts) (1 # acc))"
    using worker_step.accepted [of "sys [m1] ms (Waiting n ?k # ts) acc" n ?k "mset ts" 3 "''id''"] assms(3)
    by (simp add: sys_def)
  moreover have "worker_step 3 (sys [m1] ms (MarkSent n ''id'' # ts) (1 # acc)) (sys [m2] ms (AckDue n # ts) (1 # acc))"
    using worker_step.mark_sent [of "sys [m1] ms (MarkSent n ''id'' # ts) (1 # acc)" n "''id''" "mset ts" "[m2]" 3] m2(2) assms(3)
    by (simp add: sys_def)
  moreover have "worker_step 3 (sys [m2] ms (AckDue n # ts) (1 # acc)) (sys [m2] ms ts (1 # acc))"
    using worker_step.ack [of "sys [m2] ms (AckDue n # ts) (1 # acc)" n "mset ts" 3] by (simp add: sys_def)
  ultimately have "steps 3 False s0 (sys [m2] ms ts (1 # acc))"
    using assms(1) by (meson steps.work)
  with m2(1) show ?thesis by blast
qed


text \<open>The scheduler can poll between the insertion and the publication of an immediate
  notification: it is published twice and delivered twice.\<close>

theorem delivered_twice:
  "\<exists>m. steps 3 False empty_system (sys [m] [] [] [1, 1]) \<and> n_ID m = 1"
proof -
  obtain m where m: "row_is StatusPending m" "steps 3 False empty_system (sys [m] [] [HandOver run1_msg] [])"
    using start_run by blast
  have "producer_step (sys [m] [] [HandOver run1_msg] []) (sys [m] [] [HandOver m, HandOver run1_msg] [])"
    using producer_step.poll [of "[m]" "sys [m] [] [HandOver run1_msg] []" 9] m(1)
    by (simp add: sys_def row_is_def due_def add_mset_commute)
  then have "steps 3 False empty_system (sys [m] [] [HandOver m, HandOver run1_msg] [])"
    using m(2) by (auto intro: steps.produce)
  then have "steps 3 False empty_system (sys [m] [m] [MarkQueued 1, HandOver run1_msg] [])"
    using publish_run [of empty_system "[m]" "[]" m "[HandOver run1_msg]" "[]"] m(1) by (simp add: row_is_def)
  then obtain m1 where "row_is StatusQueued m1" "steps 3 False empty_system (sys [m1] [m] [HandOver run1_msg] [])"
    using mark_queued_run [OF _ m(1)] by blast
  then have m1: "row_is StatusQueued m1" "steps 3 False empty_system (sys [m1] [run1_msg, m] [MarkQueued 1] [])"
    using publish_run [of empty_system "[m1]" "[m]" run1_msg "[]" "[]"] by simp_all
  obtain m2 where m2: "row_is StatusQueued m2" "steps 3 False empty_system (sys [m2] [run1_msg, m] [] [])"
    using mark_queued_run [OF m1(2,1)] by blast
  obtain m3 where m3: "row_is StatusSent m3" "steps 3 False empty_system (sys [m3] [m] [] [1])"
    using worker_delivers [OF m2(2,1)] by auto
  obtain m4 where "row_is StatusSent m4" "steps 3 False empty_system (sys [m4] [] [] [1, 1])"
    using worker_delivers [OF m3(2,1)] m(1) by (auto simp: row_is_def)
  then show ?thesis by (auto simp: row_is_def)
qed

text \<open>C30. A cancellation that succeeded can be undone: when it falls between the publication and
  the update of the status, the row is queued again, and the notification is sent.\<close>

theorem cancellation_undone:
  "\<exists>m0 m1 m2. steps 3 False empty_system (sys [m0] [run1_msg] [MarkQueued 1] []) \<and> n_Status m0 = StatusCancelled \<and>
     steps 3 False (sys [m0] [run1_msg] [MarkQueued 1] []) (sys [m1] [run1_msg] [] []) \<and> n_Status m1 = StatusQueued \<and>
     steps 3 False (sys [m1] [run1_msg] [] []) (sys [m2] [] [] [1]) \<and> n_Status m2 = StatusSent"
proof -
  obtain m where "row_is StatusPending m" "steps 3 False empty_system (sys [m] [run1_msg] [MarkQueued 1] [])"
    using start_run publish_run [of empty_system _ "[]" run1_msg "[]" "[]"] by auto
  then obtain m0 where m0: "row_is StatusCancelled m0" "steps 3 False empty_system (sys [m0] [run1_msg] [MarkQueued 1] [])"
    using cancel_run by blast
  obtain m1 where m1: "row_is StatusQueued m1"
    "steps 3 False (sys [m0] [run1_msg] [MarkQueued 1] []) (sys [m1] [run1_msg] [] [])"
    using mark_queued_run [OF steps.here m0(1)] by blast
  obtain m2 where m2: "row_is StatusSent m2" "steps 3 False (sys [m1] [run1_msg] [] []) (sys [m2] [] [] [1])"
    using worker_delivers [OF steps.here m1(1), of run1_msg "[]" "[]" "[]"] by auto
  show ?thesis using m0 m1 m2 by (auto simp: row_is_def)
qed

theorem no_notification_lost_witness:
  "\<exists>s. steps 3 True empty_system s \<and> covered s 1"
proof -
  have mono: "steps 3 True s0 s" if "steps 3 False s0 s" for s0 s
    using that by induction (auto intro: steps.intros)
  obtain m where "row_is StatusPending m" "steps 3 False empty_system (sys [m] [run1_msg] [MarkQueued 1] [])"
    using start_run publish_run [of empty_system _ "[]" run1_msg "[]" "[]"] by auto
  then obtain m1 where m1: "row_is StatusQueued m1" "steps 3 False empty_system (sys [m1] [run1_msg] [] [])"
    using mark_queued_run [of empty_system m "[run1_msg]" "[]" "[]"] by blast
  from mono [OF this(2)] have s: "steps 3 True empty_system (sys [m1] [run1_msg] [] [])" .
  have "m1 \<in> set (sy_rows (sys [m1] [run1_msg] [] []))" "n_Status m1 \<noteq> StatusPending" "n_Status m1 \<noteq> StatusCancelled"
    using m1(1) by (simp_all add: sys_def row_is_def)
  from no_notification_lost [OF s this] s m1(1) show ?thesis by (auto simp: row_is_def)
qed

end
