(* ===== verification/Spec2Isabelle.thy ===== *)
theory Spec2Isabelle
  imports Api_Server Api_Shutdown Shutdown Consumer_Interrupted End_To_End Migrate System_Refine System_Runs
begin

text \<open>
  Verification of notify-engine, a service that accepts notifications over HTTP, stores them
  in PostgreSQL, hands them to workers through RabbitMQ, limits the rate of deliveries with
  Redis and delivers them with a webhook.

  \<^bold>\<open>The program.\<close> \<open>cmd/api\<close> runs the HTTP handlers, \<open>cmd/worker\<close> the consumer and the
  scheduler. A request becomes a row with status pending (\<open>internal/service\<close>,
  \<open>internal/repository\<close>); a message for it is published (\<open>internal/queue/publisher.go\<close>) at
  once or, when it is scheduled or the publication failed, by the scheduler's poll; the row is
  then queued. A worker (\<open>internal/queue/consumer.go\<close>) sets it to sending, waits for the rate
  limiter (\<open>internal/ratelimiter\<close>), sends it (\<open>internal/delivery\<close>) and sets it to sent, queued
  again or failed, settling the message accordingly.

  \<^bold>\<open>How it is modelled.\<close> A Go function with effects is a state transformer over the outside world
  (\<open>Environment\<close>): records for the Go runtime, PostgreSQL, RabbitMQ, Redis and the web,
  each extending the one before. Every call to a service may fail: which ones do, and with
  which error, is a function of the number of the call, so a theorem about all states covers all
  failures. Go errors are the datatype of \<open>Go_Errors\<close>, the integers wrap at 64 bits where the
  code computes with them, strings are lists of bytes. What a record keeps of a map is the list
  of its entries in the order of iteration, which Go leaves open.

  \<^bold>\<open>The theories.\<close>
  \<^item> \<open>Prelude\<close>, \<open>Go_Base\<close>, \<open>Go_Utf8\<close>, \<open>Go_Float\<close>, \<open>Go_Time\<close>, \<open>Go_Duration\<close>, \<open>Go_Errors\<close>,
    \<open>Environment\<close>: shared lemmas, the part of Go and its library the program uses (integers,
    UTF-8, the rounding of floating-point quotients, RFC 3339 over the civil calendar,
    durations, error chains), the outside world.
  \<^item> \<open>Go_Json\<close>, \<open>Go_Json_Text\<close>, \<open>Go_Json_Struct\<close>: \<open>encoding/json\<close>, its printer, its scanner and
    the decoding of a struct by its tags, with the round trips of literals and values;
    \<open>Notification_Json\<close> and \<open>Delivery_Json\<close>: the tags of \<open>Notification\<close>, \<open>DeliveryRequest\<close> and
    \<open>DeliveryResponse\<close>; \<open>End_To_End\<close>: from the publisher through the queue to the webhook with
    these codecs (locale \<open>message_codec\<close>). The definitions of the publisher, the consumer and the
    provider take any codec, so what holds of them holds of this one.
  \<^item> \<open>Model_Notification\<close>, \<open>Model_Request\<close>, \<open>Model_Template\<close>: \<open>internal/model\<close>, with the
    characterisation of the validation rules and of template rendering.
  \<^item> \<open>Notification_Repo\<close>, \<open>Notification_List\<close>: \<open>internal/repository/notification.go\<close>;
    \<open>Notification_Store\<close> states the contract of the interface as the locale
    \<open>notification_store\<close> and interprets it; \<open>Notification_Props\<close> and
    \<open>Notification_Query\<close> hold the invariant of the table and the meaning of the queries.
    \<open>Template_Repo\<close> does the same for \<open>internal/repository/template.go\<close>.
  \<^item> \<open>Config\<close>: \<open>internal/config\<close>.
  \<^item> \<open>Publisher\<close>: \<open>internal/queue/publisher.go\<close>, with the locale \<open>message_publisher\<close>;
    \<open>Pipeline\<close> joins it with the store (locale \<open>pipeline\<close>); \<open>Scheduler\<close> is
    \<open>internal/queue/scheduler.go\<close>.
  \<^item> \<open>Notification_Service\<close>: \<open>internal/service/notification.go\<close>; \<open>Service_Spec\<close> states what
    it promises over any store and publisher, \<open>Service_Props\<close> and \<open>Service_Cases\<close> what
    follows for the real ones.
  \<^item> \<open>Rate_Limiter\<close>: \<open>internal/ratelimiter\<close> over the locale \<open>expiring_counter\<close>; \<open>Provider\<close>:
    \<open>internal/delivery\<close>.
  \<^item> \<open>Consumer\<close>: \<open>internal/queue/consumer.go\<close>; \<open>Consumer_Spec\<close> proves what processing a
    message does over any store, provider and limiter (locale \<open>consumer_env\<close>);
    \<open>Consumer_Props\<close> is the worker of \<open>cmd/worker\<close>; \<open>Consumer_Runs\<close> and \<open>Consumer_Retry\<close>
    treat concrete runs and the number of attempts; \<open>Connections\<close> the connections to RabbitMQ.
  \<^item> \<open>Api_Response\<close>, \<open>Notification_Handler\<close>, \<open>Template_Handler\<close>: \<open>internal/model/response.go\<close>
    and the handlers of \<open>internal/handler\<close>; \<open>Handler_Spec\<close> proves what the routes do over any
    service (locale \<open>notification_api\<close>) and what a listing reports; \<open>Health\<close> and
    \<open>Health_Props\<close>: \<open>internal/handler/health.go\<close>; \<open>Middleware\<close>: \<open>internal/middleware\<close>;
    \<open>Migrate\<close>: \<open>cmd/migrate\<close>.
  \<^item> \<open>Startup\<close>: \<open>internal/telemetry\<close> and the start-up of \<open>cmd/worker/main.go\<close> and
    \<open>cmd/api/main.go\<close>, with their exits and the stack of deferred calls; \<open>Api_Server\<close>: the routes
    the API registers, \<open>internal/handler/swagger.go\<close> among them, behind the middleware;
    \<open>Shutdown\<close> and \<open>Api_Shutdown\<close>: how the two processes end, as step relations of the main
    thread next to the workers, the scheduler and the requests; \<open>Consumer_Interrupted\<close>: what
    the shutdown does to a message that is being delivered.
  \<^item> \<open>System\<close>: requests, polls and workers interleaved call by call, with the invariant that no
    notification is lost; \<open>System_Runs\<close>: three races of the code as reachable states;
    \<open>System_Refine\<close>: the functions of the code are paths of these steps.

  \<^bold>\<open>What is shown.\<close> Creating a notification, alone or in a batch, is all or nothing, idempotent by
  key, and publishes what is due; a poll of the scheduler publishes what it marks and makes
  progress; a message is settled exactly once and its row follows; attempts are bounded while
  the database works, and not when it does not; the rate limit holds per second and channel;
  the queries, pages, counters and metrics are what the table says; migrations are applied in
  order; a worker consumes only once every service answered, closes its services only when all
  workers returned, and its shutdown cannot get stuck; every response carries its request's
  correlation identifier and is logged with it; a published notification is decoded by the
  worker as it was, and the webhook receives what it says. Theorems also pin down where the code falls short of its purpose or its README: a
  cancelled notification that is sent, a status that says queued for ever, double delivery, a
  retry fewer than documented, the fixed window, one bad key failing a batch, a conflict that
  is answered 500, a message the shutdown dead-letters in mid-delivery, a lost connection after
  which the worker process does nothing for ever.

  \<^bold>\<open>Fuel.\<close> The wait for the rate limiter has no bound in the code, so \<open>processMessage\<close> takes a
  number of rounds. More rounds never change a result (\<open>process_more\<close>), and
  \<open>processing_ends\<close> says how many are enough once the worker is told to stop. Bounds on numbers
  are those of the code's types: counts below 2 to the 53 where \<open>float64\<close> is used, the 32-bit
  retry column.

  \<^bold>\<open>Not modelled.\<close> The program's log beyond the access log and the spans of its traces have no
  influence on what the program computes and are left out, as is what a migration script does
  to the schema. The text of a UUID, gin's binding and routing, \<open>mail.ParseAddress\<close>, the check of
  a URL and HTTP are third parties' or not looked into, and arguments of the definitions. The
  text of a JSON error is not kept, since the code only logs it; a time is an instant, and the
  offset its location has when it is printed is an argument; the rounding of a stored time to the
  microseconds of PostgreSQL is left out. The program asks RabbitMQ for no publisher confirms, so a publication that
  returned no error is recorded as made; whether the broker kept it is outside the program.
\<close>

end
